(* ===== verification/Prelude.thy ===== *)
theory Prelude
  imports Main "HOL-Library.Word"
begin

text \<open>
  What the components share: the machine types, the collections of rewrite rules, and generic
  lemmas on lists that are scanned for the first element with a property (every loop of
  \<^verbatim>\<open>server_queue.c\<close> is such a scan), on string tables, and on decimal printing.
\<close>

section \<open>Rule collections\<close>

named_theorems cstr_simps \<open>characteristic equations of the C string functions\<close>
named_theorems queue_simps \<open>functional characterisations of the client list operations\<close>
named_theorems run_simps \<open>one equation per action of a server program under the sequential semantics\<close>
named_theorems handler_defs \<open>unfolding of the message handlers of the server\<close>

section \<open>Machine types\<close>

type_synonym u8 = "8 word"
type_synonym c_int = "32 word"
type_synonym addr = nat
type_synonym tid = nat

section \<open>Array reads\<close>

text \<open>An array read that makes the out-of-range case visible.\<close>

definition nth_opt :: "'a list \<Rightarrow> nat \<Rightarrow> 'a option" where
  "nth_opt xs i = (if i < length xs then Some (xs ! i) else None)"

lemma nth_opt_Some [simp]: "i < length xs \<Longrightarrow> nth_opt xs i = Some (xs ! i)"
  by (simp add: nth_opt_def)

lemma nth_opt_None_iff [simp]: "nth_opt xs i = None \<longleftrightarrow> length xs \<le> i"
  by (simp add: nth_opt_def)

section \<open>Writing through the first match of a scan\<close>

text \<open>
  \<^verbatim>\<open>temp = head; while (temp && !p(temp)) temp = temp->next; if (temp) *temp = f(*temp)\<close>
\<close>

primrec upd_first :: "('a \<Rightarrow> bool) \<Rightarrow> ('a \<Rightarrow> 'a) \<Rightarrow> 'a list \<Rightarrow> 'a list" where
  "upd_first p f [] = []"
| "upd_first p f (x # xs) = (if p x then f x # xs else x # upd_first p f xs)"

lemma length_upd_first [simp]: "length (upd_first p f xs) = length xs"
  by (induction xs) auto

lemma map_upd_first [simp]: "(\<And>x. g (f x) = g x) \<Longrightarrow> map g (upd_first p f xs) = map g xs"
  by (induction xs) auto

lemma upd_first_Nil_iff [simp]: "upd_first p f xs = [] \<longleftrightarrow> xs = []"
  by (cases xs) auto

lemma set_upd_first_subset: "set (upd_first p f xs) \<subseteq> set xs \<union> f ` set xs"
  by (induction xs) auto

lemma upd_first_id [simp]: "(\<And>x. f x = x) \<Longrightarrow> upd_first p f xs = xs"
  by (induction xs) auto

lemma upd_first_not_found: "find p xs = None \<Longrightarrow> upd_first p f xs = xs"
  by (induction xs) (auto split: if_splits)

lemma find_upd_first_same:
  "(\<And>x. p (f x) = p x) \<Longrightarrow> find p (upd_first p f xs) = map_option f (find p xs)"
  by (induction xs) auto

lemma find_upd_first_other:
  "(\<And>x. p x \<Longrightarrow> \<not> q x) \<Longrightarrow> (\<And>x. q (f x) = q x) \<Longrightarrow>
     find q (upd_first p f xs) = find q xs"
  by (induction xs) auto

lemma list_all_upd_first:
  "list_all P xs \<Longrightarrow> (\<And>x. P x \<Longrightarrow> P (f x)) \<Longrightarrow> list_all P (upd_first p f xs)"
  by (induction xs) auto

lemma find_Some_mem: "find p xs = Some x \<Longrightarrow> x \<in> set xs \<and> p x"
  by (induction xs) (auto split: if_splits)

lemma find_None_notin: "find p xs = None \<longleftrightarrow> (\<forall>x \<in> set xs. \<not> p x)"
  by (induction xs) auto

lemma find_append: "find p (xs @ ys) = (case find p xs of None \<Rightarrow> find p ys | Some x \<Rightarrow> Some x)"
  by (induction xs) auto

lemma find_key_unique:
  "distinct (map k xs) \<Longrightarrow> x \<in> set xs \<Longrightarrow> find (\<lambda>y. k y = k x) xs = Some x"
  by (induction xs) (auto simp: image_iff)

text \<open>Unlinking the first match; \<open>remove1_by\<close> is the abstract effect of the removal loops.\<close>

primrec remove1_by :: "('a \<Rightarrow> bool) \<Rightarrow> 'a list \<Rightarrow> 'a list" where
  "remove1_by p [] = []"
| "remove1_by p (x # xs) = (if p x then xs else x # remove1_by p xs)"

lemma set_remove1_by_subset: "set (remove1_by p xs) \<subseteq> set xs"
  by (induction xs) auto

lemma remove1_by_not_found: "find p xs = None \<Longrightarrow> remove1_by p xs = xs"
  by (induction xs) (auto split: if_splits)

lemma length_remove1_by: "find p xs \<noteq> None \<Longrightarrow> Suc (length (remove1_by p xs)) = length xs"
  by (induction xs) (auto split: if_splits)

lemma distinct_map_remove1_by: "distinct (map g xs) \<Longrightarrow> distinct (map g (remove1_by p xs))"
  by (induction xs) (use set_remove1_by_subset in fastforce)+

lemma list_all_remove1_by: "list_all P xs \<Longrightarrow> list_all P (remove1_by p xs)"
  by (induction xs) auto

lemma find_remove1_by_other:
  "(\<And>x. p x \<Longrightarrow> \<not> q x) \<Longrightarrow> find q (remove1_by p xs) = find q xs"
  by (induction xs) auto

lemma find_remove1_by_same:
  "distinct (map k xs) \<Longrightarrow> find (\<lambda>y. k y = a) (remove1_by (\<lambda>y. k y = a) xs) = None"
  by (induction xs) (auto simp: find_None_notin image_iff)

section \<open>String tables\<close>

text \<open>
  The \<^verbatim>\<open>...ToStr\<close> functions index a constant table by the enumerator plus one and fall back
  to entry 0 from the \<open>..._MAX\<close> enumerator on. The interface: a code, a limit, a table with
  one entry for each code below the limit and one for the fallback. Its client lemmas: the read
  is always inside the table.
\<close>

locale string_table =
  fixes code :: "'e \<Rightarrow> nat"
    and limit :: nat
    and table :: "string list"
    and lookup :: "'e \<Rightarrow> string option"
  assumes lookup_eq: "lookup e = (if limit \<le> code e then nth_opt table 0 else nth_opt table (Suc (code e)))"
    and length_table: "length table = Suc limit"
begin

lemma in_bounds: "\<exists>s. lookup e = Some s \<and> s \<in> set table"
proof (cases "limit \<le> code e")
  case True
  then show ?thesis by (simp add: lookup_eq length_table)
next
  case False
  then show ?thesis by (simp add: lookup_eq length_table)
qed

lemma fallback: "limit \<le> code e \<Longrightarrow> lookup e = Some (table ! 0)"
  by (simp add: lookup_eq length_table)

lemma injective_below:
  assumes "distinct table" and "code d < limit" and "code e < limit"
    and "lookup d = lookup e"
  shows "code d = code e"
  using assms by (simp add: lookup_eq length_table nth_eq_iff_index_eq)

end

section \<open>Decimal printing, as \<^verbatim>\<open>printf("%d")\<close> does\<close>

definition digit_char :: "nat \<Rightarrow> char" where
  "digit_char d = char_of (48 + d)"

fun dec_digits :: "nat \<Rightarrow> string" where
  "dec_digits n = (if n < 10 then [digit_char n] else dec_digits (n div 10) @ [digit_char (n mod 10)])"

declare dec_digits.simps [simp del]

definition dec_of_int :: "int \<Rightarrow> string" where
  "dec_of_int i = (if i < 0 then CHR ''-'' # dec_digits (nat (- i)) else dec_digits (nat i))"

definition digit_val :: "char \<Rightarrow> nat" where
  "digit_val c = of_char c - 48"

definition dec_val :: "string \<Rightarrow> nat" where
  "dec_val s = foldl (\<lambda>v c. 10 * v + digit_val c) 0 s"

lemma of_digit_char [simp]: "d < 10 \<Longrightarrow> of_char (digit_char d) = 48 + d"
  by (simp add: digit_char_def)

lemma digit_val_char [simp]: "d < 10 \<Longrightarrow> digit_val (digit_char d) = d"
  by (simp add: digit_val_def)

lemma dec_val_dec_digits [simp]: "dec_val (dec_digits n) = n"
proof (induction n rule: dec_digits.induct)
  case (1 n)
  show ?case
  proof (cases "n < 10")
    case True
    then show ?thesis by (simp add: dec_digits.simps [of n] dec_val_def)
  next
    case False
    with 1 have "dec_val (dec_digits (n div 10)) = n div 10" by simp
    with False show ?thesis
      by (simp add: dec_digits.simps [of n] dec_val_def)
  qed
qed

lemma dec_digits_inject [simp]: "dec_digits m = dec_digits n \<longleftrightarrow> m = n"
  by (metis dec_val_dec_digits)

lemma dec_digits_chars: "c \<in> set (dec_digits n) \<Longrightarrow> \<exists>d < 10. c = digit_char d"
proof (induction n rule: dec_digits.induct)
  case (1 n)
  then show ?case
  proof (cases "n < 10")
    case True
    with 1 show ?thesis by (auto simp: dec_digits.simps [of n])
  next
    case False
    with 1 show ?thesis
      by (auto simp: dec_digits.simps [of n] intro: exI [of _ "n mod 10"])
  qed
qed

lemma length_dec_digits: "0 < k \<Longrightarrow> n < 10 ^ k \<Longrightarrow> length (dec_digits n) \<le> k"
proof (induction k arbitrary: n)
  case 0
  then show ?case by simp
next
  case (Suc k)
  show ?case
  proof (cases "n < 10")
    case True
    then show ?thesis by (simp add: dec_digits.simps [of n])
  next
    case False
    with Suc.prems have "k \<noteq> 0" by (cases k) auto
    moreover have "n div 10 < 10 ^ k"
      using Suc.prems(2) by (simp add: div_less_iff_less_mult mult.commute)
    ultimately have "length (dec_digits (n div 10)) \<le> k"
      using Suc.IH by simp
    with False show ?thesis by (simp add: dec_digits.simps [of n])
  qed
qed

lemma dec_digits_nonempty [simp]: "dec_digits n \<noteq> []"
  by (subst dec_digits.simps) simp

lemma dec_of_int_inject [simp]: "dec_of_int i = dec_of_int j \<longleftrightarrow> i = j"
proof -
  have minus: "CHR ''-'' \<notin> set (dec_digits n)" for n
  proof
    assume "CHR ''-'' \<in> set (dec_digits n)"
    then obtain d where "d < 10" and "CHR ''-'' = digit_char d"
      using dec_digits_chars by blast
    then have "of_char (CHR ''-'') = 48 + d" by simp
    then show False by simp
  qed
  have "dec_digits n \<noteq> CHR ''-'' # xs" for n xs
    using minus [of n] by (metis list.set_intros(1))
  then have ne: "CHR ''-'' # xs \<noteq> dec_digits n" for n xs
    by metis
  show ?thesis
    using ne by (auto simp: dec_of_int_def dest: sym)
qed

lemma length_dec_of_int: "- (10 ^ k) < i \<Longrightarrow> i < 10 ^ k \<Longrightarrow> 0 < k \<Longrightarrow> length (dec_of_int i) \<le> Suc k"
proof -
  assume lo: "- (10 ^ k) < i" and hi: "i < 10 ^ k" and k: "0 < k"
  have "nat (- i) < 10 ^ k" and "nat i < 10 ^ k"
    using lo hi by (auto simp: nat_less_iff)
  then have "length (dec_digits (nat (- i))) \<le> k" and "length (dec_digits (nat i)) \<le> k"
    using k by (auto intro: length_dec_digits)
  then show ?thesis by (simp add: dec_of_int_def)
qed

end
