(* ===== verification/CString.thy ===== *)
theory CString
  imports Prelude
begin

text \<open>
  The C library string functions that the program calls, on explicit memory regions. A region is
  the list of bytes of one array object, so reading or writing outside it is the value \<open>None\<close>:
  undefined behaviour is a branch of the model and not an unspecified value. \<open>cstr\<close> is the
  text a region holds, the bytes before the first NUL.
\<close>

section \<open>Regions and the text they hold\<close>

abbreviation NUL :: char where
  "NUL \<equiv> CHR 0x00"

abbreviation SPACE :: char where
  "SPACE \<equiv> CHR 0x20"

definition cstr :: "char list \<Rightarrow> string" where
  "cstr b = takeWhile (\<lambda>c. c \<noteq> NUL) b"

definition terminated :: "char list \<Rightarrow> bool" where
  "terminated b \<longleftrightarrow> NUL \<in> set b"

text \<open>An array of \<open>n\<close> bytes that holds a literal and is zero behind it.\<close>

definition mk_buf :: "nat \<Rightarrow> string \<Rightarrow> char list" where
  "mk_buf n s = s @ replicate (n - length s) NUL"

section \<open>The library functions\<close>

fun strlen :: "char list \<Rightarrow> nat option" where
  "strlen [] = None"
| "strlen (c # cs) = (if c = NUL then Some 0 else map_option Suc (strlen cs))"

fun strcmp :: "char list \<Rightarrow> char list \<Rightarrow> int option" where
  "strcmp [] b = None"
| "strcmp a [] = None"
| "strcmp (x # a) (y # b) =
     (if x \<noteq> y then Some (of_char x - of_char y)
      else if x = NUL then Some 0
      else strcmp a b)"

fun strncmp :: "char list \<Rightarrow> char list \<Rightarrow> nat \<Rightarrow> int option" where
  "strncmp a b 0 = Some 0"
| "strncmp [] b (Suc n) = None"
| "strncmp a [] (Suc n) = None"
| "strncmp (x # a) (y # b) (Suc n) =
     (if x \<noteq> y then Some (of_char x - of_char y)
      else if x = NUL then Some 0
      else strncmp a b n)"

text \<open>The bytes a bounded copy takes from its source: up to the first NUL, at most \<open>n\<close>.\<close>

definition src_prefix :: "nat \<Rightarrow> char list \<Rightarrow> string option" where
  "src_prefix n src =
     (if NUL \<in> set (take n src) \<or> n \<le> length src then Some (cstr (take n src)) else None)"

definition strcpy :: "char list \<Rightarrow> char list \<Rightarrow> char list option" where
  "strcpy dst src =
     (case strlen src of
        None \<Rightarrow> None
      | Some l \<Rightarrow> if Suc l \<le> length dst then Some (take (Suc l) src @ drop (Suc l) dst) else None)"

definition strncpy :: "char list \<Rightarrow> char list \<Rightarrow> nat \<Rightarrow> char list option" where
  "strncpy dst src n =
     (case src_prefix n src of
        None \<Rightarrow> None
      | Some p \<Rightarrow> if n \<le> length dst then Some (p @ replicate (n - length p) NUL @ drop n dst) else None)"

definition strncat :: "char list \<Rightarrow> char list \<Rightarrow> nat \<Rightarrow> char list option" where
  "strncat dst src n =
     (case strlen dst of
        None \<Rightarrow> None
      | Some d \<Rightarrow>
          (case src_prefix n src of
             None \<Rightarrow> None
           | Some p \<Rightarrow>
               if d + length p + 1 \<le> length dst
               then Some (take d dst @ p @ NUL # drop (d + length p + 1) dst) else None))"

definition memcpy :: "char list \<Rightarrow> char list \<Rightarrow> nat \<Rightarrow> char list option" where
  "memcpy dst src n =
     (if n \<le> length src \<and> n \<le> length dst then Some (take n src @ drop n dst) else None)"

text \<open>\<^verbatim>\<open>memset(b, '\0', n)\<close>\<close>

definition memset_zero :: "char list \<Rightarrow> nat \<Rightarrow> char list option" where
  "memset_zero b n = (if n \<le> length b then Some (replicate n NUL @ drop n b) else None)"

text \<open>\<^verbatim>\<open>b[i] = c\<close>\<close>

definition store_byte :: "char list \<Rightarrow> nat \<Rightarrow> char \<Rightarrow> char list option" where
  "store_byte b i c = (if i < length b then Some (b[i := c]) else None)"

text \<open>\<^verbatim>\<open>sprintf\<close> with a result text that holds no NUL.\<close>

definition sprintf :: "char list \<Rightarrow> string \<Rightarrow> char list option" where
  "sprintf dst s = strcpy dst (s @ [NUL])"

section \<open>Text of a region\<close>

lemma cstr_Nil [simp]: "cstr [] = []"
  by (simp add: cstr_def)

lemma cstr_Cons [simp]: "cstr (c # b) = (if c = NUL then [] else c # cstr b)"
  by (simp add: cstr_def)

lemma cstr_no_NUL [simp]: "NUL \<notin> set (cstr b)"
  by (induction b) auto

lemma cstr_replicate [simp]: "cstr (replicate n NUL) = []"
  by (cases n) auto

lemma cstr_append_text: "NUL \<notin> set s \<Longrightarrow> cstr (s @ b) = s @ cstr b"
  by (induction s) auto

lemma cstr_append_terminated [simp]: "terminated a \<Longrightarrow> cstr (a @ b) = cstr a"
  by (induction a) (auto simp: terminated_def)

lemma cstr_text [simp]: "NUL \<notin> set s \<Longrightarrow> cstr s = s"
  by (induction s) auto

lemma length_cstr_le: "length (cstr b) \<le> length b"
  by (simp add: cstr_def length_takeWhile_le)

lemma length_cstr_less: "terminated b \<Longrightarrow> length (cstr b) < length b"
  by (induction b) (auto simp: terminated_def)

lemma cstr_take: "cstr (take n b) = take n (cstr b)"
  by (induction b arbitrary: n) (auto simp: take_Cons split: nat.splits)

lemma cstr_mk_buf [simp]: "NUL \<notin> set s \<Longrightarrow> cstr (mk_buf n s) = s"
  by (simp add: mk_buf_def cstr_append_text)

lemma terminated_mk_buf [simp]: "length s < n \<Longrightarrow> terminated (mk_buf n s)"
  by (simp add: mk_buf_def terminated_def)

lemma length_mk_buf [simp]: "length s \<le> n \<Longrightarrow> length (mk_buf n s) = n"
  by (simp add: mk_buf_def)

lemma terminated_replicate [simp]: "terminated (replicate n NUL) \<longleftrightarrow> 0 < n"
  by (simp add: terminated_def)

lemma terminated_Cons [simp]: "terminated (c # b) \<longleftrightarrow> c = NUL \<or> terminated b"
  by (auto simp: terminated_def)

lemma terminated_Nil [simp]: "\<not> terminated []"
  by (simp add: terminated_def)

lemma terminated_append [simp]: "terminated (a @ b) \<longleftrightarrow> terminated a \<or> terminated b"
  by (auto simp: terminated_def)

section \<open>Characteristic lemmas\<close>

lemma strlen_eq [cstr_simps]: "strlen b = (if terminated b then Some (length (cstr b)) else None)"
  by (induction b) auto

lemma strcmp_total:
  assumes "terminated b" and "terminated a \<or> length b \<le> length a"
  shows "\<exists>r. strcmp a b = Some r \<and> (r = 0 \<longleftrightarrow> cstr a = cstr b)"
  using assms
proof (induction a b rule: strcmp.induct)
  case (3 x a y b)
  show ?case
  proof (cases "x \<noteq> y \<or> x = NUL")
    case True
    then show ?thesis by auto
  next
    case False
    with "3.prems" have "terminated b" and "terminated a \<or> length b \<le> length a" by auto
    with "3.IH" False show ?thesis by simp
  qed
qed auto

lemma strcmp_total_left:
  assumes "terminated a" and "terminated b \<or> length a \<le> length b"
  shows "\<exists>r. strcmp a b = Some r \<and> (r = 0 \<longleftrightarrow> cstr a = cstr b)"
  using assms
proof (induction a b rule: strcmp.induct)
  case (3 x a y b)
  show ?case
  proof (cases "x \<noteq> y \<or> x = NUL")
    case True
    then show ?thesis by auto
  next
    case False
    with "3.prems" have "terminated a" and "terminated b \<or> length a \<le> length b" by auto
    with "3.IH" False show ?thesis by simp
  qed
qed auto

lemma strcmp_None_overread: "\<not> terminated a \<Longrightarrow> a = take (length a) b \<Longrightarrow> strcmp a b = None"
proof (induction a b rule: strcmp.induct)
  case (3 x a y b)
  then show ?case by (auto simp: terminated_def)
qed auto

lemma strncmp_front:
  assumes "terminated a" and "NUL \<notin> set s"
  shows "\<exists>r. strncmp a (s @ b) (length s) = Some r \<and> (r = 0 \<longleftrightarrow> take (length s) (cstr a) = s)"
  using assms
proof (induction s arbitrary: a)
  case (Cons x s)
  then obtain y a' where a: "a = y # a'" by (cases a) auto
  show ?case
  proof (cases "y \<noteq> x \<or> y = NUL")
    case True
    with Cons.prems a show ?thesis by auto
  next
    case False
    with Cons.prems a have "terminated a'" and "NUL \<notin> set s" by auto
    with Cons.IH False a show ?thesis by simp
  qed
qed simp

lemma terminated_split: "terminated b \<Longrightarrow> \<exists>r. b = cstr b @ NUL # r"
  by (induction b) auto

lemma src_prefix_terminated [cstr_simps]: "terminated src \<Longrightarrow> src_prefix n src = Some (take n (cstr src))"
proof -
  assume t: "terminated src"
  have "NUL \<in> set (take n src) \<or> n \<le> length src"
  proof (cases "n \<le> length src")
    case False
    then have "take n src = src" by simp
    with t show ?thesis by (simp add: terminated_def)
  qed simp
  then show ?thesis by (simp add: src_prefix_def cstr_take)
qed

lemma src_prefix_long [cstr_simps]: "n \<le> length src \<Longrightarrow> src_prefix n src = Some (take n (cstr src))"
  by (simp add: src_prefix_def cstr_take)

lemma strcpy_ok:
  assumes "terminated src" and "length (cstr src) < length dst"
  shows "\<exists>b. strcpy dst src = Some b \<and> length b = length dst \<and> cstr b = cstr src \<and> terminated b"
proof -
  let ?l = "length (cstr src)"
  have split: "take (Suc ?l) src = cstr src @ [NUL]"
    using assms(1) by (induction src) auto
  have len: "?l < length src" using assms(1) by (rule length_cstr_less)
  have "strcpy dst src = Some (cstr src @ NUL # drop (Suc ?l) dst)"
    using assms split by (simp add: strcpy_def strlen_eq)
  moreover have "length (cstr src @ NUL # drop (Suc ?l) dst) = length dst"
    using assms(2) by simp
  ultimately show ?thesis by (simp add: cstr_append_text)
qed

lemma strncpy_ok:
  assumes "terminated src \<or> n \<le> length src" and "n \<le> length dst"
  shows "strncpy dst src n =
     Some (take n (cstr src) @ replicate (n - length (cstr src)) NUL @ drop n dst)"
proof -
  have "src_prefix n src = Some (take n (cstr src))"
    using assms(1) by (auto simp: cstr_simps)
  then show ?thesis
    using assms(2) by (cases "n \<le> length (cstr src)") (simp_all add: strncpy_def)
qed

lemma strncat_mk_buf:
  assumes "NUL \<notin> set s" and "terminated src"
    and "length s + length (cstr src) < n" and "length (cstr src) \<le> m"
  shows "strncat (mk_buf n s) src m = Some (mk_buf n (s @ cstr src))"
proof -
  have "n - length s = length (cstr src) + Suc (n - Suc (length s + length (cstr src)))"
    using assms(3) by simp
  moreover have "drop (Suc (length s + length (cstr src))) (mk_buf n s) =
      replicate (n - Suc (length s + length (cstr src))) NUL"
    using assms(3) by (simp add: mk_buf_def)
  moreover have "n - (length s + length (cstr src)) =
      Suc (n - Suc (length s + length (cstr src)))"
    using assms(3) by simp
  ultimately show ?thesis
    using assms by (simp add: strncat_def cstr_simps) (simp add: mk_buf_def)
qed

lemma sprintf_ok:
  assumes "NUL \<notin> set s" and "length s < length dst"
  shows "\<exists>b. sprintf dst s = Some b \<and> length b = length dst \<and> cstr b = s \<and> terminated b"
proof -
  have "terminated (s @ [NUL])" and "cstr (s @ [NUL]) = s"
    using assms(1) by (simp_all add: cstr_append_text)
  then show ?thesis
    using strcpy_ok [of "s @ [NUL]" dst] assms(2) by (simp add: sprintf_def)
qed

lemma sprintf_replicate:
  assumes "NUL \<notin> set s" and "length s < n"
  shows "sprintf (replicate n NUL) s = Some (mk_buf n s)"
proof -
  have "n - length s = Suc (n - Suc (length s))" using assms(2) by simp
  then show ?thesis
    using assms by (simp add: sprintf_def strcpy_def cstr_simps cstr_append_text mk_buf_def)
qed

lemma strcpy_zero_buf:
  assumes "terminated src" and "length (cstr src) < n"
  shows "strcpy (replicate n NUL) src = Some (mk_buf n (cstr src))"
proof -
  have split: "take (Suc (length (cstr src))) src = cstr src @ [NUL]"
    using assms(1) by (induction src) auto
  have "n - length (cstr src) = Suc (n - Suc (length (cstr src)))" using assms(2) by simp
  then show ?thesis
    using assms split by (simp add: strcpy_def strlen_eq mk_buf_def)
qed

end
