(* ===== verification/Protocol.thy ===== *)
theory Protocol
  imports CString
begin

text \<open>
  The header both programs share, \<^verbatim>\<open>common_inc/chat_app_common.h\<close>: its constants, the
  message types, the message struct and its image as the bytes that \<^verbatim>\<open>send\<close> and
  \<^verbatim>\<open>recv\<close> move; and \<^verbatim>\<open>msgTypeToStr\<close> with its table, which the server and the
  client each define with the same text.
\<close>

section \<open>Constants\<close>

abbreviation MAX_MSG_LEN :: nat where
  "MAX_MSG_LEN \<equiv> 512"

abbreviation INVALID_FD :: c_int where
  "INVALID_FD \<equiv> - 1"

abbreviation MAX_CLIENT_NAME_LEN :: nat where
  "MAX_CLIENT_NAME_LEN \<equiv> 64"

definition SERVER_UNIQUEUE_ID :: string where
  "SERVER_UNIQUEUE_ID = ''ksdfgdhfkevhriuercwieru87354fuykhhg*((#$''"

definition UNDEF_NAME :: string where
  "UNDEF_NAME = ''NAME_NOT_DEFINED''"

definition DISCONNECT_CMD :: string where
  "DISCONNECT_CMD = ''disconnect''"

text \<open>A string literal as an array object: the text and its terminating NUL.\<close>

definition lit :: "string \<Rightarrow> char list" where
  "lit s = s @ [NUL]"

section \<open>Message types\<close>

text \<open>
  The enumerators in their order. The field \<^verbatim>\<open>msg_type\<close> of a received message is whatever
  32-bit number the peer sent, so the type has one more constructor, for the numbers from 30 on.
\<close>

datatype msg_type_t =
    MSG_CLIENT_RX_TYPE
  | MSG_CLIENT_TX_TYPE
  | MSG_CLIENT_ACK_TYPE
  | MSG_CLIENT_NACK
  | MSG_SET_NAME_REQ_TYPE
  | MSG_SET_NAME_ACK_TYPE
  | MSG_SET_NAME_NACK_TYPE
  | MSG_SERVER
  | MSG_CONN_ESTABLISH_REQ
  | MSG_CONN_ESTABLISH_ACK
  | MSG_GET_CLIENT_LIST_TYPE
  | MSG_CONNECT_TO_CLIENT
  | MSG_CONNECTION_REQ_RX
  | MSG_CLIENT_BUSY
  | MSG_CLIENT_FREE
  | MSG_CLIENT_ACCEPT_CONNECTION
  | MSG_CLIENT_DECLINE_CONNECTION
  | MSG_CLIENT_DECLINE_CONNECTION_ACK
  | MSG_CLIENT_NOT_EXIST
  | MSG_ATTEMPT_TO_CONNECT_TO_SELF
  | MSG_CLIENT_STATUS_REQ_PENDING
  | MSG_CLIENT_ACCEPT_CONNECTION_ACK
  | MSG_CLIENT_NO_MORE_FREE
  | MSG_CLIENT_NO_MORE_EXIST
  | MSG_CLIENT_TERMINATION
  | MSG_CLIENT_DISCONNECTED
  | MSG_CLIENT_CHAT_READY
  | MSG_CLIENT_CHANGE_CONN_FD_REQ
  | MSG_MAX_CLIENT_REACHED
  | MSG_TYPE_MAX
  | MSG_TYPE_OUT_OF_RANGE nat

primrec msg_type_code :: "msg_type_t \<Rightarrow> nat" where
    "msg_type_code MSG_CLIENT_RX_TYPE = 0"
  | "msg_type_code MSG_CLIENT_TX_TYPE = 1"
  | "msg_type_code MSG_CLIENT_ACK_TYPE = 2"
  | "msg_type_code MSG_CLIENT_NACK = 3"
  | "msg_type_code MSG_SET_NAME_REQ_TYPE = 4"
  | "msg_type_code MSG_SET_NAME_ACK_TYPE = 5"
  | "msg_type_code MSG_SET_NAME_NACK_TYPE = 6"
  | "msg_type_code MSG_SERVER = 7"
  | "msg_type_code MSG_CONN_ESTABLISH_REQ = 8"
  | "msg_type_code MSG_CONN_ESTABLISH_ACK = 9"
  | "msg_type_code MSG_GET_CLIENT_LIST_TYPE = 10"
  | "msg_type_code MSG_CONNECT_TO_CLIENT = 11"
  | "msg_type_code MSG_CONNECTION_REQ_RX = 12"
  | "msg_type_code MSG_CLIENT_BUSY = 13"
  | "msg_type_code MSG_CLIENT_FREE = 14"
  | "msg_type_code MSG_CLIENT_ACCEPT_CONNECTION = 15"
  | "msg_type_code MSG_CLIENT_DECLINE_CONNECTION = 16"
  | "msg_type_code MSG_CLIENT_DECLINE_CONNECTION_ACK = 17"
  | "msg_type_code MSG_CLIENT_NOT_EXIST = 18"
  | "msg_type_code MSG_ATTEMPT_TO_CONNECT_TO_SELF = 19"
  | "msg_type_code MSG_CLIENT_STATUS_REQ_PENDING = 20"
  | "msg_type_code MSG_CLIENT_ACCEPT_CONNECTION_ACK = 21"
  | "msg_type_code MSG_CLIENT_NO_MORE_FREE = 22"
  | "msg_type_code MSG_CLIENT_NO_MORE_EXIST = 23"
  | "msg_type_code MSG_CLIENT_TERMINATION = 24"
  | "msg_type_code MSG_CLIENT_DISCONNECTED = 25"
  | "msg_type_code MSG_CLIENT_CHAT_READY = 26"
  | "msg_type_code MSG_CLIENT_CHANGE_CONN_FD_REQ = 27"
  | "msg_type_code MSG_MAX_CLIENT_REACHED = 28"
  | "msg_type_code MSG_TYPE_MAX = 29"
  | "msg_type_code (MSG_TYPE_OUT_OF_RANGE n) = 30 + n"

definition msg_types :: "msg_type_t list" where
  "msg_types = [MSG_CLIENT_RX_TYPE,
     MSG_CLIENT_TX_TYPE,
     MSG_CLIENT_ACK_TYPE,
     MSG_CLIENT_NACK,
     MSG_SET_NAME_REQ_TYPE,
     MSG_SET_NAME_ACK_TYPE,
     MSG_SET_NAME_NACK_TYPE,
     MSG_SERVER,
     MSG_CONN_ESTABLISH_REQ,
     MSG_CONN_ESTABLISH_ACK,
     MSG_GET_CLIENT_LIST_TYPE,
     MSG_CONNECT_TO_CLIENT,
     MSG_CONNECTION_REQ_RX,
     MSG_CLIENT_BUSY,
     MSG_CLIENT_FREE,
     MSG_CLIENT_ACCEPT_CONNECTION,
     MSG_CLIENT_DECLINE_CONNECTION,
     MSG_CLIENT_DECLINE_CONNECTION_ACK,
     MSG_CLIENT_NOT_EXIST,
     MSG_ATTEMPT_TO_CONNECT_TO_SELF,
     MSG_CLIENT_STATUS_REQ_PENDING,
     MSG_CLIENT_ACCEPT_CONNECTION_ACK,
     MSG_CLIENT_NO_MORE_FREE,
     MSG_CLIENT_NO_MORE_EXIST,
     MSG_CLIENT_TERMINATION,
     MSG_CLIENT_DISCONNECTED,
     MSG_CLIENT_CHAT_READY,
     MSG_CLIENT_CHANGE_CONN_FD_REQ,
     MSG_MAX_CLIENT_REACHED,
     MSG_TYPE_MAX]"

definition msg_type_of_code :: "nat \<Rightarrow> msg_type_t" where
  "msg_type_of_code n = (if n < 30 then msg_types ! n else MSG_TYPE_OUT_OF_RANGE (n - 30))"

lemma msg_type_of_code_code [simp]: "msg_type_of_code (msg_type_code t) = t"
  by (cases t) (simp_all add: msg_type_of_code_def msg_types_def)

lemma msg_type_code_inject: "msg_type_code s = msg_type_code t \<longleftrightarrow> s = t"
  by (metis msg_type_of_code_code)

lemma msg_type_code_of_code [simp]: "msg_type_code (msg_type_of_code n) = n"
proof (cases "n < 30")
  case True
  have all: "list_all (\<lambda>i. msg_type_code (msg_types ! i) = i) [0..<30]"
    by code_simp
  with True have "msg_type_code (msg_types ! n) = n"
    by (simp add: list_all_iff)
  with True show ?thesis by (simp add: msg_type_of_code_def)
qed (simp add: msg_type_of_code_def)

text \<open>The comparisons of the source are comparisons of codes.\<close>

instantiation msg_type_t :: linorder
begin

definition less_eq_msg_type_t :: "msg_type_t \<Rightarrow> msg_type_t \<Rightarrow> bool" where
  "less_eq_msg_type_t s t \<longleftrightarrow> msg_type_code s \<le> msg_type_code t"

definition less_msg_type_t :: "msg_type_t \<Rightarrow> msg_type_t \<Rightarrow> bool" where
  "less_msg_type_t s t \<longleftrightarrow> msg_type_code s < msg_type_code t"

instance
  by standard (auto simp: less_eq_msg_type_t_def less_msg_type_t_def msg_type_code_inject)

end

definition msgTypeStr :: "string list" where
  "msgTypeStr =
    [''UNDEFINED_MSG_TYPE'',

     ''MSG_CLIENT_RX_TYPE'',
     ''MSG_CLIENT_TX_TYPE'',
     ''MSG_CLIENT_ACK_TYPE'',
     ''MSG_CLIENT_NACK'',
     ''MSG_SET_NAME_REQ_TYPE'',
     ''MSG_SET_NAME_ACK_TYPE'',
     ''MSG_SET_NAME_NACK_TYPE'',
     ''MSG_SERVER'',
     ''MSG_CONN_ESTABLISH_REQ'',
     ''MSG_CONN_ESTABLISH_ACK'',
     ''MSG_GET_CLIENT_LIST_TYPE'',
     ''MSG_CONNECT_TO_CLIENT'',
     ''MSG_CONNECTION_REQ_RX'',
     ''MSG_CLIENT_BUSY'',
     ''MSG_CLIENT_FREE'',
     ''MSG_CLIENT_ACCEPT_CONNECTION'',
     ''MSG_CLIENT_DECLINE_CONNECTION'',
     ''MSG_CLIENT_DECLINE_CONNECTION_ACK'',
     ''MSG_CLIENT_NOT_EXIST'',
     ''MSG_ATTEMPT_TO_CONNECT_TO_SELF'',
     ''MSG_CLIENT_STATUS_REQ_PENDING'',
     ''MSG_CLIENT_ACCEPT_CONNECTION_ACK'',
     ''MSG_CLIENT_NO_MORE_FREE'',
     ''MSG_CLIENT_NO_MORE_EXIST'',
     ''MSG_CLIENT_TERMINATION'',
     ''MSG_CLIENT_DISCONNECTED'',
     ''MSG_CLIENT_CHAT_READY'',
     ''MSG_CLIENT_CHANGE_CONN_FD_REQ'',
     ''MSG_MAX_CLIENT_REACHED'']"

definition msgTypeToStr :: "msg_type_t \<Rightarrow> string option" where
  "msgTypeToStr type =
     (if MSG_TYPE_MAX \<le> type then nth_opt msgTypeStr 0
      else nth_opt msgTypeStr (msg_type_code type + 1))"

interpretation msg_type_str: string_table msg_type_code 29 msgTypeStr msgTypeToStr
  by unfold_locales (simp_all add: msgTypeToStr_def less_eq_msg_type_t_def msgTypeStr_def)

section \<open>The message struct\<close>

record msg_data_t =
  buffer :: "char list"

record msg_t =
  to_client_id :: u8
  msg_type :: msg_type_t
  msg_data :: msg_data_t

text \<open>\<^verbatim>\<open>msg_t m = {0}\<close>, and a zeroed message with its type and its buffer set.\<close>

definition zero_msg :: msg_t where
  "zero_msg = \<lparr>to_client_id = 0, msg_type = MSG_CLIENT_RX_TYPE,
               msg_data = \<lparr>buffer = replicate MAX_MSG_LEN NUL\<rparr>\<rparr>"

definition set_type :: "msg_type_t \<Rightarrow> msg_t \<Rightarrow> msg_t" where
  "set_type t m = m\<lparr>msg_type := t\<rparr>"

definition msg_buf :: "msg_t \<Rightarrow> char list" where
  "msg_buf m = buffer (msg_data m)"

definition set_buf :: "char list \<Rightarrow> msg_t \<Rightarrow> msg_t" where
  "set_buf b m = m\<lparr>msg_data := (msg_data m)\<lparr>buffer := b\<rparr>\<rparr>"

text \<open>What every object of the struct type satisfies.\<close>

definition wf_msg :: "msg_t \<Rightarrow> bool" where
  "wf_msg m \<longleftrightarrow> length (msg_buf m) = MAX_MSG_LEN \<and> msg_type_code (msg_type m) < 2 ^ 32"

text \<open>A message whose text ends inside its buffer, as every message of the two programs should.\<close>

definition fine_msg :: "msg_t \<Rightarrow> bool" where
  "fine_msg m \<longleftrightarrow> wf_msg m \<and> terminated (msg_buf m)"

text \<open>The message of type \<open>t\<close> that carries the text \<open>s\<close> and is zero elsewhere.\<close>

definition text_msg :: "msg_type_t \<Rightarrow> string \<Rightarrow> msg_t" where
  "text_msg t s = set_buf (mk_buf MAX_MSG_LEN s) (set_type t zero_msg)"

lemma msg_buf_simps [simp]:
  "msg_buf (set_buf b m) = b" "msg_buf (set_type t m) = msg_buf m"
  "msg_buf zero_msg = replicate MAX_MSG_LEN NUL"
  "msg_type (set_type t m) = t" "msg_type (set_buf b m) = msg_type m"
  "to_client_id (set_type t m) = to_client_id m" "to_client_id (set_buf b m) = to_client_id m"
  by (simp_all add: msg_buf_def set_buf_def set_type_def zero_msg_def)

lemma set_simps [simp]:
  "set_type t (set_type u m) = set_type t m"
  "set_buf b (set_buf c m) = set_buf b m"
  "set_type t (set_buf b m) = set_buf b (set_type t m)"
  by (simp_all add: set_buf_def set_type_def)

lemma set_buf_zero [simp]: "set_buf (replicate MAX_MSG_LEN NUL) zero_msg = zero_msg"
  by (simp add: set_buf_def zero_msg_def)

lemma set_buf_same: "b = msg_buf m \<Longrightarrow> set_buf b m = m"
  by (simp add: set_buf_def msg_buf_def)

lemma set_type_zero_text: "set_type t zero_msg = text_msg t []"
proof -
  have "mk_buf MAX_MSG_LEN [] = msg_buf (set_type t zero_msg)" by (simp add: mk_buf_def)
  then show ?thesis by (simp add: text_msg_def set_buf_same)
qed

lemma msg_type_text_msg [simp]: "msg_type (text_msg t s) = t"
  by (simp add: text_msg_def)

lemma msg_buf_text_msg [simp]: "msg_buf (text_msg t s) = mk_buf MAX_MSG_LEN s"
  by (simp add: text_msg_def)

lemma fine_text_msg: "length s < MAX_MSG_LEN \<Longrightarrow> msg_type_code t < 2 ^ 32 \<Longrightarrow> fine_msg (text_msg t s)"
  by (simp add: fine_msg_def wf_msg_def)

lemma fine_set_type: "fine_msg m \<Longrightarrow> msg_type_code t < 2 ^ 32 \<Longrightarrow> fine_msg (set_type t m)"
  by (simp add: fine_msg_def wf_msg_def)

section \<open>The bytes on the wire\<close>

text \<open>
  \<^verbatim>\<open>send\<close> and \<^verbatim>\<open>recv\<close> move the struct as it lies in memory: on the platform the
  makefiles build for (Linux, gcc) one byte \<^verbatim>\<open>to_client_id\<close>, three bytes of padding, the
  enum as four bytes in little-endian order, and the buffer; \<^verbatim>\<open>sizeof(msg_t)\<close> is 520.
\<close>

definition sizeof_msg :: nat where
  "sizeof_msg = 520"

definition le32 :: "nat \<Rightarrow> char list" where
  "le32 n = [char_of (n mod 256), char_of (n div 256 mod 256),
             char_of (n div 65536 mod 256), char_of (n div 16777216 mod 256)]"

definition un_le32 :: "char list \<Rightarrow> nat" where
  "un_le32 bs = of_char (bs ! 0) + 256 * of_char (bs ! 1)
     + 65536 * of_char (bs ! 2) + 16777216 * of_char (bs ! 3)"

definition encode_msg :: "msg_t \<Rightarrow> char list" where
  "encode_msg m = char_of (unat (to_client_id m)) # replicate 3 NUL
     @ le32 (msg_type_code (msg_type m)) @ msg_buf m"

definition decode_msg :: "char list \<Rightarrow> msg_t" where
  "decode_msg bs = \<lparr>to_client_id = of_nat (of_char (bs ! 0)),
                    msg_type = msg_type_of_code (un_le32 (take 4 (drop 4 bs))),
                    msg_data = \<lparr>buffer = take MAX_MSG_LEN (drop 8 bs)\<rparr>\<rparr>"

text \<open>
  A \<^verbatim>\<open>recv\<close> of \<open>bs\<close> into a struct overwrites its first bytes and leaves the rest: fewer
  than \<^verbatim>\<open>sizeof(msg_t)\<close> bytes may arrive. \<open>recv_result\<close> is its answer: a positive number
  of bytes, zero, or an error.
\<close>

datatype recv_result = Recv_Bytes "char list" | Recv_Eof | Recv_Error

definition recv_into :: "msg_t \<Rightarrow> char list \<Rightarrow> msg_t" where
  "recv_into m bs = decode_msg (take sizeof_msg (bs @ drop (length bs) (encode_msg m)))"

lemma length_encode_msg: "wf_msg m \<Longrightarrow> length (encode_msg m) = sizeof_msg"
  by (simp add: encode_msg_def sizeof_msg_def le32_def wf_msg_def)

lemma un_le32_le32: "n < 2 ^ 32 \<Longrightarrow> un_le32 (le32 n) = n"
proof -
  assume "n < 2 ^ 32"
  then have top: "n div 16777216 mod 256 = n div 16777216"
    by (simp add: div_less_iff_less_mult)
  have d2: "n div 65536 = n div 256 div 256" and d3: "n div 16777216 = n div 256 div 256 div 256"
    by (simp_all add: div_mult2_eq [symmetric])
  have e1: "n = 256 * (n div 256) + n mod 256"
    and e2: "n div 256 = 256 * (n div 65536) + n div 256 mod 256"
    and e3: "n div 65536 = 256 * (n div 16777216) + n div 65536 mod 256"
    unfolding d2 d3 by simp_all
  have "un_le32 (le32 n) = n mod 256 + 256 * (n div 256 mod 256) + 65536 * (n div 65536 mod 256)
      + 16777216 * (n div 16777216)"
    by (simp add: un_le32_def le32_def top)
  also have "\<dots> = n" using e1 e2 e3 by linarith
  finally show ?thesis .
qed

lemma un_le32_less: "un_le32 bs < 2 ^ 32"
proof -
  have b: "of_char c \<le> (255::nat)" for c
    using nat_of_char_less_256 [of c] by linarith
  have "un_le32 bs \<le> 255 + 256 * 255 + 65536 * 255 + 16777216 * 255"
    unfolding un_le32_def by (intro add_mono mult_le_mono2 b)
  then show ?thesis by simp
qed

lemma decode_encode_msg: "wf_msg m \<Longrightarrow> decode_msg (encode_msg m) = m"
proof -
  assume w: "wf_msg m"
  have id: "of_nat (of_char (char_of (unat (to_client_id m)) :: char)) = to_client_id m"
  proof -
    have "unat (to_client_id m) < 256" using unsigned_less [of "to_client_id m"] by simp
    then have "of_char (char_of (unat (to_client_id m)) :: char) = unat (to_client_id m)"
      by simp
    then show ?thesis by simp
  qed
  have t: "take 4 (drop 4 (encode_msg m)) = le32 (msg_type_code (msg_type m))"
    and d: "take MAX_MSG_LEN (drop 8 (encode_msg m)) = msg_buf m"
    using w by (simp_all add: encode_msg_def le32_def wf_msg_def)
  have "msg_type_of_code (un_le32 (le32 (msg_type_code (msg_type m)))) = msg_type m"
    using w by (simp add: un_le32_le32 wf_msg_def)
  then show ?thesis
    using id t d by (simp add: decode_msg_def) (simp add: encode_msg_def msg_buf_def)
qed

lemma recv_into_full: "wf_msg m \<Longrightarrow> recv_into m0 (encode_msg m) = m"
  by (simp add: recv_into_def length_encode_msg decode_encode_msg)

lemma recv_fine: "fine_msg m \<Longrightarrow> recv_into m0 (encode_msg m) = m"
  by (simp add: fine_msg_def recv_into_full)

lemma recv_into_none: "wf_msg m \<Longrightarrow> recv_into m [] = m"
  by (simp add: recv_into_def length_encode_msg decode_encode_msg)

lemma wf_recv_into: "wf_msg m \<Longrightarrow> length bs \<le> sizeof_msg \<Longrightarrow> wf_msg (recv_into m bs)"
  using length_encode_msg [of m] un_le32_less
  by (simp add: recv_into_def decode_msg_def wf_msg_def msg_buf_def sizeof_msg_def)

lemma wf_zero_msg [simp]: "wf_msg zero_msg"
  by (simp add: wf_msg_def) (simp add: zero_msg_def)

lemma fine_zero_msg [simp]: "fine_msg zero_msg"
  by (simp add: fine_msg_def)

end
