(* ===== verification/Client_Queue.thy ===== *)
theory Client_Queue
  imports Protocol
begin

text \<open>
  \<^verbatim>\<open>server/lib_src/server_queue.c\<close> and its header: the list of connected clients, the
  only data the server's threads share. A node is the struct \<^verbatim>\<open>client_data_t\<close> with the
  address \<^verbatim>\<open>malloc\<close> gave it; the list of nodes is in the order of the
  \<^verbatim>\<open>next\<close> pointers (theory \<open>Queue_Heap\<close> has the pointers themselves). The logging calls
  are left out.
\<close>

section \<open>Enumerations\<close>

datatype srv_queue_err_type_t =
    SERVER_QUEUE_SUCC
  | ERR_NULL_PTR
  | ERR_MALLOC_FAILED
  | ERR_LIST_EMPTY
  | ERR_SERVER_QUEUE_FULL
  | ERR_INVALID_ID
  | ERR_NODE_NOT_FOUND
  | ERR_NO_CLIENT_ID_FREE
  | ERR_NAME_NOT_SET
  | ERR_QUEUE_MAX

primrec srv_queue_err_code :: "srv_queue_err_type_t \<Rightarrow> nat" where
    "srv_queue_err_code SERVER_QUEUE_SUCC = 0"
  | "srv_queue_err_code ERR_NULL_PTR = 1"
  | "srv_queue_err_code ERR_MALLOC_FAILED = 2"
  | "srv_queue_err_code ERR_LIST_EMPTY = 3"
  | "srv_queue_err_code ERR_SERVER_QUEUE_FULL = 4"
  | "srv_queue_err_code ERR_INVALID_ID = 5"
  | "srv_queue_err_code ERR_NODE_NOT_FOUND = 6"
  | "srv_queue_err_code ERR_NO_CLIENT_ID_FREE = 7"
  | "srv_queue_err_code ERR_NAME_NOT_SET = 8"
  | "srv_queue_err_code ERR_QUEUE_MAX = 9"

datatype client_chat_status_t =
    CHAT_STATUS_FREE
  | CHAT_STATUS_BUSY
  | CHAT_STATUS_CLIENT_NOT_FOUND
  | CHAT_STATUS_REQ_PENDING
  | CHAT_STATUS_MAX

primrec chat_status_code :: "client_chat_status_t \<Rightarrow> nat" where
    "chat_status_code CHAT_STATUS_FREE = 0"
  | "chat_status_code CHAT_STATUS_BUSY = 1"
  | "chat_status_code CHAT_STATUS_CLIENT_NOT_FOUND = 2"
  | "chat_status_code CHAT_STATUS_REQ_PENDING = 3"
  | "chat_status_code CHAT_STATUS_MAX = 4"

datatype chat_err_t =
    CHAT_SUCCESS
  | ERR_CHAT_CLIENT_NOT_FOUND
  | ERR_CHAT_INVALID_CHAT_STATUS
  | ERR_CHAT_NULL_PTR

datatype name_find_type_t = NAME_EXISTS | NAME_NOT_EXIST | NAME_FIND_ERR

instantiation srv_queue_err_type_t :: linorder
begin

definition less_eq_srv_queue_err_type_t :: "srv_queue_err_type_t \<Rightarrow> srv_queue_err_type_t \<Rightarrow> bool" where
  "less_eq_srv_queue_err_type_t s t \<longleftrightarrow> srv_queue_err_code s \<le> srv_queue_err_code t"

definition less_srv_queue_err_type_t :: "srv_queue_err_type_t \<Rightarrow> srv_queue_err_type_t \<Rightarrow> bool" where
  "less_srv_queue_err_type_t s t \<longleftrightarrow> srv_queue_err_code s < srv_queue_err_code t"

instance
proof
  fix s t :: srv_queue_err_type_t
  show "s \<le> t \<Longrightarrow> t \<le> s \<Longrightarrow> s = t"
    by (cases s; cases t) (simp_all add: less_eq_srv_queue_err_type_t_def)
qed (auto simp: less_eq_srv_queue_err_type_t_def less_srv_queue_err_type_t_def)

end

instantiation client_chat_status_t :: linorder
begin

definition less_eq_client_chat_status_t :: "client_chat_status_t \<Rightarrow> client_chat_status_t \<Rightarrow> bool" where
  "less_eq_client_chat_status_t s t \<longleftrightarrow> chat_status_code s \<le> chat_status_code t"

definition less_client_chat_status_t :: "client_chat_status_t \<Rightarrow> client_chat_status_t \<Rightarrow> bool" where
  "less_client_chat_status_t s t \<longleftrightarrow> chat_status_code s < chat_status_code t"

instance
proof
  fix s t :: client_chat_status_t
  show "s \<le> t \<Longrightarrow> t \<le> s \<Longrightarrow> s = t"
    by (cases s; cases t) (simp_all add: less_eq_client_chat_status_t_def)
qed (auto simp: less_eq_client_chat_status_t_def less_client_chat_status_t_def)

end

text \<open>The two string tables of the file.\<close>

definition queueErrStr :: "string list" where
  "queueErrStr = [''UNDEFINED_QUEUE_ERR'', ''SERVER_QUEUE_SUCC'', ''ERR_NULL_PTR'',
     ''ERR_MALLOC_FAILED'', ''ERR_LIST_EMPTY'', ''ERR_SERVER_QUEUE_FULL'', ''ERR_INVALID_ID'',
     ''ERR_NODE_NOT_FOUND'', ''ERR_NO_CLIENT_ID_FREE'', ''ERR_NAME_NOT_SET'']"

definition chat_status_str :: "string list" where
  "chat_status_str = [''INVALID_CHAT_STATUS'', ''CHAT_STATUS_FREE'', ''CHAT_STATUS_BUSY'',
     ''CHAT_STATUS_CLIENT_NOT_FOUND'', ''CHAT_STATUS_REQ_PENDING'']"

definition queueErrToStr :: "srv_queue_err_type_t \<Rightarrow> string option" where
  "queueErrToStr err =
     (if ERR_QUEUE_MAX \<le> err then nth_opt queueErrStr 0
      else nth_opt queueErrStr (srv_queue_err_code err + 1))"

definition chat_status_to_str :: "client_chat_status_t \<Rightarrow> string option" where
  "chat_status_to_str c =
     (if CHAT_STATUS_MAX \<le> c then nth_opt chat_status_str 0
      else nth_opt chat_status_str (chat_status_code c + 1))"

interpretation queue_err_str: string_table srv_queue_err_code 9 queueErrStr queueErrToStr
  by unfold_locales
    (simp_all add: queueErrToStr_def less_eq_srv_queue_err_type_t_def queueErrStr_def)

interpretation chat_status_strs: string_table chat_status_code 4 chat_status_str chat_status_to_str
  by unfold_locales
    (simp_all add: chat_status_to_str_def less_eq_client_chat_status_t_def chat_status_str_def)

section \<open>The client list\<close>

abbreviation MAX_CLIENT :: u8 where
  "MAX_CLIENT \<equiv> 20"

record client_data_t =
  cl_chat_status :: client_chat_status_t
  cl_fd :: c_int
  cl_to_fd :: c_int
  cl_thread_id :: tid
  cl_name :: "char list"

record client_node_t = client_data_t +
  node_addr :: addr

text \<open>
  The globals \<^verbatim>\<open>client_list\<close> and \<^verbatim>\<open>total_available_clients\<close>, and a record of the
  calls of the operations to \<^verbatim>\<open>close\<close>, \<^verbatim>\<open>pthread_detach\<close> and
  \<^verbatim>\<open>free\<close>, in their order.
\<close>

record client_queue =
  client_list :: "client_node_t list"
  total_available_clients :: u8
  closed_fds :: "c_int list"
  detached_threads :: "tid list"
  freed_nodes :: "addr list"

definition init_queue :: client_queue where
  "init_queue = \<lparr>client_list = [], total_available_clients = 0,
                 closed_fds = [], detached_threads = [], freed_nodes = []\<rparr>"

text \<open>The loops that look a node up, by its descriptor and by its name.\<close>

definition node_by_fd :: "c_int \<Rightarrow> client_node_t list \<Rightarrow> client_node_t option" where
  "node_by_fd f ns = find (\<lambda>n. cl_fd n = f) ns"

primrec node_by_name :: "char list \<Rightarrow> client_node_t list \<Rightarrow> client_node_t option option" where
  "node_by_name nm [] = Some None"
| "node_by_name nm (n # ns) =
     (case strcmp nm (cl_name n) of
        None \<Rightarrow> None
      | Some r \<Rightarrow> if r \<noteq> 0 then node_by_name nm ns else Some (Some n))"

section \<open>The operations\<close>

definition default_name :: "c_int \<Rightarrow> string" where
  "default_name f = ''temp_client_name_'' @ dec_of_int (sint f)"

text \<open>
  \<open>m\<close> is what \<^verbatim>\<open>malloc\<close> returns, \<open>self\<close> what \<^verbatim>\<open>pthread_self\<close> returns. The
  array \<^verbatim>\<open>name\<close> is zeroed before \<^verbatim>\<open>sprintf\<close> writes to it.
\<close>

definition add_client_node_to_queue ::
  "addr option \<Rightarrow> tid \<Rightarrow> c_int option \<Rightarrow> client_queue \<Rightarrow>
     (srv_queue_err_type_t \<times> client_queue) option" where
  "add_client_node_to_queue m self fdp q =
     (case fdp of
        None \<Rightarrow> Some (ERR_NULL_PTR, q)
      | Some f \<Rightarrow>
          if MAX_CLIENT \<le> total_available_clients q then Some (ERR_SERVER_QUEUE_FULL, q)
          else
            (case m of
               None \<Rightarrow> Some (ERR_MALLOC_FAILED, q)
             | Some a \<Rightarrow>
                 (case sprintf (replicate MAX_CLIENT_NAME_LEN NUL) (default_name f) of
                    None \<Rightarrow> None
                  | Some nm \<Rightarrow>
                      (let new_node = \<lparr>cl_chat_status = CHAT_STATUS_FREE, cl_fd = f,
                                       cl_to_fd = INVALID_FD, cl_thread_id = self,
                                       cl_name = nm, node_addr = a\<rparr>
                       in Some (SERVER_QUEUE_SUCC,
                            q\<lparr>client_list := client_list q @ [new_node],
                              total_available_clients := total_available_clients q + 1\<rparr>)))))"

text \<open>The effects of removing a node that has been unlinked.\<close>

definition release_node :: "client_node_t \<Rightarrow> client_queue \<Rightarrow> client_queue" where
  "release_node n q = q\<lparr>closed_fds := closed_fds q @ [cl_fd n],
                        detached_threads := detached_threads q @ [cl_thread_id n],
                        freed_nodes := freed_nodes q @ [node_addr n],
                        total_available_clients := total_available_clients q - 1\<rparr>"

text \<open>The loop over \<^verbatim>\<open>prev\<close> and \<^verbatim>\<open>curr\<close>: the node found and the list without it.\<close>

primrec unlink_after ::
  "client_node_t \<Rightarrow> c_int \<Rightarrow> client_node_t list \<Rightarrow> (client_node_t \<times> client_node_t list) option" where
  "unlink_after prev f [] = None"
| "unlink_after prev f (cur # ns) =
     (if cl_fd cur = f then Some (cur, prev # ns)
      else map_option (\<lambda>(n, rest). (n, prev # rest)) (unlink_after cur f ns))"

definition remove_client_node_from_queue_by_fd ::
  "c_int \<Rightarrow> client_queue \<Rightarrow> srv_queue_err_type_t \<times> client_queue" where
  "remove_client_node_from_queue_by_fd f q =
     (case client_list q of
        [] \<Rightarrow> (ERR_LIST_EMPTY, q)
      | hd_node # ns \<Rightarrow>
          if INVALID_FD = f then (ERR_NODE_NOT_FOUND, q)
          else if cl_fd hd_node = f then
            (SERVER_QUEUE_SUCC, release_node hd_node (q\<lparr>client_list := ns\<rparr>))
          else
            (case unlink_after hd_node f ns of
               None \<Rightarrow> (ERR_NODE_NOT_FOUND, q)
             | Some (cur, rest) \<Rightarrow>
                 (SERVER_QUEUE_SUCC, release_node cur (q\<lparr>client_list := rest\<rparr>))))"

text \<open>A write to a field of the first node with the descriptor.\<close>

definition write_node ::
  "c_int \<Rightarrow> (client_node_t \<Rightarrow> client_node_t) \<Rightarrow> client_queue \<Rightarrow> client_queue" where
  "write_node f g q = q\<lparr>client_list := upd_first (\<lambda>n. cl_fd n = f) g (client_list q)\<rparr>"

definition set_name_of_client_by_client_fd ::
  "c_int \<Rightarrow> char list option \<Rightarrow> client_queue \<Rightarrow> (srv_queue_err_type_t \<times> client_queue) option" where
  "set_name_of_client_by_client_fd f namep q =
     (if client_list q = [] then Some (ERR_LIST_EMPTY, q)
      else
        (case namep of
           None \<Rightarrow> Some (ERR_NULL_PTR, q)
         | Some nm \<Rightarrow>
             if INVALID_FD = f then Some (ERR_NAME_NOT_SET, q)
             else
               (case node_by_fd f (client_list q) of
                  None \<Rightarrow> Some (ERR_NAME_NOT_SET, q)
                | Some n \<Rightarrow>
                    (case strncpy (cl_name n) nm (MAX_CLIENT_NAME_LEN - 1) of
                       None \<Rightarrow> None
                     | Some b \<Rightarrow>
                         (case store_byte b (MAX_CLIENT_NAME_LEN - 1) NUL of
                            None \<Rightarrow> None
                          | Some b' \<Rightarrow>
                              Some (SERVER_QUEUE_SUCC, write_node f (\<lambda>n. n\<lparr>cl_name := b'\<rparr>) q))))))"

text \<open>
  \<^verbatim>\<open>get_client_name_by_fd\<close> returns a pointer: to a string literal, or to the array inside a
  node, which dangles once the node is freed.
\<close>

datatype name_ptr = Undef_Literal | Node_Name addr

definition get_client_name_by_fd :: "c_int \<Rightarrow> client_queue \<Rightarrow> name_ptr" where
  "get_client_name_by_fd sock q =
     (if client_list q = [] then Undef_Literal
      else if INVALID_FD = sock then Undef_Literal
      else
        (case node_by_fd sock (client_list q) of
           None \<Rightarrow> Undef_Literal
         | Some n \<Rightarrow> Node_Name (node_addr n)))"

definition read_name :: "client_queue \<Rightarrow> name_ptr \<Rightarrow> char list option" where
  "read_name q p =
     (case p of
        Undef_Literal \<Rightarrow> Some (lit UNDEF_NAME)
      | Node_Name a \<Rightarrow> map_option cl_name (find (\<lambda>n. node_addr n = a) (client_list q)))"

definition get_client_fd_by_name :: "char list option \<Rightarrow> client_queue \<Rightarrow> c_int option" where
  "get_client_fd_by_name namep q =
     (if client_list q = [] then Some INVALID_FD
      else
        (case namep of
           None \<Rightarrow> Some INVALID_FD
         | Some nm \<Rightarrow>
             (case node_by_name nm (client_list q) of
                None \<Rightarrow> None
              | Some None \<Rightarrow> Some INVALID_FD
              | Some (Some n) \<Rightarrow> Some (cl_fd n))))"

text \<open>The loop of \<^verbatim>\<open>get_client_list\<close>: the buffer, \<^verbatim>\<open>list_len\<close> and the nodes to go.\<close>

primrec append_names :: "char list \<Rightarrow> nat \<Rightarrow> client_node_t list \<Rightarrow> char list option" where
  "append_names l list_len [] = Some l"
| "append_names l list_len (n # ns) =
     (case strlen (cl_name n) of
        None \<Rightarrow> None
      | Some name_len \<Rightarrow>
          if MAX_MSG_LEN \<le> list_len + name_len + 1 then Some l
          else
            (case strncat l (cl_name n) (MAX_MSG_LEN - list_len - 1) of
               None \<Rightarrow> None
             | Some l1 \<Rightarrow>
                 (case strlen l1 of
                    None \<Rightarrow> None
                  | Some len1 \<Rightarrow>
                      if len1 + 1 < MAX_MSG_LEN then
                        (case strncat l1 (lit '' '') (MAX_MSG_LEN - len1 - 1) of
                           None \<Rightarrow> None
                         | Some l2 \<Rightarrow> append_names l2 (len1 + 1) ns)
                      else append_names l1 len1 ns)))"

definition get_client_list ::
  "char list option \<Rightarrow> client_queue \<Rightarrow> (srv_queue_err_type_t \<times> char list option) option" where
  "get_client_list listp q =
     (if client_list q = [] then Some (ERR_LIST_EMPTY, listp)
      else
        (case listp of
           None \<Rightarrow> Some (ERR_NULL_PTR, None)
         | Some l \<Rightarrow>
             (case append_names l 0 (client_list q) of
                None \<Rightarrow> None
              | Some l' \<Rightarrow> Some (SERVER_QUEUE_SUCC, Some l'))))"

definition check_client_with_same_name_exist_or_not ::
  "char list option \<Rightarrow> client_queue \<Rightarrow> name_find_type_t option" where
  "check_client_with_same_name_exist_or_not namep q =
     (case namep of
        None \<Rightarrow> Some NAME_FIND_ERR
      | Some nm \<Rightarrow>
          if client_list q = [] then Some NAME_FIND_ERR
          else
            (case node_by_name nm (client_list q) of
               None \<Rightarrow> None
             | Some None \<Rightarrow> Some NAME_NOT_EXIST
             | Some (Some n) \<Rightarrow> Some NAME_EXISTS))"

definition free_all_client_nodes :: "client_queue \<Rightarrow> client_queue" where
  "free_all_client_nodes q =
     q\<lparr>client_list := [], freed_nodes := freed_nodes q @ map node_addr (client_list q)\<rparr>"

text \<open>The threads that \<^verbatim>\<open>join_all_client_threads\<close> waits for, in its order.\<close>

definition join_all_client_threads :: "client_queue \<Rightarrow> tid list" where
  "join_all_client_threads q = map cl_thread_id (client_list q)"

definition get_client_chatting_status_by_name ::
  "char list option \<Rightarrow> client_queue \<Rightarrow> client_chat_status_t option" where
  "get_client_chatting_status_by_name namep q =
     (case namep of
        None \<Rightarrow> Some CHAT_STATUS_CLIENT_NOT_FOUND
      | Some nm \<Rightarrow>
          (case node_by_name nm (client_list q) of
             None \<Rightarrow> None
           | Some None \<Rightarrow> Some CHAT_STATUS_CLIENT_NOT_FOUND
           | Some (Some n) \<Rightarrow> Some (cl_chat_status n)))"

definition get_client_chatting_status_by_fd :: "c_int \<Rightarrow> client_queue \<Rightarrow> client_chat_status_t" where
  "get_client_chatting_status_by_fd f q =
     (if INVALID_FD = f then CHAT_STATUS_CLIENT_NOT_FOUND
      else
        (case node_by_fd f (client_list q) of
           None \<Rightarrow> CHAT_STATUS_CLIENT_NOT_FOUND
         | Some n \<Rightarrow> cl_chat_status n))"

definition set_client_chatting_status_by_fd ::
  "c_int \<Rightarrow> client_chat_status_t \<Rightarrow> client_queue \<Rightarrow> chat_err_t \<times> client_queue" where
  "set_client_chatting_status_by_fd f c q =
     (if CHAT_STATUS_MAX \<le> c then (ERR_CHAT_INVALID_CHAT_STATUS, q)
      else if INVALID_FD = f then (ERR_CHAT_CLIENT_NOT_FOUND, q)
      else
        (case node_by_fd f (client_list q) of
           None \<Rightarrow> (ERR_CHAT_CLIENT_NOT_FOUND, q)
         | Some n \<Rightarrow> (CHAT_SUCCESS, write_node f (\<lambda>n. n\<lparr>cl_chat_status := c\<rparr>) q)))"

definition set_to_fd_by_fd :: "c_int \<Rightarrow> c_int \<Rightarrow> client_queue \<Rightarrow> chat_err_t \<times> client_queue" where
  "set_to_fd_by_fd my_fd to_f q =
     (if INVALID_FD = my_fd then (ERR_CHAT_CLIENT_NOT_FOUND, q)
      else
        (case node_by_fd my_fd (client_list q) of
           None \<Rightarrow> (ERR_CHAT_CLIENT_NOT_FOUND, q)
         | Some n \<Rightarrow> (CHAT_SUCCESS, write_node my_fd (\<lambda>n. n\<lparr>cl_to_fd := to_f\<rparr>) q)))"

definition get_conn_fd_by_fd :: "c_int \<Rightarrow> client_queue \<Rightarrow> c_int" where
  "get_conn_fd_by_fd my_fd q =
     (if INVALID_FD = my_fd then INVALID_FD
      else
        (case node_by_fd my_fd (client_list q) of
           None \<Rightarrow> INVALID_FD
         | Some n \<Rightarrow> cl_to_fd n))"

end
