(* ===== verification/Queue_Facts.thy ===== *)
theory Queue_Facts
  imports Client_Queue
begin

text \<open>
  What makes the client list correct: the well-formedness invariant and its preservation by every
  operation, the behaviour of each operation under it, the laws of its per-descriptor fields (as
  interfaces, interpreted on the code's getters and setters), and the text that
  \<^verbatim>\<open>get_client_list\<close> builds.
\<close>

section \<open>Well-formedness\<close>

definition valid_status :: "client_chat_status_t \<Rightarrow> bool" where
  "valid_status c \<longleftrightarrow> c \<in> {CHAT_STATUS_FREE, CHAT_STATUS_BUSY, CHAT_STATUS_REQ_PENDING}"

definition wf_name :: "char list \<Rightarrow> bool" where
  "wf_name b \<longleftrightarrow> length b = MAX_CLIENT_NAME_LEN \<and> terminated b"

definition wf_node :: "client_node_t \<Rightarrow> bool" where
  "wf_node n \<longleftrightarrow> wf_name (cl_name n) \<and> valid_status (cl_chat_status n) \<and> cl_fd n \<noteq> INVALID_FD"

definition live_fds :: "client_queue \<Rightarrow> c_int set" where
  "live_fds q = cl_fd ` set (client_list q)"

definition node_addrs :: "client_queue \<Rightarrow> addr set" where
  "node_addrs q = node_addr ` set (client_list q)"

definition wf_queue :: "client_queue \<Rightarrow> bool" where
  "wf_queue q \<longleftrightarrow>
     list_all wf_node (client_list q) \<and>
     distinct (map cl_fd (client_list q)) \<and>
     distinct (map node_addr (client_list q)) \<and>
     length (client_list q) = unat (total_available_clients q) \<and>
     length (client_list q) \<le> 20"

definition ok_text :: "char list \<Rightarrow> bool" where
  "ok_text b \<longleftrightarrow> terminated b \<or> MAX_CLIENT_NAME_LEN \<le> length b"

lemma valid_status_simps [simp]:
  "valid_status CHAT_STATUS_FREE" "valid_status CHAT_STATUS_BUSY"
  "valid_status CHAT_STATUS_REQ_PENDING"
  "\<not> valid_status CHAT_STATUS_CLIENT_NOT_FOUND" "\<not> valid_status CHAT_STATUS_MAX"
  by (simp_all add: valid_status_def)

lemma valid_status_not_max: "valid_status c \<Longrightarrow> \<not> CHAT_STATUS_MAX \<le> c"
  by (auto simp: valid_status_def less_eq_client_chat_status_t_def)

lemma max_le_status [simp]:
  "\<not> CHAT_STATUS_MAX \<le> CHAT_STATUS_FREE" "\<not> CHAT_STATUS_MAX \<le> CHAT_STATUS_BUSY"
  "\<not> CHAT_STATUS_MAX \<le> CHAT_STATUS_REQ_PENDING"
  by (simp_all add: less_eq_client_chat_status_t_def)

lemma wf_init_queue: "wf_queue init_queue"
  by (simp add: wf_queue_def init_queue_def)

lemma wf_queue_node: "wf_queue q \<Longrightarrow> n \<in> set (client_list q) \<Longrightarrow> wf_node n"
  by (simp add: wf_queue_def list_all_iff)

lemma invalid_not_live: "wf_queue q \<Longrightarrow> INVALID_FD \<notin> live_fds q"
  by (auto simp: live_fds_def wf_node_def dest: wf_queue_node)

lemma live_fds_init [simp]: "live_fds init_queue = {}"
  by (simp add: live_fds_def init_queue_def)

section \<open>Lookup\<close>

lemma node_by_fd_Some: "node_by_fd f ns = Some n \<Longrightarrow> n \<in> set ns \<and> cl_fd n = f"
  unfolding node_by_fd_def by (drule find_Some_mem) simp

lemma node_by_fd_None: "node_by_fd f (client_list q) = None \<longleftrightarrow> f \<notin> live_fds q"
  by (auto simp: node_by_fd_def live_fds_def find_None_notin)

lemma node_by_fd_live: "f \<in> live_fds q \<longleftrightarrow> (\<exists>n. node_by_fd f (client_list q) = Some n)"
  using node_by_fd_None [of f q] by (cases "node_by_fd f (client_list q)") auto

lemma node_by_fd_wf:
  "wf_queue q \<Longrightarrow> node_by_fd f (client_list q) = Some n \<Longrightarrow> wf_node n \<and> cl_fd n = f"
  by (auto dest: node_by_fd_Some wf_queue_node)

text \<open>
  The name scan never reads past the end of either string: a node's name is terminated within its
  64 bytes, so \<^verbatim>\<open>strcmp\<close> stops there even on a message text that has no NUL at all.
\<close>

lemma node_by_name_eq:
  assumes "list_all wf_node ns" and "ok_text nm"
  shows "node_by_name nm ns = Some (find (\<lambda>n. cstr (cl_name n) = cstr nm) ns)"
  using assms(1)
proof (induction ns)
  case (Cons n ns)
  have "terminated (cl_name n)" and "terminated nm \<or> length (cl_name n) \<le> length nm"
    using Cons.prems assms(2) by (auto simp: wf_node_def wf_name_def ok_text_def)
  then obtain r where r: "strcmp nm (cl_name n) = Some r"
    and r0: "r = 0 \<longleftrightarrow> cstr nm = cstr (cl_name n)"
    using strcmp_total by blast
  show ?case using Cons r r0 by auto
qed simp

definition named :: "char list \<Rightarrow> client_queue \<Rightarrow> client_node_t option" where
  "named nm q = find (\<lambda>n. cstr (cl_name n) = cstr nm) (client_list q)"

lemma node_by_name_named:
  "wf_queue q \<Longrightarrow> ok_text nm \<Longrightarrow> node_by_name nm (client_list q) = Some (named nm q)"
  by (simp add: wf_queue_def node_by_name_eq named_def)

lemma named_Some: "named nm q = Some n \<Longrightarrow> n \<in> set (client_list q) \<and> cstr (cl_name n) = cstr nm"
  unfolding named_def by (drule find_Some_mem) simp

lemma get_client_fd_by_name_eq [queue_simps]:
  "wf_queue q \<Longrightarrow> ok_text nm \<Longrightarrow>
     get_client_fd_by_name (Some nm) q = Some (case named nm q of None \<Rightarrow> INVALID_FD | Some n \<Rightarrow> cl_fd n)"
  by (auto simp: get_client_fd_by_name_def node_by_name_named named_def split: option.splits)

lemma check_name_eq [queue_simps]:
  "wf_queue q \<Longrightarrow> ok_text nm \<Longrightarrow>
     check_client_with_same_name_exist_or_not (Some nm) q =
       Some (if client_list q = [] then NAME_FIND_ERR
             else case named nm q of None \<Rightarrow> NAME_NOT_EXIST | Some n \<Rightarrow> NAME_EXISTS)"
  by (auto simp: check_client_with_same_name_exist_or_not_def node_by_name_named split: option.splits)

lemma status_by_name_eq [queue_simps]:
  "wf_queue q \<Longrightarrow> ok_text nm \<Longrightarrow>
     get_client_chatting_status_by_name (Some nm) q =
       Some (case named nm q of None \<Rightarrow> CHAT_STATUS_CLIENT_NOT_FOUND | Some n \<Rightarrow> cl_chat_status n)"
  by (auto simp: get_client_chatting_status_by_name_def node_by_name_named split: option.splits)

lemma find_by_addr:
  "wf_queue q \<Longrightarrow> n \<in> set (client_list q) \<Longrightarrow>
     find (\<lambda>m. node_addr m = node_addr n) (client_list q) = Some n"
  by (rule find_key_unique) (simp_all add: wf_queue_def)

text \<open>A name pointer is good as long as its node is in the list.\<close>

lemma read_own_name [queue_simps]:
  assumes "wf_queue q" and "node_by_fd f (client_list q) = Some n"
  shows "get_client_name_by_fd f q = Node_Name (node_addr n)"
    and "read_name q (get_client_name_by_fd f q) = Some (cl_name n)"
proof -
  have n: "n \<in> set (client_list q)" "cl_fd n = f"
    using node_by_fd_Some [OF assms(2)] by simp_all
  have "f \<noteq> INVALID_FD"
    using wf_queue_node [OF assms(1) n(1)] n(2) by (auto simp: wf_node_def)
  with n show p: "get_client_name_by_fd f q = Node_Name (node_addr n)"
    using assms by (auto simp: get_client_name_by_fd_def)
  show "read_name q (get_client_name_by_fd f q) = Some (cl_name n)"
    using n find_by_addr [OF assms(1) n(1)] by (simp only: p read_name_def name_ptr.case) simp
qed

lemma read_undef_name [simp]: "read_name q Undef_Literal = Some (lit UNDEF_NAME)"
  by (simp add: read_name_def)

lemma name_of_absent: "f \<notin> live_fds q \<Longrightarrow> get_client_name_by_fd f q = Undef_Literal"
  using node_by_fd_None [of f q] by (simp add: get_client_name_by_fd_def)

section \<open>Insertion\<close>

definition new_node :: "c_int \<Rightarrow> tid \<Rightarrow> addr \<Rightarrow> client_node_t" where
  "new_node f self a = \<lparr>cl_chat_status = CHAT_STATUS_FREE, cl_fd = f, cl_to_fd = INVALID_FD,
     cl_thread_id = self, cl_name = mk_buf MAX_CLIENT_NAME_LEN (default_name f), node_addr = a\<rparr>"

text \<open>The default name of every 32-bit descriptor fits: it has at most 28 bytes.\<close>

lemma length_default_name: "length (default_name f) \<le> 28"
proof -
  have "- (2 ^ 31) \<le> sint f" and "sint f < 2 ^ 31"
    using sint_greater_eq [of f] sint_less [of f] by simp_all
  then have "length (dec_of_int (sint f)) \<le> Suc 10"
    by (intro length_dec_of_int) simp_all
  then show ?thesis by (simp add: default_name_def)
qed

lemma digit_char_not_NUL: "d < 10 \<Longrightarrow> digit_char d \<noteq> NUL"
proof
  assume "d < 10" and "digit_char d = NUL"
  then have "of_char NUL = 48 + d" by (metis of_digit_char)
  then show False by simp
qed

lemma default_name_no_NUL: "NUL \<notin> set (default_name f)"
proof -
  have d: "NUL \<notin> set (dec_digits n)" for n
    using dec_digits_chars [of NUL n] digit_char_not_NUL by metis
  then have "NUL \<notin> set (dec_of_int i)" for i
    by (simp add: dec_of_int_def)
  then show ?thesis by (simp add: default_name_def)
qed

lemma default_name_inject [simp]: "default_name f = default_name g \<longleftrightarrow> f = g"
  by (auto simp: default_name_def intro: signed_word_eqI)

lemma sprintf_default_name:
  "sprintf (replicate MAX_CLIENT_NAME_LEN NUL) (default_name f) =
     Some (mk_buf MAX_CLIENT_NAME_LEN (default_name f))"
  using length_default_name [of f] by (intro sprintf_replicate default_name_no_NUL) simp

lemma cstr_new_node [simp]: "cstr (cl_name (new_node f self a)) = default_name f"
  by (simp add: new_node_def default_name_no_NUL)

lemma new_node_simps [simp]:
  "cl_fd (new_node f self a) = f" "cl_chat_status (new_node f self a) = CHAT_STATUS_FREE"
  "cl_to_fd (new_node f self a) = INVALID_FD" "cl_thread_id (new_node f self a) = self"
  "node_addr (new_node f self a) = a"
  by (simp_all add: new_node_def)

lemma wf_new_node: "f \<noteq> INVALID_FD \<Longrightarrow> wf_node (new_node f self a)"
proof -
  assume "f \<noteq> INVALID_FD"
  moreover have "wf_name (mk_buf MAX_CLIENT_NAME_LEN (default_name f))"
    using length_default_name [of f] by (simp add: wf_name_def)
  ultimately show ?thesis by (simp add: wf_node_def) (simp add: new_node_def)
qed

lemma add_client_eq [queue_simps]:
  "add_client_node_to_queue m self (Some f) q =
     Some (if MAX_CLIENT \<le> total_available_clients q then (ERR_SERVER_QUEUE_FULL, q)
           else case m of
             None \<Rightarrow> (ERR_MALLOC_FAILED, q)
           | Some a \<Rightarrow> (SERVER_QUEUE_SUCC,
               q\<lparr>client_list := client_list q @ [new_node f self a],
                 total_available_clients := total_available_clients q + 1\<rparr>))"
  by (auto simp: add_client_node_to_queue_def sprintf_default_name new_node_def Let_def
      split: option.splits)

lemma wf_add_client:
  assumes "wf_queue q" and "f \<noteq> INVALID_FD" and "f \<notin> live_fds q"
    and "\<And>a. m = Some a \<Longrightarrow> a \<notin> node_addrs q"
    and "add_client_node_to_queue m self (Some f) q = Some (r, q')"
  shows "wf_queue q'"
proof (cases "r = SERVER_QUEUE_SUCC")
  case True
  then obtain a where m: "m = Some a" and less: "total_available_clients q < 20"
    and q': "q' = q\<lparr>client_list := client_list q @ [new_node f self a],
                  total_available_clients := total_available_clients q + 1\<rparr>"
    using assms(5) by (auto simp: add_client_eq split: if_splits option.splits)
  have "unat (total_available_clients q) < 20"
    using less by (simp add: word_less_nat_alt)
  then have "unat (total_available_clients q + 1) = Suc (unat (total_available_clients q))"
    by (simp add: unat_word_ariths)
  then show ?thesis
    using assms(1-4) less wf_new_node [OF assms(2)] m
    by (auto simp: q' wf_queue_def live_fds_def node_addrs_def word_less_nat_alt)
next
  case False
  then have "q' = q"
    using assms(5) by (auto simp: add_client_eq split: if_splits option.splits)
  with assms(1) show ?thesis by simp
qed

section \<open>Removal\<close>

lemma unlink_after_eq:
  "unlink_after prev f ns =
     (case node_by_fd f ns of
        None \<Rightarrow> None
      | Some n \<Rightarrow> Some (n, prev # remove1_by (\<lambda>n. cl_fd n = f) ns))"
  by (induction ns arbitrary: prev) (auto simp: node_by_fd_def split: option.splits)

lemma remove_eq [queue_simps]:
  "wf_queue q \<Longrightarrow> node_by_fd f (client_list q) = Some n \<Longrightarrow>
     remove_client_node_from_queue_by_fd f q =
       (SERVER_QUEUE_SUCC,
        release_node n (q\<lparr>client_list := remove1_by (\<lambda>n. cl_fd n = f) (client_list q)\<rparr>))"
  using invalid_not_live [of q] node_by_fd_live [of f q]
  by (cases "client_list q")
     (auto simp: remove_client_node_from_queue_by_fd_def unlink_after_eq node_by_fd_def
       split: option.splits if_splits)

lemma remove_empty [queue_simps]:
  "client_list q = [] \<Longrightarrow> remove_client_node_from_queue_by_fd f q = (ERR_LIST_EMPTY, q)"
  by (simp add: remove_client_node_from_queue_by_fd_def)

lemma remove_absent [queue_simps]:
  "f \<notin> live_fds q \<Longrightarrow> client_list q \<noteq> [] \<Longrightarrow>
     remove_client_node_from_queue_by_fd f q = (ERR_NODE_NOT_FOUND, q)"
  by (cases "client_list q")
     (auto simp: remove_client_node_from_queue_by_fd_def unlink_after_eq live_fds_def
       dest: node_by_fd_Some split: option.splits)

lemma snd_remove_absent: "f \<notin> live_fds q \<Longrightarrow> snd (remove_client_node_from_queue_by_fd f q) = q"
  by (cases "client_list q = []") (simp_all add: remove_empty remove_absent)

lemma unat_pred_word: "unat (w :: u8) = Suc k \<Longrightarrow> unat (w - 1) = k"
proof -
  assume u: "unat w = Suc k"
  then have "w \<noteq> 0" by (metis nat.simps(3) unat_0)
  then show ?thesis using u by (simp add: unat_minus_one)
qed

lemma wf_release_remove:
  assumes "wf_queue q" and "node_by_fd f (client_list q) = Some n"
  shows "wf_queue (release_node n (q\<lparr>client_list := remove1_by (\<lambda>n. cl_fd n = f) (client_list q)\<rparr>))"
proof -
  let ?ns = "remove1_by (\<lambda>n. cl_fd n = f) (client_list q)"
  have len: "Suc (length ?ns) = length (client_list q)"
    using assms(2) by (intro length_remove1_by) (simp add: node_by_fd_def)
  then have "unat (total_available_clients q - 1) = length ?ns"
    using assms(1) by (intro unat_pred_word) (simp add: wf_queue_def)
  then show ?thesis
    using assms(1) len
    by (simp add: wf_queue_def release_node_def list_all_remove1_by distinct_map_remove1_by)
qed

lemma wf_remove: "wf_queue q \<Longrightarrow> wf_queue (snd (remove_client_node_from_queue_by_fd f q))"
proof (cases "node_by_fd f (client_list q)")
  case None
  assume "wf_queue q"
  with None show ?thesis by (simp add: snd_remove_absent node_by_fd_None)
next
  case (Some n)
  assume "wf_queue q"
  with Some show ?thesis by (simp add: remove_eq wf_release_remove)
qed

lemma live_fds_remove:
  "wf_queue q \<Longrightarrow> live_fds (snd (remove_client_node_from_queue_by_fd f q)) = live_fds q - {f}"
proof (cases "node_by_fd f (client_list q)")
  case None
  assume "wf_queue q"
  with None show ?thesis by (simp add: snd_remove_absent node_by_fd_None)
next
  case (Some n)
  assume wf: "wf_queue q"
  have "cl_fd ` set (remove1_by (\<lambda>n. cl_fd n = f) ns) = cl_fd ` set ns - {f}"
    if "distinct (map cl_fd ns)" for ns :: "client_node_t list"
    using that by (induction ns) (auto, metis imageI)
  then show ?thesis
    using wf Some by (simp add: remove_eq live_fds_def release_node_def wf_queue_def)
qed

section \<open>The fields of a node as an interface\<close>

text \<open>
  The handlers use the list only through getters and setters keyed by a descriptor. The interface:
  a write is read back at its own descriptor, is invisible at every other, does nothing where no
  client has the descriptor, and keeps the set of clients and well-formedness.
\<close>

locale fd_field =
  fixes wf :: "'s \<Rightarrow> bool"
    and live :: "'s \<Rightarrow> c_int set"
    and get :: "c_int \<Rightarrow> 's \<Rightarrow> 'v"
    and put :: "c_int \<Rightarrow> 'v \<Rightarrow> 's \<Rightarrow> 's"
    and ok :: "'v \<Rightarrow> bool"
  assumes get_put_same: "wf q \<Longrightarrow> f \<in> live q \<Longrightarrow> ok v \<Longrightarrow> get f (put f v q) = v"
    and get_put_other: "g \<noteq> f \<Longrightarrow> get g (put f v q) = get g q"
    and put_absent: "f \<notin> live q \<Longrightarrow> put f v q = q"
    and live_put: "live (put f v q) = live q"
    and wf_put: "wf q \<Longrightarrow> ok v \<Longrightarrow> wf (put f v q)"
begin

lemma get_put:
  "wf q \<Longrightarrow> ok v \<Longrightarrow> get g (put f v q) = (if g = f \<and> f \<in> live q then v else get g q)"
  using get_put_same get_put_other put_absent by (cases "f \<in> live q") auto

lemma get_put_put:
  assumes "wf q" and "ok v" and "ok w"
  shows "get h (put g w (put f v q)) =
     (if h = g \<and> g \<in> live q then w else if h = f \<and> f \<in> live q then v else get h q)"
  using assms by (simp add: get_put live_put wf_put)

end

text \<open>Two independent fields: what the four writes of an accept or a disconnect leave behind.\<close>

locale two_fd_fields = a: fd_field wf live get1 put1 ok1 + b: fd_field wf live get2 put2 ok2
  for wf :: "'s \<Rightarrow> bool" and live
    and get1 :: "c_int \<Rightarrow> 's \<Rightarrow> 'v" and put1 and ok1
    and get2 :: "c_int \<Rightarrow> 's \<Rightarrow> 'w" and put2 and ok2 +
  assumes get1_put2: "get1 g (put2 f w q) = get1 g q"
    and get2_put1: "get2 g (put1 f v q) = get2 g q"
begin

lemmas put_simps = get1_put2 get2_put1 a.get_put b.get_put a.live_put b.live_put a.wf_put b.wf_put

lemma four_writes:
  assumes "wf q" and "ok1 v" and "ok1 v'" and "ok2 w" and "ok2 w'"
  shows
    "get1 h (put2 g w' (put2 f w (put1 g v' (put1 f v q)))) =
       (if h = g \<and> g \<in> live q then v' else if h = f \<and> f \<in> live q then v else get1 h q)"
    "get2 h (put2 g w' (put2 f w (put1 g v' (put1 f v q)))) =
       (if h = g \<and> g \<in> live q then w' else if h = f \<and> f \<in> live q then w else get2 h q)"
    "live (put2 g w' (put2 f w (put1 g v' (put1 f v q)))) = live q"
    "wf (put2 g w' (put2 f w (put1 g v' (put1 f v q))))"
  using assms by (simp_all add: put_simps)

end

abbreviation put_status :: "c_int \<Rightarrow> client_chat_status_t \<Rightarrow> client_queue \<Rightarrow> client_queue" where
  "put_status f c q \<equiv> snd (set_client_chatting_status_by_fd f c q)"

abbreviation put_to_fd :: "c_int \<Rightarrow> c_int \<Rightarrow> client_queue \<Rightarrow> client_queue" where
  "put_to_fd f t q \<equiv> snd (set_to_fd_by_fd f t q)"

lemma live_fds_write_node:
  "(\<And>n. cl_fd (g n) = cl_fd n) \<Longrightarrow> live_fds (write_node f g q) = live_fds q"
proof -
  assume g: "\<And>n. cl_fd (g n) = cl_fd n"
  then have "map cl_fd (client_list (write_node f g q)) = map cl_fd (client_list q)"
    by (simp add: write_node_def)
  then show ?thesis unfolding live_fds_def by (metis list.set_map)
qed

lemma wf_write_node:
  assumes "wf_queue q" and "\<And>n. cl_fd (g n) = cl_fd n" and "\<And>n. node_addr (g n) = node_addr n"
    and "\<And>n. wf_node n \<Longrightarrow> wf_node (g n)"
  shows "wf_queue (write_node f g q)"
  using assms by (simp add: wf_queue_def write_node_def list_all_upd_first)

lemma node_by_fd_write_node:
  assumes "\<And>n. cl_fd (g n) = cl_fd n"
  shows "node_by_fd h (client_list (write_node f g q)) =
     (if h = f then map_option g (node_by_fd f (client_list q)) else node_by_fd h (client_list q))"
  using assms by (auto simp: node_by_fd_def write_node_def find_upd_first_same find_upd_first_other)

lemma put_status_eq:
  "put_status f c q = (if CHAT_STATUS_MAX \<le> c \<or> f = INVALID_FD then q
     else write_node f (\<lambda>n. n\<lparr>cl_chat_status := c\<rparr>) q)"
proof -
  have "write_node f g q = q" if "node_by_fd f (client_list q) = None" for g
    using that by (simp add: write_node_def node_by_fd_def upd_first_not_found)
  then show ?thesis
    by (auto simp: set_client_chatting_status_by_fd_def split: option.splits)
qed

lemma put_to_fd_eq:
  "put_to_fd f t q = (if f = INVALID_FD then q else write_node f (\<lambda>n. n\<lparr>cl_to_fd := t\<rparr>) q)"
proof -
  have "write_node f g q = q" if "node_by_fd f (client_list q) = None" for g
    using that by (simp add: write_node_def node_by_fd_def upd_first_not_found)
  then show ?thesis
    by (auto simp: set_to_fd_by_fd_def split: option.splits)
qed

interpretation status: fd_field wf_queue live_fds get_client_chatting_status_by_fd put_status valid_status
proof
  fix q f g v
  show "wf_queue q \<Longrightarrow> f \<in> live_fds q \<Longrightarrow> valid_status v \<Longrightarrow>
      get_client_chatting_status_by_fd f (put_status f v q) = v"
    using invalid_not_live [of q] node_by_fd_live [of f q] valid_status_not_max [of v]
    by (auto simp: put_status_eq get_client_chatting_status_by_fd_def node_by_fd_write_node)
  show "g \<noteq> f \<Longrightarrow> get_client_chatting_status_by_fd g (put_status f v q) =
      get_client_chatting_status_by_fd g q"
    by (simp add: put_status_eq get_client_chatting_status_by_fd_def node_by_fd_write_node)
  show "f \<notin> live_fds q \<Longrightarrow> put_status f v q = q"
    by (auto simp: set_client_chatting_status_by_fd_def dest: node_by_fd_None [THEN iffD2])
  show "live_fds (put_status f v q) = live_fds q"
    by (simp add: put_status_eq live_fds_write_node)
  show "wf_queue q \<Longrightarrow> valid_status v \<Longrightarrow> wf_queue (put_status f v q)"
    by (auto simp: put_status_eq wf_node_def intro!: wf_write_node)
qed

interpretation partner: fd_field wf_queue live_fds get_conn_fd_by_fd put_to_fd "\<lambda>_. True"
proof
  fix q f g v
  show "wf_queue q \<Longrightarrow> f \<in> live_fds q \<Longrightarrow> True \<Longrightarrow> get_conn_fd_by_fd f (put_to_fd f v q) = v"
    using invalid_not_live [of q] node_by_fd_live [of f q]
    by (auto simp: put_to_fd_eq get_conn_fd_by_fd_def node_by_fd_write_node)
  show "g \<noteq> f \<Longrightarrow> get_conn_fd_by_fd g (put_to_fd f v q) = get_conn_fd_by_fd g q"
    by (simp add: put_to_fd_eq get_conn_fd_by_fd_def node_by_fd_write_node)
  show "f \<notin> live_fds q \<Longrightarrow> put_to_fd f v q = q"
    by (auto simp: set_to_fd_by_fd_def dest: node_by_fd_None [THEN iffD2])
  show "live_fds (put_to_fd f v q) = live_fds q"
    by (simp add: put_to_fd_eq live_fds_write_node)
  show "wf_queue q \<Longrightarrow> True \<Longrightarrow> wf_queue (put_to_fd f v q)"
    by (auto simp: put_to_fd_eq wf_node_def intro!: wf_write_node)
qed

interpretation chat: two_fd_fields wf_queue live_fds
  get_client_chatting_status_by_fd put_status valid_status
  get_conn_fd_by_fd put_to_fd "\<lambda>_. True"
proof
  fix q f g w v
  show "get_client_chatting_status_by_fd g (put_to_fd f w q) = get_client_chatting_status_by_fd g q"
    by (auto simp: put_to_fd_eq get_client_chatting_status_by_fd_def node_by_fd_write_node
        split: option.splits)
  show "get_conn_fd_by_fd g (put_status f v q) = get_conn_fd_by_fd g q"
    by (auto simp: put_status_eq get_conn_fd_by_fd_def node_by_fd_write_node split: option.splits)
qed

lemma status_not_live [simp]:
  "f \<notin> live_fds q \<Longrightarrow> get_client_chatting_status_by_fd f q = CHAT_STATUS_CLIENT_NOT_FOUND"
  by (auto simp: get_client_chatting_status_by_fd_def dest: node_by_fd_None [THEN iffD2])

lemma conn_fd_not_live [simp]: "f \<notin> live_fds q \<Longrightarrow> get_conn_fd_by_fd f q = INVALID_FD"
  by (auto simp: get_conn_fd_by_fd_def dest: node_by_fd_None [THEN iffD2])

lemma status_live:
  "wf_queue q \<Longrightarrow> f \<in> live_fds q \<Longrightarrow> valid_status (get_client_chatting_status_by_fd f q)"
  using node_by_fd_live [of f q] node_by_fd_wf [of q f]
  by (auto simp: get_client_chatting_status_by_fd_def wf_node_def)

section \<open>Names are a third, independent field\<close>

definition name_of :: "c_int \<Rightarrow> client_queue \<Rightarrow> string option" where
  "name_of f q = map_option (\<lambda>n. cstr (cl_name n)) (node_by_fd f (client_list q))"

lemma map_addr_name_write:
  "(\<And>n. cl_name (g n) = cl_name n) \<Longrightarrow> (\<And>n. node_addr (g n) = node_addr n) \<Longrightarrow>
     read_name (write_node f g q) p = read_name q p"
proof -
  assume g: "\<And>n. cl_name (g n) = cl_name n" "\<And>n. node_addr (g n) = node_addr n"
  have "map_option cl_name (find (\<lambda>n. node_addr n = a) (upd_first P g ns)) =
      map_option cl_name (find (\<lambda>n. node_addr n = a) ns)" for a P ns
    using g by (induction ns) auto
  then show ?thesis
    by (cases p) (simp_all add: read_name_def write_node_def)
qed

lemma read_name_put [simp]:
  "read_name (put_status f c q) p = read_name q p" "read_name (put_to_fd f t q) p = read_name q p"
  by (simp_all add: put_status_eq put_to_fd_eq map_addr_name_write)

lemma get_name_write_node:
  "(\<And>n. cl_fd (g n) = cl_fd n) \<Longrightarrow> (\<And>n. node_addr (g n) = node_addr n) \<Longrightarrow>
     get_client_name_by_fd h (write_node f g q) = get_client_name_by_fd h q"
  by (auto simp: get_client_name_by_fd_def node_by_fd_write_node split: option.splits)
     (simp_all add: write_node_def)

lemma get_name_put [simp]:
  "get_client_name_by_fd h (put_status f c q) = get_client_name_by_fd h q"
  "get_client_name_by_fd h (put_to_fd f t q) = get_client_name_by_fd h q"
  by (simp_all add: put_status_eq put_to_fd_eq get_name_write_node)

lemma name_of_put [simp]:
  "name_of h (put_status f c q) = name_of h q" "name_of h (put_to_fd f t q) = name_of h q"
  by (simp_all add: name_of_def put_status_eq put_to_fd_eq node_by_fd_write_node option.map_comp
      comp_def)

lemma name_of_live: "f \<in> live_fds q \<Longrightarrow> \<exists>s. name_of f q = Some s"
  using node_by_fd_live [of f q] by (auto simp: name_of_def)

lemma name_of_Some_live: "name_of f q = Some s \<Longrightarrow> f \<in> live_fds q"
  using node_by_fd_live [of f q] by (auto simp: name_of_def)

text \<open>Reading through the pointer of a connected client gives its name, of at most 63 bytes.\<close>

lemma read_live_name:
  assumes "wf_queue q" and "name_of f q = Some s"
  shows "\<exists>b. read_name q (get_client_name_by_fd f q) = Some b \<and> cstr b = s \<and> wf_name b"
proof -
  obtain n where n: "node_by_fd f (client_list q) = Some n" and s: "s = cstr (cl_name n)"
    using assms(2) by (auto simp: name_of_def)
  then have "wf_name (cl_name n)"
    using node_by_fd_wf [OF assms(1)] by (auto simp: wf_node_def)
  with n s show ?thesis using read_own_name(2) [OF assms(1) n] by simp
qed

lemma wf_name_length: "wf_name b \<Longrightarrow> length (cstr b) < MAX_CLIENT_NAME_LEN"
  using length_cstr_less [of b] by (simp add: wf_name_def)

end
