(* ===== verification/Server_Prog.thy ===== *)
theory Server_Prog
  imports Queue_Facts
begin

text \<open>
  The language the server's functions are written in: a shallow embedding in which a function is
  the tree of its calls to the outside, in the order of the source. The outside is what the threads
  share (the mutex \<^verbatim>\<open>client_data_mutex\<close>, the client list, the memory behind a name pointer)
  and the operating system (\<^verbatim>\<open>send\<close>, \<^verbatim>\<open>recv\<close>, \<^verbatim>\<open>poll\<close>,
  \<^verbatim>\<open>malloc\<close>, threads, \<^verbatim>\<open>accept\<close>), whose answers the tree branches over. Functions
  take the rest of the program as an argument, so that an early \<^verbatim>\<open>return\<close> is a jump to it.
  One tree has two meanings: \<open>run\<close> executes it alone, and theory \<open>Server_System\<close> interleaves the
  trees of many threads.
\<close>

section \<open>Programs\<close>

text \<open>What the system calls answer; \<open>EINTR\<close> and \<open>POLLIN\<close> are the flags the code looks at.\<close>

datatype poll_result = Poll_Error (poll_eintr: bool) | Poll_Timeout | Poll_Ready (pollin: bool)
datatype accept_result = Accept_Fd c_int | Accept_Error (accept_eintr: bool)

datatype 'a prog =
    Ret 'a
  | Fault \<comment> \<open>undefined behaviour has been reached\<close>
  | Lock "'a prog"
  | Unlock "'a prog"
  | Call "client_queue \<Rightarrow> client_queue" "client_queue \<Rightarrow> 'a prog"
      \<comment> \<open>one operation on the client list; the rest depends on the list before it\<close>
  | Read_Name name_ptr "char list \<Rightarrow> 'a prog" \<comment> \<open>a read through a pointer to a name\<close>
  | Send c_int msg_t "int \<Rightarrow> 'a prog"
  | Recv c_int "recv_result \<Rightarrow> 'a prog"
  | Poll c_int "poll_result \<Rightarrow> 'a prog"
  | Malloc "addr option \<Rightarrow> 'a prog"
  | Self "tid \<Rightarrow> 'a prog"
  | Terminating "bool \<Rightarrow> 'a prog" \<comment> \<open>a read of \<open>server_terminate\<close>\<close>
  | Accept "accept_result \<Rightarrow> 'a prog"
  | Create_Thread c_int "bool \<Rightarrow> 'a prog" \<comment> \<open>True: \<open>pthread_create\<close> failed\<close>
  | Join tid "'a prog"

definition or_fault :: "'b option \<Rightarrow> ('b \<Rightarrow> 'a prog) \<Rightarrow> 'a prog" where
  "or_fault x k = (case x of None \<Rightarrow> Fault | Some y \<Rightarrow> k y)"

lemma or_fault_simps [simp]: "or_fault None k = Fault" "or_fault (Some y) k = k y"
  by (simp_all add: or_fault_def)

text \<open>The operations of the client list as actions: reads, and updates with a result.\<close>

definition query :: "(client_queue \<Rightarrow> 'b) \<Rightarrow> ('b \<Rightarrow> 'a prog) \<Rightarrow> 'a prog" where
  "query g k = Call id (\<lambda>q. k (g q))"

definition query_opt :: "(client_queue \<Rightarrow> 'b option) \<Rightarrow> ('b \<Rightarrow> 'a prog) \<Rightarrow> 'a prog" where
  "query_opt g k = Call id (\<lambda>q. or_fault (g q) k)"

definition call :: "(client_queue \<Rightarrow> 'b \<times> client_queue) \<Rightarrow> ('b \<Rightarrow> 'a prog) \<Rightarrow> 'a prog" where
  "call f k = Call (\<lambda>q. snd (f q)) (\<lambda>q. k (fst (f q)))"

definition call_opt :: "(client_queue \<Rightarrow> ('b \<times> client_queue) option) \<Rightarrow> ('b \<Rightarrow> 'a prog) \<Rightarrow> 'a prog" where
  "call_opt f k = Call (\<lambda>q. case f q of None \<Rightarrow> q | Some (_, q') \<Rightarrow> q')
                       (\<lambda>q. or_fault (map_option fst (f q)) k)"

text \<open>Printing a string reads it up to its NUL; the text goes to the log and is dropped.\<close>

definition print_str :: "char list \<Rightarrow> 'a prog \<Rightarrow> 'a prog" where
  "print_str b k = or_fault (strlen b) (\<lambda>_. k)"

section \<open>Sequential execution\<close>

text \<open>
  One thread alone. The environment answers the \<open>n\<close>-th system call with its \<open>n\<close>-th answer, so a
  statement for every environment covers every sequence of answers.
\<close>

record env =
  env_send :: "nat \<Rightarrow> int"
  env_recv :: "nat \<Rightarrow> recv_result"
  env_poll :: "nat \<Rightarrow> poll_result"
  env_malloc :: "nat \<Rightarrow> addr option"
  env_self :: tid
  env_terminate :: "nat \<Rightarrow> bool"
  env_accept :: "nat \<Rightarrow> accept_result"
  env_create :: "nat \<Rightarrow> bool"

text \<open>\<open>sent\<close> records the calls to \<^verbatim>\<open>send\<close>, \<open>spawned\<close> and \<open>joined\<close> the thread calls.\<close>

record srv =
  mutex :: bool
  queue :: client_queue
  sent :: "(c_int \<times> msg_t) list"
  clock :: nat
  spawned :: "c_int list"
  joined :: "tid list"

datatype 'a outcome = Done 'a srv | Deadlock srv | Undefined srv

abbreviation tick :: "srv \<Rightarrow> srv" where
  "tick s \<equiv> s\<lparr>clock := Suc (clock s)\<rparr>"

primrec run :: "env \<Rightarrow> 'a prog \<Rightarrow> srv \<Rightarrow> 'a outcome" where
  "run e (Ret a) s = Done a s"
| "run e Fault s = Undefined s"
| "run e (Lock p) s = (if mutex s then Deadlock s else run e p (s\<lparr>mutex := True\<rparr>))"
| "run e (Unlock p) s = (if mutex s then run e p (s\<lparr>mutex := False\<rparr>) else Undefined s)"
| "run e (Call u k) s = run e (k (queue s)) (s\<lparr>queue := u (queue s)\<rparr>)"
| "run e (Read_Name p k) s =
     (case read_name (queue s) p of None \<Rightarrow> Undefined s | Some b \<Rightarrow> run e (k b) s)"
| "run e (Send f m k) s = run e (k (env_send e (clock s))) (tick (s\<lparr>sent := sent s @ [(f, m)]\<rparr>))"
| "run e (Recv f k) s = run e (k (env_recv e (clock s))) (tick s)"
| "run e (Poll f k) s = run e (k (env_poll e (clock s))) (tick s)"
| "run e (Malloc k) s = run e (k (env_malloc e (clock s))) (tick s)"
| "run e (Self k) s = run e (k (env_self e)) s"
| "run e (Terminating k) s = run e (k (env_terminate e (clock s))) (tick s)"
| "run e (Accept k) s = run e (k (env_accept e (clock s))) (tick s)"
| "run e (Create_Thread f k) s =
     (let failed = env_create e (clock s)
      in run e (k failed) (tick (if failed then s else s\<lparr>spawned := spawned s @ [f]\<rparr>)))"
| "run e (Join t p) s = run e p (s\<lparr>joined := joined s @ [t]\<rparr>)"

definition init_srv_state :: srv where
  "init_srv_state = \<lparr>mutex = False, queue = init_queue, sent = [], clock = 0, spawned = [], joined = []\<rparr>"

lemma run_or_fault [run_simps]:
  "run e (or_fault x k) s = (case x of None \<Rightarrow> Undefined s | Some y \<Rightarrow> run e (k y) s)"
  by (simp add: or_fault_def split: option.splits)

lemma run_query [run_simps]: "run e (query g k) s = run e (k (g (queue s))) s"
  by (simp add: query_def)

lemma run_query_opt [run_simps]:
  "run e (query_opt g k) s = (case g (queue s) of None \<Rightarrow> Undefined s | Some y \<Rightarrow> run e (k y) s)"
  by (simp add: query_opt_def run_or_fault)

lemma run_call [run_simps]:
  "run e (call f k) s = run e (k (fst (f (queue s)))) (s\<lparr>queue := snd (f (queue s))\<rparr>)"
  by (simp add: call_def)

lemma run_call_opt [run_simps]:
  "run e (call_opt f k) s =
     (case f (queue s) of None \<Rightarrow> Undefined s | Some (r, q') \<Rightarrow> run e (k r) (s\<lparr>queue := q'\<rparr>))"
  by (auto simp: call_opt_def run_or_fault split: option.splits)

lemma run_print_str [run_simps]:
  "run e (print_str b k) s = (if terminated b then run e k s else Undefined s)"
  by (simp add: print_str_def run_or_fault strlen_eq)

section \<open>Lock discipline\<close>

text \<open>
  \<open>guarded h p\<close>: \<open>p\<close>, started with the mutex held by its thread iff \<open>h\<close>, changes the client list
  only while it holds the mutex and unlocks only what it holds. Locking a mutex the thread holds
  never returns, so nothing is asked of what follows. \<open>releases h p\<close>: \<open>p\<close> moreover never ends
  holding the mutex and never locks it twice.
\<close>

primrec guarded :: "bool \<Rightarrow> 'a prog \<Rightarrow> bool" where
  "guarded h (Ret a) \<longleftrightarrow> True"
| "guarded h Fault \<longleftrightarrow> True"
| "guarded h (Lock p) \<longleftrightarrow> h \<or> guarded True p"
| "guarded h (Unlock p) \<longleftrightarrow> h \<and> guarded False p"
| "guarded h (Call u k) \<longleftrightarrow> (h \<or> u = id) \<and> (\<forall>q. guarded h (k q))"
| "guarded h (Read_Name p k) \<longleftrightarrow> (\<forall>b. guarded h (k b))"
| "guarded h (Send f m k) \<longleftrightarrow> (\<forall>r. guarded h (k r))"
| "guarded h (Recv f k) \<longleftrightarrow> (\<forall>r. guarded h (k r))"
| "guarded h (Poll f k) \<longleftrightarrow> (\<forall>r. guarded h (k r))"
| "guarded h (Malloc k) \<longleftrightarrow> (\<forall>r. guarded h (k r))"
| "guarded h (Self k) \<longleftrightarrow> (\<forall>r. guarded h (k r))"
| "guarded h (Terminating k) \<longleftrightarrow> (\<forall>r. guarded h (k r))"
| "guarded h (Accept k) \<longleftrightarrow> (\<forall>r. guarded h (k r))"
| "guarded h (Create_Thread f k) \<longleftrightarrow> (\<forall>r. guarded h (k r))"
| "guarded h (Join t p) \<longleftrightarrow> guarded h p"

primrec releases :: "bool \<Rightarrow> 'a prog \<Rightarrow> bool" where
  "releases h (Ret a) \<longleftrightarrow> \<not> h"
| "releases h Fault \<longleftrightarrow> True"
| "releases h (Lock p) \<longleftrightarrow> \<not> h \<and> releases True p"
| "releases h (Unlock p) \<longleftrightarrow> h \<and> releases False p"
| "releases h (Call u k) \<longleftrightarrow> (\<forall>q. releases h (k q))"
| "releases h (Read_Name p k) \<longleftrightarrow> (\<forall>b. releases h (k b))"
| "releases h (Send f m k) \<longleftrightarrow> (\<forall>r. releases h (k r))"
| "releases h (Recv f k) \<longleftrightarrow> (\<forall>r. releases h (k r))"
| "releases h (Poll f k) \<longleftrightarrow> (\<forall>r. releases h (k r))"
| "releases h (Malloc k) \<longleftrightarrow> (\<forall>r. releases h (k r))"
| "releases h (Self k) \<longleftrightarrow> (\<forall>r. releases h (k r))"
| "releases h (Terminating k) \<longleftrightarrow> (\<forall>r. releases h (k r))"
| "releases h (Accept k) \<longleftrightarrow> (\<forall>r. releases h (k r))"
| "releases h (Create_Thread f k) \<longleftrightarrow> (\<forall>r. releases h (k r))"
| "releases h (Join t p) \<longleftrightarrow> releases h p"

named_theorems lock_simps \<open>lock discipline of the derived actions\<close>

lemma guarded_or_fault [lock_simps]: "guarded h (or_fault x k) \<longleftrightarrow> (\<forall>y. x = Some y \<longrightarrow> guarded h (k y))"
  by (auto simp: or_fault_def split: option.splits)

lemma releases_or_fault [lock_simps]: "releases h (or_fault x k) \<longleftrightarrow> (\<forall>y. x = Some y \<longrightarrow> releases h (k y))"
  by (auto simp: or_fault_def split: option.splits)

lemma guarded_query [lock_simps]: "(\<And>y. guarded h (k y)) \<Longrightarrow> guarded h (query g k)"
  by (simp add: query_def)

lemma releases_query [lock_simps]: "(\<And>y. releases h (k y)) \<Longrightarrow> releases h (query g k)"
  by (simp add: query_def)

lemma guarded_query_opt [lock_simps]: "(\<And>y. guarded h (k y)) \<Longrightarrow> guarded h (query_opt g k)"
  by (simp add: query_opt_def guarded_or_fault)

lemma releases_query_opt [lock_simps]: "(\<And>y. releases h (k y)) \<Longrightarrow> releases h (query_opt g k)"
  by (simp add: query_opt_def releases_or_fault)

lemma guarded_call [lock_simps]: "(\<And>y. guarded True (k y)) \<Longrightarrow> guarded True (call f k)"
  by (simp add: call_def)

lemma releases_call [lock_simps]: "(\<And>y. releases h (k y)) \<Longrightarrow> releases h (call f k)"
  by (simp add: call_def)

lemma guarded_call_opt [lock_simps]: "(\<And>y. guarded True (k y)) \<Longrightarrow> guarded True (call_opt f k)"
  by (simp add: call_opt_def guarded_or_fault)

lemma releases_call_opt [lock_simps]: "(\<And>y. releases h (k y)) \<Longrightarrow> releases h (call_opt f k)"
  by (simp add: call_opt_def releases_or_fault)

lemma guarded_print_str [lock_simps]: "guarded h k \<Longrightarrow> guarded h (print_str b k)"
  by (simp add: print_str_def guarded_or_fault)

lemma releases_print_str [lock_simps]: "releases h k \<Longrightarrow> releases h (print_str b k)"
  by (simp add: print_str_def releases_or_fault)

text \<open>
  A program that releases the mutex ends with it free, whatever the answers of the environment:
  it cannot deadlock on its own.
\<close>

lemma run_releases:
  "releases (mutex s) p \<Longrightarrow>
     (\<exists>a s'. run e p s = Done a s' \<and> \<not> mutex s') \<or> (\<exists>s'. run e p s = Undefined s')"
proof (induction p arbitrary: s)
  case (Call u k)
  then show ?case by simp
next
  case (Lock p)
  then show ?case by simp
next
  case (Unlock p)
  then show ?case by simp
next
  case (Read_Name p k)
  then show ?case by (simp split: option.splits)
next
  case (Create_Thread f k)
  then show ?case by (simp add: Let_def)
qed simp_all

end
