(* ===== verification/Server_Handlers.thy ===== *)
theory Server_Handlers
  imports Server_Prog
begin

text \<open>
  \<^verbatim>\<open>server/lib_src/server_mgmt.c\<close>, the message handlers: sending and receiving one message,
  and one function per request of a client. Each takes the rest of the calling thread as its last
  argument. Logging is left out but for the log calls that print a buffer of the peer's or of the
  handler, which read it up to a NUL (\<open>print_str\<close>).
\<close>

section \<open>Status codes of the server\<close>

datatype srv_err_type =
    SERVER_SUCC
  | ERR_LIB_INIT
  | ERR_THREAD_CREATE
  | SERVER_TERMINATE_DETECTED
  | ERR_CONN_EST
  | ERR_MSG_SEND
  | ERR_CLIENT_CLOSED_CONN
  | ERR_RECV
  | ERR_ADD_NODE_FAILED
  | ERR_READ_TIMEOUT

definition srv_err_types :: "srv_err_type list" where
  "srv_err_types = [SERVER_SUCC, ERR_LIB_INIT, ERR_THREAD_CREATE, SERVER_TERMINATE_DETECTED,
     ERR_CONN_EST, ERR_MSG_SEND, ERR_CLIENT_CLOSED_CONN, ERR_RECV, ERR_ADD_NODE_FAILED,
     ERR_READ_TIMEOUT]"

section \<open>Sending and receiving\<close>

definition send_msg_to_fd :: "c_int \<Rightarrow> msg_t \<Rightarrow> (srv_err_type \<Rightarrow> 'a prog) \<Rightarrow> 'a prog" where
  "send_msg_to_fd f m k =
     Send f m (\<lambda>size. if size \<noteq> int sizeof_msg \<or> - 1 = size then k ERR_MSG_SEND else k SERVER_SUCC)"

definition send_conn_establish_msg :: "c_int \<Rightarrow> (srv_err_type \<Rightarrow> 'a prog) \<Rightarrow> 'a prog" where
  "send_conn_establish_msg f k =
     or_fault (sprintf (msg_buf zero_msg) SERVER_UNIQUEUE_ID) (\<lambda>b.
     send_msg_to_fd f (set_buf b (set_type MSG_CONN_ESTABLISH_REQ zero_msg)) (\<lambda>err.
     if SERVER_SUCC \<noteq> err then k ERR_CONN_EST
     else Recv f (\<lambda>r.
       case r of
         Recv_Bytes bs \<Rightarrow>
           if length bs \<noteq> sizeof_msg then k ERR_CONN_EST
           else if MSG_CONN_ESTABLISH_ACK = msg_type (recv_into zero_msg bs) then k SERVER_SUCC
           else k ERR_CONN_EST
       | Recv_Eof \<Rightarrow> k ERR_CONN_EST
       | Recv_Error \<Rightarrow> k ERR_CONN_EST)))"

text \<open>
  \<open>rx_msg\<close> is the struct the pointer refers to; the continuation gets the code and the struct as
  it is left. The null check returns \<^verbatim>\<open>ERR_NULL_PTR\<close>, the enumerator number 1 of the queue's
  enum, in a function whose type is \<^verbatim>\<open>srv_err_type\<close>.
\<close>

definition wait_to_recv_something ::
  "c_int \<Rightarrow> msg_t option \<Rightarrow> (srv_err_type \<Rightarrow> msg_t \<Rightarrow> 'a prog) \<Rightarrow> 'a prog" where
  "wait_to_recv_something f rx k =
     (case rx of
        None \<Rightarrow> k (srv_err_types ! srv_queue_err_code ERR_NULL_PTR) zero_msg
      | Some rx_msg \<Rightarrow>
          Poll f (\<lambda>p.
            case p of
              Poll_Error eintr \<Rightarrow>
                if eintr then k ERR_CLIENT_CLOSED_CONN rx_msg else k ERR_CLIENT_CLOSED_CONN rx_msg
            | Poll_Timeout \<Rightarrow> k ERR_READ_TIMEOUT rx_msg
            | Poll_Ready inp \<Rightarrow>
                if inp then
                  Recv f (\<lambda>r.
                    case r of
                      Recv_Bytes bs \<Rightarrow> k SERVER_SUCC (recv_into rx_msg bs)
                    | Recv_Eof \<Rightarrow> k ERR_CLIENT_CLOSED_CONN rx_msg
                    | Recv_Error \<Rightarrow> k ERR_RECV rx_msg)
                else k ERR_RECV rx_msg))"

section \<open>Requests about names\<close>

definition set_name_handler :: "c_int \<Rightarrow> msg_t \<Rightarrow> 'a prog \<Rightarrow> 'a prog" where
  "set_name_handler f msg k =
     print_str (msg_buf msg) (
     Lock (
     query_opt (check_client_with_same_name_exist_or_not (Some (msg_buf msg))) (\<lambda>ret.
     if ret \<noteq> NAME_NOT_EXIST then
       Unlock (send_msg_to_fd f (set_type MSG_SET_NAME_NACK_TYPE zero_msg) (\<lambda>_. k))
     else
       call_opt (set_name_of_client_by_client_fd f (Some (msg_buf msg))) (\<lambda>ret_val.
       if ret_val \<noteq> SERVER_QUEUE_SUCC then Unlock k
       else
         print_str (msg_buf msg) (
         Unlock (send_msg_to_fd f (set_type MSG_SET_NAME_ACK_TYPE zero_msg) (\<lambda>_. k)))))))"

text \<open>The list is built without taking the mutex; the error code is not looked at.\<close>

definition send_client_list_handler :: "c_int \<Rightarrow> 'a prog \<Rightarrow> 'a prog" where
  "send_client_list_handler f k =
     query_opt (get_client_list (Some (replicate MAX_MSG_LEN NUL))) (\<lambda>(err, listp).
     or_fault listp (\<lambda>l.
     print_str l (
     if INVALID_FD = f then k
     else send_msg_to_fd f (set_buf l (set_type MSG_GET_CLIENT_LIST_TYPE zero_msg)) (\<lambda>_. k))))"

section \<open>Requests about connections\<close>

definition handle_change_conn_fd_req :: "c_int \<Rightarrow> msg_t \<Rightarrow> 'a prog \<Rightarrow> 'a prog" where
  "handle_change_conn_fd_req f msg k = (if INVALID_FD = f then k else k)"

definition handle_decline_conn_request :: "c_int \<Rightarrow> 'a prog \<Rightarrow> 'a prog" where
  "handle_decline_conn_request f k =
     (if INVALID_FD = f then k
      else
        Lock (
        query (get_client_chatting_status_by_fd f) (\<lambda>st.
        if CHAT_STATUS_REQ_PENDING = st then
          query (get_conn_fd_by_fd f) (\<lambda>conn_fd.
          query (get_client_name_by_fd f) (\<lambda>my_name.
          Unlock (
          if INVALID_FD = conn_fd then k
          else
            Read_Name my_name (\<lambda>nm.
            or_fault (strcpy (msg_buf zero_msg) nm) (\<lambda>b.
            send_msg_to_fd conn_fd
              (set_buf b (set_type MSG_CLIENT_DECLINE_CONNECTION_ACK zero_msg)) (\<lambda>_.
            Lock (
            call (set_client_chatting_status_by_fd f CHAT_STATUS_FREE) (\<lambda>_.
            Unlock k))))))))
        else Unlock k)))"

definition handle_tx_msg :: "c_int \<Rightarrow> msg_t \<Rightarrow> 'a prog \<Rightarrow> 'a prog" where
  "handle_tx_msg f msg k =
     Lock (
     query (get_client_chatting_status_by_fd f) (\<lambda>st.
     if CHAT_STATUS_BUSY = st then
       query (get_conn_fd_by_fd f) (\<lambda>conn_fd.
       Unlock (
       or_fault (strcmp (msg_buf msg) (lit DISCONNECT_CMD)) (\<lambda>cmp.
       if 0 = cmp then
         if INVALID_FD \<noteq> conn_fd then
           Lock (
           query (get_client_name_by_fd f) (\<lambda>np.
           Read_Name np (\<lambda>nm.
           or_fault (strcpy (msg_buf zero_msg) nm) (\<lambda>b.
           call (set_client_chatting_status_by_fd f CHAT_STATUS_FREE) (\<lambda>_.
           call (set_client_chatting_status_by_fd conn_fd CHAT_STATUS_FREE) (\<lambda>_.
           call (set_to_fd_by_fd f INVALID_FD) (\<lambda>_.
           call (set_to_fd_by_fd conn_fd INVALID_FD) (\<lambda>_.
           Unlock (
           send_msg_to_fd conn_fd (set_buf b (set_type MSG_CLIENT_DISCONNECTED zero_msg))
             (\<lambda>_. k))))))))))
         else k
       else if INVALID_FD \<noteq> conn_fd then
         send_msg_to_fd conn_fd (set_type MSG_CLIENT_RX_TYPE msg) (\<lambda>_. k)
       else k)))
     else Unlock k))"

text \<open>
  \<open>namep\<close> is the buffer of the received message. The target's status is read in one critical
  section and set in a second; \<open>my_name\<close> is read through its pointer after the mutex is free.
\<close>

definition handle_chat_connection_request :: "c_int \<Rightarrow> char list option \<Rightarrow> 'a prog \<Rightarrow> 'a prog" where
  "handle_chat_connection_request f namep k =
     (case namep of
        None \<Rightarrow> k
      | Some conn_client_name \<Rightarrow>
        if INVALID_FD = f then k
        else
          or_fault (memcpy (msg_buf zero_msg) conn_client_name MAX_CLIENT_NAME_LEN) (\<lambda>b.
          let reply = (\<lambda>t. send_msg_to_fd f (set_buf b (set_type t zero_msg)) (\<lambda>_. k))
          in
          Lock (
          query_opt (check_client_with_same_name_exist_or_not (Some conn_client_name)) (\<lambda>ret.
          if ret = NAME_EXISTS then
            query (get_client_name_by_fd f) (\<lambda>my_name.
            Read_Name my_name (\<lambda>my.
            or_fault (strcmp my conn_client_name) (\<lambda>cmp.
            if cmp = 0 then Unlock (reply MSG_ATTEMPT_TO_CONNECT_TO_SELF)
            else
              query_opt (get_client_chatting_status_by_name (Some conn_client_name)) (\<lambda>chat_status.
              Unlock (
              if chat_status = CHAT_STATUS_CLIENT_NOT_FOUND then reply MSG_CLIENT_NOT_EXIST
              else if CHAT_STATUS_FREE = chat_status then
                Lock (
                query_opt (get_client_fd_by_name (Some conn_client_name)) (\<lambda>conn_client_fd.
                call (set_client_chatting_status_by_fd conn_client_fd CHAT_STATUS_REQ_PENDING) (\<lambda>_.
                Unlock (
                if INVALID_FD = conn_client_fd then reply MSG_CLIENT_NOT_EXIST
                else
                  Lock (
                  call (set_to_fd_by_fd f conn_client_fd) (\<lambda>_.
                  call (set_to_fd_by_fd conn_client_fd f) (\<lambda>_.
                  Unlock (
                  Read_Name my_name (\<lambda>my'.
                  or_fault (strcpy (msg_buf zero_msg) my') (\<lambda>b'.
                  send_msg_to_fd conn_client_fd
                    (set_buf b' (set_type MSG_CONNECTION_REQ_RX zero_msg)) (\<lambda>_.
                  reply MSG_CLIENT_FREE)))))))))))
              else if CHAT_STATUS_BUSY = chat_status then reply MSG_CLIENT_BUSY
              else if CHAT_STATUS_REQ_PENDING = chat_status then reply MSG_CLIENT_STATUS_REQ_PENDING
              else reply MSG_CLIENT_NOT_EXIST)))))
          else
            Unlock (print_str conn_client_name (reply MSG_CLIENT_NOT_EXIST))))))"

text \<open>
  The first early return leaves the mutex locked. The literals are copied with \<^verbatim>\<open>strcpy\<close>.
\<close>

definition handle_conn_accept :: "c_int \<Rightarrow> msg_t \<Rightarrow> 'a prog \<Rightarrow> 'a prog" where
  "handle_conn_accept f msg k =
     Lock (
     query (get_client_chatting_status_by_fd f) (\<lambda>my_chat_status.
     query (get_conn_fd_by_fd f) (\<lambda>conn_fd.
     if INVALID_FD = conn_fd then k
     else
       query (get_client_chatting_status_by_fd conn_fd) (\<lambda>conn_client_chat_status.
       query (get_client_name_by_fd conn_fd) (\<lambda>conn_client_name.
       Read_Name conn_client_name (\<lambda>cn.
       or_fault (strcmp cn (lit UNDEF_NAME)) (\<lambda>cmp.
       if 0 = cmp then
         call (set_client_chatting_status_by_fd f CHAT_STATUS_FREE) (\<lambda>_.
         call (set_to_fd_by_fd f INVALID_FD) (\<lambda>_.
         Unlock (
         or_fault (strcpy (msg_buf zero_msg) (lit ''Client_not_exist'')) (\<lambda>b.
         send_msg_to_fd f (set_buf b (set_type MSG_CLIENT_NO_MORE_EXIST zero_msg)) (\<lambda>_. k)))))
       else
         Unlock (
         if CHAT_STATUS_BUSY = conn_client_chat_status then
           Lock (
           call (set_client_chatting_status_by_fd f CHAT_STATUS_FREE) (\<lambda>_.
           Unlock (
           Read_Name conn_client_name (\<lambda>cn'.
           or_fault (strcpy (msg_buf zero_msg) cn') (\<lambda>b.
           send_msg_to_fd f (set_buf b (set_type MSG_CLIENT_NO_MORE_FREE zero_msg)) (\<lambda>_. k))))))
         else if CHAT_STATUS_REQ_PENDING \<noteq> my_chat_status then
           or_fault (strcpy (msg_buf zero_msg) (lit ''SOMETHING_IS_WRONG'')) (\<lambda>b.
           send_msg_to_fd f (set_buf b (set_type MSG_CLIENT_ACCEPT_CONNECTION_ACK zero_msg)) (\<lambda>_. k))
         else
           Lock (
           call (set_client_chatting_status_by_fd f CHAT_STATUS_BUSY) (\<lambda>_.
           call (set_client_chatting_status_by_fd conn_fd CHAT_STATUS_BUSY) (\<lambda>_.
           call (set_to_fd_by_fd f conn_fd) (\<lambda>_.
           call (set_to_fd_by_fd conn_fd f) (\<lambda>_.
           query (get_client_name_by_fd conn_fd) (\<lambda>conn_name.
           query (get_client_name_by_fd f) (\<lambda>my_name.
           Unlock (
           Read_Name conn_name (\<lambda>cn2.
           or_fault (strcmp cn2 (lit UNDEF_NAME)) (\<lambda>c1.
           if 0 = c1 then k
           else
             Read_Name my_name (\<lambda>mn.
             or_fault (strcmp mn (lit UNDEF_NAME)) (\<lambda>c2.
             if 0 = c2 then k
             else
               or_fault (strcpy (msg_buf zero_msg) mn) (\<lambda>b_me.
               Read_Name conn_name (\<lambda>cn3.
               or_fault (strcpy (msg_buf zero_msg) cn3) (\<lambda>b_peer.
               send_msg_to_fd f (set_buf b_peer (set_type MSG_CLIENT_CHAT_READY zero_msg)) (\<lambda>_.
               send_msg_to_fd conn_fd
                 (set_buf b_me (set_type MSG_CLIENT_ACCEPT_CONNECTION_ACK zero_msg)) (\<lambda>_.
               k)))))))))))))))))))))))))"

section \<open>Dispatch\<close>

definition handle_rx_msg :: "msg_t \<Rightarrow> c_int \<Rightarrow> 'a prog \<Rightarrow> 'a prog" where
  "handle_rx_msg msg f k =
     (case msg_type msg of
        MSG_SET_NAME_REQ_TYPE \<Rightarrow> set_name_handler f msg k
      | MSG_GET_CLIENT_LIST_TYPE \<Rightarrow> send_client_list_handler f k
      | MSG_CONNECT_TO_CLIENT \<Rightarrow> handle_chat_connection_request f (Some (msg_buf msg)) k
      | MSG_CLIENT_ACCEPT_CONNECTION \<Rightarrow> handle_conn_accept f msg k
      | MSG_CLIENT_TX_TYPE \<Rightarrow> handle_tx_msg f msg k
      | MSG_CLIENT_DECLINE_CONNECTION \<Rightarrow> handle_decline_conn_request f k
      | MSG_CLIENT_CHANGE_CONN_FD_REQ \<Rightarrow> handle_change_conn_fd_req f msg k
      | _ \<Rightarrow> k)"

end
