(* ===== verification/Queue_Text.thy ===== *)
theory Queue_Text
  imports Queue_Facts
begin

text \<open>
  The two operations that write text: \<^verbatim>\<open>set_name_of_client_by_client_fd\<close>, which truncates
  a name to 63 bytes, and \<^verbatim>\<open>get_client_list\<close>, whose bounded concatenations are shown to
  compute the longest list of whole names that fits a message.
\<close>

section \<open>Renaming\<close>

definition rename :: "c_int \<Rightarrow> string \<Rightarrow> client_queue \<Rightarrow> client_queue" where
  "rename f s q = write_node f (\<lambda>n. n\<lparr>cl_name := mk_buf MAX_CLIENT_NAME_LEN s\<rparr>) q"

lemma strncpy_name:
  assumes "length dst = MAX_CLIENT_NAME_LEN" and "ok_text nm"
  shows "strncpy dst nm (MAX_CLIENT_NAME_LEN - 1) =
      Some (mk_buf (MAX_CLIENT_NAME_LEN - 1) (take 63 (cstr nm)) @ drop 63 dst)"
proof -
  have "terminated nm \<or> MAX_CLIENT_NAME_LEN - 1 \<le> length nm"
    using assms(2) by (auto simp: ok_text_def)
  moreover have "63 - length (cstr nm) = 63 - length (take 63 (cstr nm))"
    by (cases "length (cstr nm) \<le> 63") simp_all
  ultimately show ?thesis
    using assms(1) strncpy_ok [of nm "MAX_CLIENT_NAME_LEN - 1" dst] by (simp add: mk_buf_def)
qed

lemma store_last_byte:
  assumes "length s \<le> 63" and "length dst = MAX_CLIENT_NAME_LEN"
  shows "store_byte (mk_buf (MAX_CLIENT_NAME_LEN - 1) s @ drop 63 dst) (MAX_CLIENT_NAME_LEN - 1) NUL =
      Some (mk_buf MAX_CLIENT_NAME_LEN s)"
proof -
  obtain c where c: "drop 63 dst = [c]"
    using assms(2) by (cases "drop 63 dst") (auto simp: drop_eq_Nil dest!: arg_cong [of _ _ length])
  have "64 - length s = Suc (63 - length s)" using assms(1) by simp
  then show ?thesis
    using assms(1) c
    by (simp add: store_byte_def mk_buf_def list_update_append replicate_append_same [symmetric])
qed

lemma set_name_eq [queue_simps]:
  assumes "wf_queue q" and "f \<in> live_fds q" and "ok_text nm"
  shows "set_name_of_client_by_client_fd f (Some nm) q =
     Some (SERVER_QUEUE_SUCC, rename f (take 63 (cstr nm)) q)"
proof -
  obtain n where n: "node_by_fd f (client_list q) = Some n"
    using assms(2) node_by_fd_live by blast
  have "client_list q \<noteq> []" using n by (auto simp: node_by_fd_def)
  moreover have "f \<noteq> INVALID_FD" using assms invalid_not_live by blast
  moreover have "length (cl_name n) = MAX_CLIENT_NAME_LEN"
    using node_by_fd_wf [OF assms(1) n] by (simp add: wf_node_def wf_name_def)
  ultimately show ?thesis
    using n strncpy_name [OF _ assms(3), of "cl_name n"]
      store_last_byte [of "take 63 (cstr nm)" "cl_name n"]
    by (simp add: set_name_of_client_by_client_fd_def rename_def)
qed

lemma set_name_absent [queue_simps]:
  "f \<notin> live_fds q \<Longrightarrow> client_list q \<noteq> [] \<Longrightarrow>
     set_name_of_client_by_client_fd f (Some nm) q = Some (ERR_NAME_NOT_SET, q)"
  by (simp add: set_name_of_client_by_client_fd_def node_by_fd_None [THEN iffD2])

lemma wf_rename: "wf_queue q \<Longrightarrow> wf_queue (rename f (take 63 s) q)"
  unfolding rename_def
  by (rule wf_write_node) (auto simp: wf_node_def wf_name_def min_def)

lemma live_fds_rename [simp]: "live_fds (rename f s q) = live_fds q"
  by (simp add: rename_def live_fds_write_node)

lemma status_rename [simp]:
  "get_client_chatting_status_by_fd g (rename f s q) = get_client_chatting_status_by_fd g q"
  by (auto simp: rename_def get_client_chatting_status_by_fd_def node_by_fd_write_node
      split: option.splits)

lemma partner_rename [simp]: "get_conn_fd_by_fd g (rename f s q) = get_conn_fd_by_fd g q"
  by (auto simp: rename_def get_conn_fd_by_fd_def node_by_fd_write_node split: option.splits)

lemma name_of_rename:
  "NUL \<notin> set s \<Longrightarrow> f \<in> live_fds q \<Longrightarrow> name_of g (rename f s q) = (if g = f then Some s else name_of g q)"
  using node_by_fd_live [of f q]
  by (auto simp: name_of_def rename_def node_by_fd_write_node)

section \<open>Distinct names\<close>

definition distinct_names :: "client_queue \<Rightarrow> bool" where
  "distinct_names q \<longleftrightarrow> distinct (map (\<lambda>n. cstr (cl_name n)) (client_list q))"

lemma distinct_names_rename:
  assumes "distinct_names q" and "NUL \<notin> set s"
    and "\<forall>n \<in> set (client_list q). cstr (cl_name n) \<noteq> s"
  shows "distinct_names (rename f s q)"
proof -
  have "distinct (map (\<lambda>n. cstr (cl_name n))
      (upd_first P (\<lambda>n. n\<lparr>cl_name := mk_buf MAX_CLIENT_NAME_LEN s\<rparr>) ns))
    \<and> (\<lambda>n. cstr (cl_name n)) `
        set (upd_first P (\<lambda>n. n\<lparr>cl_name := mk_buf MAX_CLIENT_NAME_LEN s\<rparr>) ns)
      \<subseteq> insert s ((\<lambda>n. cstr (cl_name n)) ` set ns)"
    if "distinct (map (\<lambda>n. cstr (cl_name n)) ns)"
      and "\<forall>n \<in> set ns. cstr (cl_name n) \<noteq> s" for ns :: "client_node_t list" and P
    using that assms(2) by (induction ns) (auto simp: image_iff subset_iff)
  then show ?thesis
    using assms(1,3) by (simp add: distinct_names_def rename_def write_node_def)
qed

lemma distinct_names_named:
  "distinct_names q \<Longrightarrow> n \<in> set (client_list q) \<Longrightarrow> named (cl_name n) q = Some n"
  unfolding named_def distinct_names_def by (rule find_key_unique)

section \<open>The list of names\<close>

text \<open>
  The specification: whole names, each followed by a space, as long as the text with its final
  space stays shorter than a message; \<open>n\<close> is the length so far.
\<close>

fun fitting :: "nat \<Rightarrow> string list \<Rightarrow> string" where
  "fitting n [] = []"
| "fitting n (s # ss) =
     (if MAX_MSG_LEN \<le> n + length s + 1 then [] else s @ '' '' @ fitting (n + length s + 1) ss)"

definition names_of :: "client_queue \<Rightarrow> string list" where
  "names_of q = map (\<lambda>n. cstr (cl_name n)) (client_list q)"

lemma length_fitting: "n < MAX_MSG_LEN \<Longrightarrow> n + length (fitting n ss) < MAX_MSG_LEN"
proof (induction ss arbitrary: n)
  case (Cons s ss)
  show ?case
  proof (cases "MAX_MSG_LEN \<le> n + length s + 1")
    case True
    with Cons.prems show ?thesis by simp
  next
    case False
    with Cons.IH [of "n + length s + 1"] show ?thesis by simp
  qed
qed simp

lemma fitting_no_NUL: "\<forall>s \<in> set ss. NUL \<notin> set s \<Longrightarrow> NUL \<notin> set (fitting n ss)"
  by (induction ss arbitrary: n) auto

text \<open>Where everything fits, everything is listed.\<close>

lemma fitting_all:
  "n + sum_list (map (\<lambda>s. length s + 1) ss) < MAX_MSG_LEN \<Longrightarrow>
     fitting n ss = concat (map (\<lambda>s. s @ '' '') ss)"
  by (induction ss arbitrary: n) auto

text \<open>What is listed is a prefix of the names.\<close>

lemma fitting_prefix:
  "\<exists>k \<le> length ss. fitting n ss = concat (map (\<lambda>s. s @ '' '') (take k ss))
     \<and> (k < length ss \<longrightarrow>
          MAX_MSG_LEN \<le> n + length (concat (map (\<lambda>s. s @ '' '') (take (Suc k) ss))))"
proof (induction ss arbitrary: n)
  case (Cons s ss)
  show ?case
  proof (cases "MAX_MSG_LEN \<le> n + length s + 1")
    case True
    then show ?thesis by (intro exI [of _ 0]) simp
  next
    case False
    obtain k where "k \<le> length ss"
      and "fitting (n + length s + 1) ss = concat (map (\<lambda>s. s @ '' '') (take k ss))"
      and "k < length ss \<longrightarrow> MAX_MSG_LEN \<le>
          n + length s + 1 + length (concat (map (\<lambda>s. s @ '' '') (take (Suc k) ss)))"
      using Cons.IH by blast
    with False show ?thesis by (intro exI [of _ "Suc k"]) (auto simp: algebra_simps)
  qed
qed simp

lemma append_names_eq:
  assumes "list_all wf_node ns" and "NUL \<notin> set t" and "length t < MAX_MSG_LEN"
  shows "append_names (mk_buf MAX_MSG_LEN t) (length t) ns =
     Some (mk_buf MAX_MSG_LEN (t @ fitting (length t) (map (\<lambda>n. cstr (cl_name n)) ns)))"
  using assms
proof (induction ns arbitrary: t)
  case Nil
  then show ?case by simp
next
  case (Cons m ns)
  let ?nm = "cl_name m" and ?t1 = "t @ cstr (cl_name m)"
  have nm: "terminated ?nm" using Cons.prems(1) by (simp add: wf_node_def wf_name_def)
  show ?case
  proof (cases "MAX_MSG_LEN \<le> length t + length (cstr ?nm) + 1")
    case True
    with Cons.prems nm show ?thesis by (simp add: strlen_eq)
  next
    case False
    have l1: "strncat (mk_buf MAX_MSG_LEN t) ?nm (MAX_MSG_LEN - length t - 1) =
        Some (mk_buf MAX_MSG_LEN ?t1)"
      using Cons.prems(2) nm False by (intro strncat_mk_buf) simp_all
    have "strncat (mk_buf MAX_MSG_LEN ?t1) (lit '' '') (MAX_MSG_LEN - length ?t1 - 1) =
        Some (mk_buf MAX_MSG_LEN (?t1 @ cstr (lit '' '')))"
      using Cons.prems(2) False by (intro strncat_mk_buf) (simp_all add: lit_def)
    then have l2: "strncat (mk_buf MAX_MSG_LEN ?t1) (lit '' '') (MAX_MSG_LEN - length ?t1 - 1) =
        Some (mk_buf MAX_MSG_LEN (?t1 @ '' ''))"
      by (simp add: lit_def)
    have IH: "append_names (mk_buf MAX_MSG_LEN (?t1 @ '' '')) (length (?t1 @ '' '')) ns =
        Some (mk_buf MAX_MSG_LEN ((?t1 @ '' '') @
          fitting (length (?t1 @ '' '')) (map (\<lambda>n. cstr (cl_name n)) ns)))"
      using Cons.prems False by (intro Cons.IH) simp_all
    have len: "strlen (mk_buf MAX_MSG_LEN ?t1) = Some (length ?t1)"
      using Cons.prems(2) False by (simp add: strlen_eq)
    show ?thesis
      using False nm l1 l2 IH len by (simp add: strlen_eq)
  qed
qed

lemma get_client_list_eq [queue_simps]:
  assumes "wf_queue q" and "client_list q \<noteq> []"
  shows "get_client_list (Some (replicate MAX_MSG_LEN NUL)) q =
     Some (SERVER_QUEUE_SUCC, Some (mk_buf MAX_MSG_LEN (fitting 0 (names_of q))))"
proof -
  have "list_all wf_node (client_list q)" using assms(1) by (simp add: wf_queue_def)
  then have "append_names (replicate MAX_MSG_LEN NUL) 0 (client_list q) =
      Some (mk_buf MAX_MSG_LEN (fitting 0 (names_of q)))"
    using append_names_eq [of "client_list q" "[]"] by (simp add: mk_buf_def names_of_def)
  with assms(2) show ?thesis by (simp add: get_client_list_def)
qed

lemma names_of_no_NUL: "\<forall>s \<in> set (names_of q). NUL \<notin> set s"
  by (auto simp: names_of_def)

end
