(* ===== verification/Server_Behaviour.thy ===== *)
theory Server_Behaviour
  imports Server_Handlers Queue_Text
begin

text \<open>
  The handlers executed alone: for each branch of each handler, what happens to the client list,
  which messages go out, and that the mutex is free again. The rest of the thread, \<open>k\<close>, runs in
  the state the lemma names, so the lemmas compose.
\<close>

section \<open>States before and after\<close>

definition idle :: "srv \<Rightarrow> bool" where
  "idle s \<longleftrightarrow> \<not> mutex s \<and> wf_queue (queue s)"

definition emit :: "(c_int \<times> msg_t) list \<Rightarrow> srv \<Rightarrow> srv" where
  "emit ms s = s\<lparr>sent := sent s @ ms, clock := clock s + length ms\<rparr>"

definition upd_queue :: "(client_queue \<Rightarrow> client_queue) \<Rightarrow> srv \<Rightarrow> srv" where
  "upd_queue u s = s\<lparr>queue := u (queue s)\<rparr>"

lemma emit_simps [simp]:
  "mutex (emit ms s) = mutex s" "queue (emit ms s) = queue s" "sent (emit ms s) = sent s @ ms"
  "emit ms (emit ms' s) = emit (ms' @ ms) s" "emit [] s = s"
  by (simp_all add: emit_def)

lemma upd_queue_simps [simp]:
  "mutex (upd_queue u s) = mutex s" "queue (upd_queue u s) = u (queue s)"
  "sent (upd_queue u s) = sent s" "clock (upd_queue u s) = clock s"
  "upd_queue u (upd_queue v s) = upd_queue (\<lambda>q. u (v q)) s"
  "upd_queue u (emit ms s) = emit ms (upd_queue u s)"
  "upd_queue (\<lambda>q. q) s = s"
  by (simp_all add: emit_def upd_queue_def)

text \<open>Locking, unlocking and calling the list, over these shapes.\<close>

lemma run_Lock [run_simps]: "\<not> mutex s \<Longrightarrow> run e (Lock p) s = run e p (s\<lparr>mutex := True\<rparr>)"
  by simp

lemma mutex_simps [simp]:
  "\<not> mutex s \<Longrightarrow> s\<lparr>mutex := False\<rparr> = s"
  "upd_queue u (s\<lparr>mutex := b\<rparr>) = (upd_queue u s)\<lparr>mutex := b\<rparr>"
  "emit ms (s\<lparr>mutex := b\<rparr>) = (emit ms s)\<lparr>mutex := b\<rparr>"
  by (simp_all add: emit_def upd_queue_def)

lemma run_call_upd [run_simps]:
  "run e (call f k) s = run e (k (fst (f (queue s)))) (upd_queue (\<lambda>q. snd (f q)) s)"
  by (simp add: run_call upd_queue_def)

lemma run_send_msg [run_simps]:
  "run e (send_msg_to_fd f m k) s =
     run e (k (if env_send e (clock s) = 520 then SERVER_SUCC else ERR_MSG_SEND)) (emit [(f, m)] s)"
  by (simp add: send_msg_to_fd_def sizeof_msg_def emit_def)

declare run_call [run_simps del]

text \<open>The text \<^verbatim>\<open>get_client_name_by_fd\<close> points to.\<close>

definition client_name :: "c_int \<Rightarrow> client_queue \<Rightarrow> string" where
  "client_name f q = (case name_of f q of None \<Rightarrow> UNDEF_NAME | Some s \<Rightarrow> s)"

lemma client_name_put [simp]:
  "client_name f (put_status g c q) = client_name f q"
  "client_name f (put_to_fd g t q) = client_name f q"
  by (simp_all add: client_name_def)

lemma UNDEF_NAME_no_NUL [simp]: "NUL \<notin> set UNDEF_NAME"
  by (simp add: UNDEF_NAME_def)

lemma cstr_lit [simp]: "NUL \<notin> set s \<Longrightarrow> cstr (lit s) = s"
  by (simp add: lit_def cstr_append_text)

lemma terminated_lit [simp]: "terminated (lit s)"
  by (simp add: lit_def)

lemma read_client_name:
  assumes "wf_queue q"
  shows "\<exists>b. read_name q (get_client_name_by_fd f q) = Some b \<and> cstr b = client_name f q \<and>
     terminated b \<and> length b \<le> MAX_CLIENT_NAME_LEN"
proof (cases "name_of f q")
  case None
  then have "f \<notin> live_fds q" using name_of_live [of f q] by auto
  with None show ?thesis
    by (simp add: name_of_absent client_name_def) (simp add: lit_def UNDEF_NAME_def)
next
  case (Some s)
  then show ?thesis
    using read_live_name [OF assms Some] by (auto simp: client_name_def wf_name_def)
qed

lemma client_name_props:
  assumes "wf_queue q"
  shows "NUL \<notin> set (client_name f q)" "length (client_name f q) < MAX_CLIENT_NAME_LEN"
proof -
  obtain b where "cstr b = client_name f q" "terminated b" "length b \<le> MAX_CLIENT_NAME_LEN"
    using read_client_name [OF assms] by blast
  then show "NUL \<notin> set (client_name f q)" "length (client_name f q) < MAX_CLIENT_NAME_LEN"
    using cstr_no_NUL [of b] length_cstr_less [of b] by auto
qed

text \<open>
  The two uses of the pointer: a copy into a zeroed message and a comparison. Both see the name,
  whether or not the client exists.
\<close>

lemma run_copy_name [run_simps]:
  assumes "wf_queue q" and "read_name (queue s) (get_client_name_by_fd f q) =
      read_name q (get_client_name_by_fd f q)"
  shows "run e (Read_Name (get_client_name_by_fd f q)
       (\<lambda>nm. or_fault (strcpy (replicate MAX_MSG_LEN NUL) nm) k)) s =
     run e (k (mk_buf MAX_MSG_LEN (client_name f q))) s"
proof -
  obtain b where "read_name q (get_client_name_by_fd f q) = Some b" and b: "cstr b = client_name f q"
    and t: "terminated b"
    using read_client_name [OF assms(1)] by blast
  moreover have "strcpy (replicate MAX_MSG_LEN NUL) b = Some (mk_buf MAX_MSG_LEN (client_name f q))"
    using strcpy_zero_buf [OF t, of MAX_MSG_LEN] client_name_props(2) [OF assms(1), of f] b by simp
  ultimately show ?thesis using assms(2) by (simp add: run_simps)
qed

lemma run_compare_name [run_simps]:
  assumes "wf_queue q" and "read_name (queue s) (get_client_name_by_fd f q) =
      read_name q (get_client_name_by_fd f q)" and "ok_text c"
  shows "run e (Read_Name (get_client_name_by_fd f q)
       (\<lambda>nm. or_fault (strcmp nm c) (\<lambda>r. if r = 0 then A else B))) s =
     (if client_name f q = cstr c then run e A s else run e B s)"
proof -
  obtain b where b: "read_name q (get_client_name_by_fd f q) = Some b"
    "cstr b = client_name f q" "terminated b" "length b \<le> MAX_CLIENT_NAME_LEN"
    using read_client_name [OF assms(1)] by blast
  have "terminated c \<or> length b \<le> length c" using assms(3) b(4) by (auto simp: ok_text_def)
  then obtain r where "strcmp b c = Some r" "r = 0 \<longleftrightarrow> cstr b = cstr c"
    using strcmp_total_left [OF b(3)] by blast
  with b assms(2) show ?thesis by (auto simp: run_simps)
qed

lemma run_compare [run_simps]:
  assumes "terminated b" and "terminated a \<or> length b \<le> length a"
  shows "run e (or_fault (strcmp a b) (\<lambda>r. if r = 0 then A else B)) s =
     (if cstr a = cstr b then run e A s else run e B s)"
proof -
  obtain r where "strcmp a b = Some r" "r = 0 \<longleftrightarrow> cstr a = cstr b"
    using strcmp_total [OF assms] by blast
  then show ?thesis by (auto simp: run_simps)
qed

lemma ok_text_lit [simp]: "ok_text (lit s)"
  by (simp add: ok_text_def)

declare run_or_fault [run_simps del] run.simps(6) [simp del]

section \<open>Names and the list\<close>

lemma msg_buf_ok: "wf_msg m \<Longrightarrow> ok_text (msg_buf m)"
  by (simp add: wf_msg_def ok_text_def)

lemma live_nonempty: "f \<in> live_fds q \<Longrightarrow> client_list q \<noteq> []"
  by (auto simp: live_fds_def)

lemma run_set_name_taken:
  assumes "idle s" and "f \<in> live_fds (queue s)" and "wf_msg msg" and "terminated (msg_buf msg)"
    and "named (msg_buf msg) (queue s) = Some n"
  shows "run e (set_name_handler f msg k) s =
     run e k (emit [(f, set_type MSG_SET_NAME_NACK_TYPE zero_msg)] s)"
  using assms live_nonempty [OF assms(2)] msg_buf_ok [OF assms(3)]
  by (simp add: idle_def set_name_handler_def run_simps queue_simps)

lemma run_set_name_free:
  assumes "idle s" and "f \<in> live_fds (queue s)" and "wf_msg msg" and "terminated (msg_buf msg)"
    and "named (msg_buf msg) (queue s) = None"
  shows "run e (set_name_handler f msg k) s =
     run e k (emit [(f, set_type MSG_SET_NAME_ACK_TYPE zero_msg)]
                (upd_queue (rename f (take 63 (cstr (msg_buf msg)))) s))"
  using assms live_nonempty [OF assms(2)] msg_buf_ok [OF assms(3)]
  by (simp add: idle_def set_name_handler_def run_simps queue_simps) (simp add: upd_queue_def)

lemma run_set_name_overread:
  assumes "\<not> terminated (msg_buf msg)"
  shows "run e (set_name_handler f msg k) s = Undefined s"
  using assms by (simp add: set_name_handler_def run_simps)

lemma run_client_list:
  assumes "idle s" and "f \<in> live_fds (queue s)"
  shows "run e (send_client_list_handler f k) s =
     run e k (emit [(f, text_msg MSG_GET_CLIENT_LIST_TYPE (fitting 0 (names_of (queue s))))] s)"
proof -
  have "f \<noteq> INVALID_FD" using assms invalid_not_live by (auto simp: idle_def)
  moreover have "terminated (mk_buf MAX_MSG_LEN (fitting 0 (names_of (queue s))))"
    using length_fitting [of 0 "names_of (queue s)"] by simp
  ultimately show ?thesis
    using assms live_nonempty [OF assms(2)]
    by (simp add: idle_def send_client_list_handler_def run_simps queue_simps text_msg_def)
qed

section \<open>Declining\<close>

lemma run_decline_no_request:
  assumes "idle s" and "get_client_chatting_status_by_fd f (queue s) \<noteq> CHAT_STATUS_REQ_PENDING"
  shows "run e (handle_decline_conn_request f k) s = run e k s"
  using assms by (simp add: idle_def handle_decline_conn_request_def run_simps)

lemma run_decline_no_partner:
  assumes "idle s" and "get_conn_fd_by_fd f (queue s) = INVALID_FD"
  shows "run e (handle_decline_conn_request f k) s = run e k s"
  using assms by (simp add: idle_def handle_decline_conn_request_def run_simps)

lemma run_decline:
  assumes "idle s" and "get_client_chatting_status_by_fd f (queue s) = CHAT_STATUS_REQ_PENDING"
    and "get_conn_fd_by_fd f (queue s) = g" and "g \<noteq> INVALID_FD"
  shows "run e (handle_decline_conn_request f k) s =
     run e k (emit [(g, text_msg MSG_CLIENT_DECLINE_CONNECTION_ACK (client_name f (queue s)))]
                (upd_queue (put_status f CHAT_STATUS_FREE) s))"
proof -
  have "f \<noteq> INVALID_FD" using assms(2) by (auto simp: get_client_chatting_status_by_fd_def)
  then show ?thesis
    using assms by (simp add: idle_def handle_decline_conn_request_def run_simps text_msg_def)
qed

section \<open>Chat messages\<close>

lemma run_tx_not_busy:
  assumes "idle s" and "get_client_chatting_status_by_fd f (queue s) \<noteq> CHAT_STATUS_BUSY"
  shows "run e (handle_tx_msg f msg k) s = run e k s"
  using assms by (simp add: idle_def handle_tx_msg_def run_simps)

lemma DISCONNECT_CMD_simps [simp]:
  "NUL \<notin> set DISCONNECT_CMD" "length (lit DISCONNECT_CMD) = 11"
  by (simp_all add: DISCONNECT_CMD_def lit_def)

lemma run_tx_no_partner:
  assumes "idle s" and "get_conn_fd_by_fd f (queue s) = INVALID_FD" and "wf_msg msg"
  shows "run e (handle_tx_msg f msg k) s = run e k s"
  using assms by (simp add: idle_def handle_tx_msg_def run_simps wf_msg_def)

lemma run_tx_forward:
  assumes "idle s" and "get_client_chatting_status_by_fd f (queue s) = CHAT_STATUS_BUSY"
    and "get_conn_fd_by_fd f (queue s) = g" and "g \<noteq> INVALID_FD" and "wf_msg msg"
    and "cstr (msg_buf msg) \<noteq> DISCONNECT_CMD"
  shows "run e (handle_tx_msg f msg k) s =
     run e k (emit [(g, set_type MSG_CLIENT_RX_TYPE msg)] s)"
  using assms by (simp add: idle_def handle_tx_msg_def run_simps wf_msg_def)

definition part :: "c_int \<Rightarrow> c_int \<Rightarrow> client_queue \<Rightarrow> client_queue" where
  "part f g q = put_to_fd g INVALID_FD (put_to_fd f INVALID_FD
     (put_status g CHAT_STATUS_FREE (put_status f CHAT_STATUS_FREE q)))"

lemma run_tx_disconnect:
  assumes "idle s" and "get_client_chatting_status_by_fd f (queue s) = CHAT_STATUS_BUSY"
    and "get_conn_fd_by_fd f (queue s) = g" and "g \<noteq> INVALID_FD" and "wf_msg msg"
    and "cstr (msg_buf msg) = DISCONNECT_CMD"
  shows "run e (handle_tx_msg f msg k) s =
     run e k (emit [(g, text_msg MSG_CLIENT_DISCONNECTED (client_name f (queue s)))]
                (upd_queue (part f g) s))"
  using assms
  by (simp add: idle_def handle_tx_msg_def run_simps wf_msg_def text_msg_def part_def [abs_def])

section \<open>Connection requests\<close>

text \<open>The reply echoes the first 64 bytes of the requested name.\<close>

definition echo_msg :: "msg_type_t \<Rightarrow> char list \<Rightarrow> msg_t" where
  "echo_msg t c = set_buf (take MAX_CLIENT_NAME_LEN c @
     replicate (MAX_MSG_LEN - MAX_CLIENT_NAME_LEN) NUL) (set_type t zero_msg)"

lemma memcpy_echo:
  "length c = MAX_MSG_LEN \<Longrightarrow> memcpy (replicate MAX_MSG_LEN NUL) c MAX_CLIENT_NAME_LEN =
     Some (take MAX_CLIENT_NAME_LEN c @ replicate (MAX_MSG_LEN - MAX_CLIENT_NAME_LEN) NUL)"
  by (simp add: memcpy_def)

lemma cstr_echo: "cstr (msg_buf (echo_msg t c)) = take MAX_CLIENT_NAME_LEN (cstr c)"
proof -
  have "cstr (take n c @ replicate m NUL) = take n (cstr c)" for n m
    by (induction c arbitrary: n) (auto simp: take_Cons split: nat.splits)
  then show ?thesis by (simp add: echo_msg_def)
qed

definition propose :: "c_int \<Rightarrow> c_int \<Rightarrow> client_queue \<Rightarrow> client_queue" where
  "propose f g q = put_to_fd g f (put_to_fd f g (put_status g CHAT_STATUS_REQ_PENDING q))"

lemma run_connect_unknown:
  assumes "idle s" and "f \<in> live_fds (queue s)" and "length c = MAX_MSG_LEN" and "terminated c"
    and "named c (queue s) = None"
  shows "run e (handle_chat_connection_request f (Some c) k) s =
     run e k (emit [(f, echo_msg MSG_CLIENT_NOT_EXIST c)] s)"
  using assms live_nonempty [OF assms(2)] invalid_not_live [of "queue s"]
  by (auto simp: idle_def handle_chat_connection_request_def run_simps queue_simps memcpy_echo
      ok_text_def echo_msg_def Let_def)

lemma run_connect_overread:
  assumes "idle s" and "f \<in> live_fds (queue s)" and "length c = MAX_MSG_LEN" and "\<not> terminated c"
    and "named c (queue s) = None"
  shows "run e (handle_chat_connection_request f (Some c) k) s = Undefined s"
  using assms live_nonempty [OF assms(2)] invalid_not_live [of "queue s"]
  by (auto simp: idle_def handle_chat_connection_request_def run_simps queue_simps memcpy_echo
      ok_text_def Let_def)

lemma run_connect_self:
  assumes "idle s" and "f \<in> live_fds (queue s)" and "length c = MAX_MSG_LEN"
    and "named c (queue s) = Some n" and "client_name f (queue s) = cstr c"
  shows "run e (handle_chat_connection_request f (Some c) k) s =
     run e k (emit [(f, echo_msg MSG_ATTEMPT_TO_CONNECT_TO_SELF c)] s)"
  using assms live_nonempty [OF assms(2)] invalid_not_live [of "queue s"]
  by (auto simp: idle_def handle_chat_connection_request_def run_simps queue_simps memcpy_echo
      ok_text_def echo_msg_def Let_def)

text \<open>The answers for a target that cannot be asked.\<close>

lemma run_connect_not_free:
  assumes "idle s" and "f \<in> live_fds (queue s)" and "length c = MAX_MSG_LEN"
    and "named c (queue s) = Some n" and "client_name f (queue s) \<noteq> cstr c"
    and "cl_chat_status n \<noteq> CHAT_STATUS_FREE"
  shows "run e (handle_chat_connection_request f (Some c) k) s =
     run e k (emit [(f, echo_msg (if cl_chat_status n = CHAT_STATUS_BUSY then MSG_CLIENT_BUSY
                                  else MSG_CLIENT_STATUS_REQ_PENDING) c)] s)"
proof -
  have "valid_status (cl_chat_status n)"
    using assms(1,4) named_Some wf_queue_node by (fastforce simp: idle_def wf_node_def)
  then show ?thesis
    using assms live_nonempty [OF assms(2)] invalid_not_live [of "queue s"]
    by (auto simp: idle_def handle_chat_connection_request_def run_simps queue_simps memcpy_echo
        ok_text_def echo_msg_def Let_def valid_status_def)
qed

lemma run_connect_free:
  assumes "idle s" and "f \<in> live_fds (queue s)" and "length c = MAX_MSG_LEN"
    and "named c (queue s) = Some n" and "client_name f (queue s) \<noteq> cstr c"
    and "cl_chat_status n = CHAT_STATUS_FREE"
  shows "run e (handle_chat_connection_request f (Some c) k) s =
     run e k (emit [(cl_fd n, text_msg MSG_CONNECTION_REQ_RX (client_name f (queue s))),
                    (f, echo_msg MSG_CLIENT_FREE c)]
                (upd_queue (propose f (cl_fd n)) s))"
proof -
  have "cl_fd n \<noteq> INVALID_FD"
    using assms(1,4) named_Some wf_queue_node by (fastforce simp: idle_def wf_node_def)
  then show ?thesis
    using assms live_nonempty [OF assms(2)] invalid_not_live [of "queue s"]
    by (auto simp: idle_def handle_chat_connection_request_def run_simps queue_simps memcpy_echo
        ok_text_def echo_msg_def Let_def text_msg_def propose_def [abs_def])
qed

section \<open>Accepting\<close>

text \<open>The early return for a client without a partner leaves the mutex locked.\<close>

lemma run_accept_no_partner:
  assumes "idle s" and "get_conn_fd_by_fd f (queue s) = INVALID_FD"
  shows "run e (handle_conn_accept f msg k) s = run e k (s\<lparr>mutex := True\<rparr>)"
  using assms by (simp add: idle_def handle_conn_accept_def run_simps)

definition leave :: "c_int \<Rightarrow> client_queue \<Rightarrow> client_queue" where
  "leave f q = put_to_fd f INVALID_FD (put_status f CHAT_STATUS_FREE q)"

lemma copy_literal:
  assumes "NUL \<notin> set t" and "length t < MAX_MSG_LEN"
  shows "strcpy (replicate MAX_MSG_LEN NUL) (lit t) = Some (mk_buf MAX_MSG_LEN t)"
  using strcpy_zero_buf [of "lit t" MAX_MSG_LEN] assms by simp

lemma run_accept_gone:
  assumes "idle s" and "get_conn_fd_by_fd f (queue s) = g" and "g \<noteq> INVALID_FD"
    and "client_name g (queue s) = UNDEF_NAME"
  shows "run e (handle_conn_accept f msg k) s =
     run e k (emit [(f, text_msg MSG_CLIENT_NO_MORE_EXIST ''Client_not_exist'')]
                (upd_queue (leave f) s))"
  using assms copy_literal [of "''Client_not_exist''"]
  by (simp add: idle_def handle_conn_accept_def run_simps text_msg_def leave_def [abs_def])

lemma run_accept_partner_busy:
  assumes "idle s" and "get_conn_fd_by_fd f (queue s) = g" and "g \<noteq> INVALID_FD"
    and "client_name g (queue s) \<noteq> UNDEF_NAME"
    and "get_client_chatting_status_by_fd g (queue s) = CHAT_STATUS_BUSY"
  shows "run e (handle_conn_accept f msg k) s =
     run e k (emit [(f, text_msg MSG_CLIENT_NO_MORE_FREE (client_name g (queue s)))]
                (upd_queue (put_status f CHAT_STATUS_FREE) s))"
  using assms by (simp add: idle_def handle_conn_accept_def run_simps text_msg_def)

lemma run_accept_no_request:
  assumes "idle s" and "get_conn_fd_by_fd f (queue s) = g" and "g \<noteq> INVALID_FD"
    and "client_name g (queue s) \<noteq> UNDEF_NAME"
    and "get_client_chatting_status_by_fd g (queue s) \<noteq> CHAT_STATUS_BUSY"
    and "get_client_chatting_status_by_fd f (queue s) \<noteq> CHAT_STATUS_REQ_PENDING"
  shows "run e (handle_conn_accept f msg k) s =
     run e k (emit [(f, text_msg MSG_CLIENT_ACCEPT_CONNECTION_ACK ''SOMETHING_IS_WRONG'')] s)"
  using assms copy_literal [of "''SOMETHING_IS_WRONG''"]
  by (simp add: idle_def handle_conn_accept_def run_simps text_msg_def)

definition join :: "c_int \<Rightarrow> c_int \<Rightarrow> client_queue \<Rightarrow> client_queue" where
  "join f g q = put_to_fd g f (put_to_fd f g
     (put_status g CHAT_STATUS_BUSY (put_status f CHAT_STATUS_BUSY q)))"

lemma join_simps [simp]:
  "client_name h (join f g q) = client_name h q"
  "read_name (join f g q) p = read_name q p"
  "get_client_name_by_fd h (join f g q) = get_client_name_by_fd h q"
  by (simp_all add: join_def)

lemma wf_join: "wf_queue q \<Longrightarrow> wf_queue (join f g q)"
  by (simp add: join_def chat.four_writes)

lemma name_text:
  assumes "wf_queue q"
  shows "\<exists>b r. read_name q (get_client_name_by_fd f q) = Some b \<and>
     strcpy (replicate MAX_MSG_LEN NUL) b = Some (mk_buf MAX_MSG_LEN (client_name f q)) \<and>
     strcmp b (lit UNDEF_NAME) = Some r \<and> (r = 0 \<longleftrightarrow> client_name f q = UNDEF_NAME)"
proof -
  obtain b where b: "read_name q (get_client_name_by_fd f q) = Some b"
    "cstr b = client_name f q" "terminated b"
    using read_client_name [OF assms] by blast
  have "strcpy (replicate MAX_MSG_LEN NUL) b = Some (mk_buf MAX_MSG_LEN (client_name f q))"
    using strcpy_zero_buf [OF b(3), of MAX_MSG_LEN] client_name_props(2) [OF assms, of f] b(2)
    by simp
  moreover obtain r where "strcmp b (lit UNDEF_NAME) = Some r"
    "r = 0 \<longleftrightarrow> cstr b = cstr (lit UNDEF_NAME)"
    using strcmp_total_left [OF b(3), of "lit UNDEF_NAME"] by auto
  ultimately show ?thesis using b by auto
qed

text \<open>
  The names are read again after the four writes. A client that has called itself
  \<^verbatim>\<open>NAME_NOT_DEFINED\<close> is joined like any other, but then nobody is told.
\<close>

lemma run_accept:
  assumes "idle s" and "get_conn_fd_by_fd f (queue s) = g" and "g \<noteq> INVALID_FD"
    and "client_name g (queue s) \<noteq> UNDEF_NAME"
    and "get_client_chatting_status_by_fd g (queue s) \<noteq> CHAT_STATUS_BUSY"
    and "get_client_chatting_status_by_fd f (queue s) = CHAT_STATUS_REQ_PENDING"
  shows "run e (handle_conn_accept f msg k) s =
     run e k (emit (if client_name f (queue s) = UNDEF_NAME then []
         else [(f, text_msg MSG_CLIENT_CHAT_READY (client_name g (queue s))),
               (g, text_msg MSG_CLIENT_ACCEPT_CONNECTION_ACK (client_name f (queue s)))])
       (upd_queue (join f g) s))"
proof -
  have wf: "wf_queue (queue s)" using assms(1) by (simp add: idle_def)
  obtain bf rf where bf: "read_name (queue s) (get_client_name_by_fd f (queue s)) = Some bf"
    "strcpy (replicate MAX_MSG_LEN NUL) bf = Some (mk_buf MAX_MSG_LEN (client_name f (queue s)))"
    "strcmp bf (lit UNDEF_NAME) = Some rf" "rf = 0 \<longleftrightarrow> client_name f (queue s) = UNDEF_NAME"
    using name_text [OF wf] by blast
  obtain bg rg where bg: "read_name (queue s) (get_client_name_by_fd g (queue s)) = Some bg"
    "strcpy (replicate MAX_MSG_LEN NUL) bg = Some (mk_buf MAX_MSG_LEN (client_name g (queue s)))"
    "strcmp bg (lit UNDEF_NAME) = Some rg" "rg = 0 \<longleftrightarrow> client_name g (queue s) = UNDEF_NAME"
    using name_text [OF wf] by blast
  note [simp] = run.simps(6)
  show ?thesis
    using assms bf bg
    by (simp add: idle_def handle_conn_accept_def run_simps text_msg_def join_def [abs_def])
qed

end
