(* ===== verification/Server_Threads.thy ===== *)
theory Server_Threads
  imports Server_Behaviour
begin

text \<open>
  \<^verbatim>\<open>server/lib_src/server_mgmt.c\<close>, the threads: start-up, the accept loop of the main thread,
  the life of a client thread, and \<^verbatim>\<open>main_server.c\<close>. A \<^verbatim>\<open>while\<close> loop is one program
  per iteration, whose result says whether the loop goes round again; \<^verbatim>\<open>sleep\<close> is left out.
\<close>

section \<open>Start-up\<close>

text \<open>
  The answers of the calls of \<^verbatim>\<open>init_srv\<close>: the socket, \<^verbatim>\<open>bind\<close>,
  \<^verbatim>\<open>listen\<close> and \<^verbatim>\<open>pthread_mutex_init\<close>; those of the signal and option calls are
  ignored by the code. The result is the code and \<^verbatim>\<open>server_fd\<close>.
\<close>

definition init_srv :: "c_int \<Rightarrow> int \<Rightarrow> int \<Rightarrow> int \<Rightarrow> srv_err_type \<times> c_int" where
  "init_srv socket_ret bind_ret listen_ret mutex_ret =
     (let server_fd = socket_ret in
      if INVALID_FD = server_fd then (ERR_LIB_INIT, server_fd)
      else if - 1 = bind_ret then (ERR_LIB_INIT, server_fd)
      else if - 1 = listen_ret then (ERR_LIB_INIT, server_fd)
      else if mutex_ret \<noteq> 0 then (ERR_LIB_INIT, server_fd)
      else (SERVER_SUCC, server_fd))"

text \<open>The handler's effect on \<^verbatim>\<open>server_terminate\<close>; \<^verbatim>\<open>SIGINT\<close> is 2.\<close>

definition sig_int_handler :: "int \<Rightarrow> bool \<Rightarrow> bool" where
  "sig_int_handler sig server_terminate = (if 2 = sig then True else server_terminate)"

section \<open>A client's thread\<close>

datatype loop_ctl = Again | Leave srv_err_type

text \<open>
  From the entry of \<^verbatim>\<open>client_thread\<close> to its loop. A failed handshake ends the thread and
  leaves its node in the list and its socket open.
\<close>

definition client_thread_start :: "c_int \<Rightarrow> loop_ctl prog" where
  "client_thread_start my_socket =
     Lock (
     Malloc (\<lambda>m.
     Self (\<lambda>self.
     call_opt (add_client_node_to_queue m self (Some my_socket)) (\<lambda>ret_val.
     if ret_val \<noteq> SERVER_QUEUE_SUCC then
       send_msg_to_fd my_socket (set_type MSG_MAX_CLIENT_REACHED zero_msg) (\<lambda>_.
       Unlock (Ret (Leave ERR_ADD_NODE_FAILED)))
     else
       Unlock (
       send_conn_establish_msg my_socket (\<lambda>err.
       if SERVER_SUCC \<noteq> err then Ret (Leave err) else Ret Again))))))"

text \<open>The branch for a closed connection.\<close>

definition client_closed_conn :: "c_int \<Rightarrow> 'a prog \<Rightarrow> 'a prog" where
  "client_closed_conn my_socket k =
     Lock (
     query (get_conn_fd_by_fd my_socket) (\<lambda>conn_fd.
     let finish =
       call (remove_client_node_from_queue_by_fd my_socket) (\<lambda>qret.
       Unlock k)
     in
     if INVALID_FD \<noteq> conn_fd then
       query (get_client_chatting_status_by_fd conn_fd) (\<lambda>st.
       if CHAT_STATUS_FREE \<noteq> st then
         call (set_client_chatting_status_by_fd conn_fd CHAT_STATUS_FREE) (\<lambda>_.
         call (set_to_fd_by_fd my_socket INVALID_FD) (\<lambda>_.
         query (get_client_name_by_fd my_socket) (\<lambda>np.
         Read_Name np (\<lambda>nm.
         or_fault (strcpy (msg_buf zero_msg) nm) (\<lambda>b.
         send_msg_to_fd conn_fd (set_buf b (set_type MSG_CLIENT_TERMINATION zero_msg)) (\<lambda>_.
         finish))))))
       else finish)
     else finish))"

text \<open>One iteration of the loop.\<close>

definition client_thread_loop :: "c_int \<Rightarrow> loop_ctl prog" where
  "client_thread_loop my_socket =
     Terminating (\<lambda>server_terminate.
     if server_terminate then Ret (Leave SERVER_TERMINATE_DETECTED)
     else
       wait_to_recv_something my_socket (Some zero_msg) (\<lambda>ret rx_msg.
       if ret = SERVER_SUCC then handle_rx_msg rx_msg my_socket (Ret Again)
       else if ret = ERR_CLIENT_CLOSED_CONN then
         client_closed_conn my_socket (Ret (Leave ERR_CLIENT_CLOSED_CONN))
       else Ret Again))"

section \<open>The main thread\<close>

text \<open>
  One iteration of the accept loop. A connection above the limit gets a message and is not closed.
\<close>

definition accept_loop :: "loop_ctl prog" where
  "accept_loop =
     Terminating (\<lambda>server_terminate.
     if server_terminate then Ret (Leave SERVER_TERMINATE_DETECTED)
     else
       Accept (\<lambda>r.
         case r of
           Accept_Error eintr \<Rightarrow>
             if eintr then
               Terminating (\<lambda>t. if t then Ret (Leave SERVER_TERMINATE_DETECTED) else Ret Again)
             else Ret Again
         | Accept_Fd socket_fd \<Rightarrow>
             Lock (
             query total_available_clients (\<lambda>temp_client_count.
             Unlock (
             if temp_client_count < MAX_CLIENT then
               Malloc (\<lambda>new_socket.
               if new_socket = None then Ret Again
               else
                 Create_Thread socket_fd (\<lambda>failed.
                 if failed then Ret (Leave ERR_THREAD_CREATE) else Ret Again))
             else
               send_msg_to_fd socket_fd (set_type MSG_MAX_CLIENT_REACHED zero_msg) (\<lambda>_.
               Ret Again))))))"

text \<open>After the loop; neither step takes the mutex.\<close>

primrec join_threads :: "tid list \<Rightarrow> 'a prog \<Rightarrow> 'a prog" where
  "join_threads [] k = k"
| "join_threads (t # ts) k = Join t (join_threads ts k)"

definition server_shutdown :: "srv_err_type prog" where
  "server_shutdown =
     query join_all_client_threads (\<lambda>ts.
     join_threads ts (
     call (\<lambda>q. ((), free_all_client_nodes q)) (\<lambda>_.
     Ret SERVER_TERMINATE_DETECTED)))"

text \<open>
  \<^verbatim>\<open>wait_for_client_conn_and_accept\<close> with at most \<open>n\<close> rounds of its loop (\<open>None\<close>: not
  finished). A failed \<^verbatim>\<open>pthread_create\<close> returns at once; the other exits shut down.
\<close>

fun wait_for_client_conn_and_accept :: "nat \<Rightarrow> env \<Rightarrow> srv \<Rightarrow> srv_err_type outcome option" where
  "wait_for_client_conn_and_accept 0 e s = None"
| "wait_for_client_conn_and_accept (Suc n) e s =
     (case run e accept_loop s of
        Done Again s' \<Rightarrow> wait_for_client_conn_and_accept n e s'
      | Done (Leave err) s' \<Rightarrow>
          if err = ERR_THREAD_CREATE then Some (Done err s') else Some (run e server_shutdown s')
      | Deadlock s' \<Rightarrow> Some (Deadlock s')
      | Undefined s' \<Rightarrow> Some (Undefined s'))"

text \<open>\<^verbatim>\<open>main\<close>: its exit status.\<close>

definition main_server :: "srv_err_type \<Rightarrow> int" where
  "main_server init_ret = (if init_ret \<noteq> SERVER_SUCC then - 1 else 0)"

section \<open>Behaviour of a client's thread\<close>

lemma zero_msg_recv [simp]: "wf_msg m \<Longrightarrow> length (encode_msg m) = 520"
  using length_encode_msg [of m] by (simp add: sizeof_msg_def)

lemma id_text: "sprintf (replicate MAX_MSG_LEN NUL) SERVER_UNIQUEUE_ID =
    Some (mk_buf MAX_MSG_LEN SERVER_UNIQUEUE_ID)"
  by (rule sprintf_replicate) (simp_all add: SERVER_UNIQUEUE_ID_def)

text \<open>
  The handshake: the identification goes out, and the thread enters its loop exactly when all of
  it was taken and a whole message of the acknowledging type came back.
\<close>

definition handshake_ok :: "env \<Rightarrow> nat \<Rightarrow> bool" where
  "handshake_ok e t \<longleftrightarrow> env_send e t = 520 \<and>
     (\<exists>bs. env_recv e (Suc t) = Recv_Bytes bs \<and> length bs = 520 \<and>
           msg_type (recv_into zero_msg bs) = MSG_CONN_ESTABLISH_ACK)"

lemma run_send_conn_establish:
  "\<exists>s'. run e (send_conn_establish_msg f k) s =
       run e (k (if handshake_ok e (clock s) then SERVER_SUCC else ERR_CONN_EST)) s'
     \<and> mutex s' = mutex s \<and> queue s' = queue s
     \<and> sent s' = sent s @ [(f, text_msg MSG_CONN_ESTABLISH_REQ SERVER_UNIQUEUE_ID)]"
proof (cases "env_send e (clock s) = 520")
  case False
  then show ?thesis
    by (intro exI [of _ "emit [(f, text_msg MSG_CONN_ESTABLISH_REQ SERVER_UNIQUEUE_ID)] s"])
       (simp add: send_conn_establish_msg_def id_text run_simps handshake_ok_def text_msg_def)
next
  case True
  then show ?thesis
    by (intro exI [of _ "tick (emit [(f, text_msg MSG_CONN_ESTABLISH_REQ SERVER_UNIQUEUE_ID)] s)"])
       (simp add: send_conn_establish_msg_def id_text run_simps handshake_ok_def text_msg_def
         sizeof_msg_def emit_def split: recv_result.split)
qed

definition end_chat :: "c_int \<Rightarrow> c_int \<Rightarrow> client_queue \<Rightarrow> client_queue" where
  "end_chat f g q = put_to_fd f INVALID_FD (put_status g CHAT_STATUS_FREE q)"

abbreviation drop_client :: "c_int \<Rightarrow> client_queue \<Rightarrow> client_queue" where
  "drop_client f q \<equiv> snd (remove_client_node_from_queue_by_fd f q)"

lemma run_closed_alone:
  assumes "idle s"
    and "get_conn_fd_by_fd f (queue s) = INVALID_FD \<or>
         get_client_chatting_status_by_fd (get_conn_fd_by_fd f (queue s)) (queue s) = CHAT_STATUS_FREE"
  shows "run e (client_closed_conn f k) s = run e k (upd_queue (drop_client f) s)"
  using assms by (auto simp: idle_def client_closed_conn_def run_simps Let_def)

lemma run_closed_partner:
  assumes "idle s" and "get_conn_fd_by_fd f (queue s) = g" and "g \<noteq> INVALID_FD"
    and "get_client_chatting_status_by_fd g (queue s) \<noteq> CHAT_STATUS_FREE"
  shows "run e (client_closed_conn f k) s =
     run e k (emit [(g, text_msg MSG_CLIENT_TERMINATION (client_name f (queue s)))]
                (upd_queue (\<lambda>q. drop_client f (end_chat f g q)) s))"
  using assms
  by (simp add: idle_def client_closed_conn_def run_simps Let_def text_msg_def end_chat_def)

end
