(* ===== verification/Chat_Links.thy ===== *)
theory Chat_Links
  imports Queue_Facts
begin

text \<open>
  The links between clients: the status and the partner of each, as an interface over any state
  that keeps the two fields, and the property that makes a chat a chat: a busy client's partner is
  busy with it. The effect of each request on the links is proved once, inside the locale.
\<close>

section \<open>Pairing\<close>

text \<open>A busy client is somebody else's partner, who is busy with it.\<close>

definition paired ::
  "(c_int \<Rightarrow> 's \<Rightarrow> client_chat_status_t) \<Rightarrow> (c_int \<Rightarrow> 's \<Rightarrow> c_int) \<Rightarrow> 's \<Rightarrow> bool" where
  "paired st pt x \<longleftrightarrow>
     (\<forall>f. st f x = CHAT_STATUS_BUSY \<longrightarrow>
        pt f x \<noteq> f \<and> st (pt f x) x = CHAT_STATUS_BUSY \<and> pt (pt f x) x = f)"

definition no_self_link :: "('s \<Rightarrow> c_int set) \<Rightarrow> (c_int \<Rightarrow> 's \<Rightarrow> c_int) \<Rightarrow> 's \<Rightarrow> bool" where
  "no_self_link live pt x \<longleftrightarrow> (\<forall>f \<in> live x. pt f x \<noteq> f)"

locale chat_links = two_fd_fields wf live st put_st valid_status pt put_pt "\<lambda>_. True"
  for wf :: "'s \<Rightarrow> bool" and live and st and put_st
    and pt :: "c_int \<Rightarrow> 's \<Rightarrow> c_int" and put_pt +
  fixes del :: "c_int \<Rightarrow> 's \<Rightarrow> 's"
  assumes st_absent: "f \<notin> live x \<Longrightarrow> st f x = CHAT_STATUS_CLIENT_NOT_FOUND"
    and invalid_absent: "wf x \<Longrightarrow> INVALID_FD \<notin> live x"
    and st_del: "wf x \<Longrightarrow> st g (del f x) = (if g = f then CHAT_STATUS_CLIENT_NOT_FOUND else st g x)"
    and pt_del: "wf x \<Longrightarrow> g \<noteq> f \<Longrightarrow> pt g (del f x) = pt g x"
    and live_del: "wf x \<Longrightarrow> live (del f x) = live x - {f}"
begin

lemma busy_live: "st f x = CHAT_STATUS_BUSY \<Longrightarrow> f \<in> live x"
  using st_absent [of f x] by auto

lemma pairedD:
  "paired st pt x \<Longrightarrow> st f x = CHAT_STATUS_BUSY \<Longrightarrow>
     pt f x \<noteq> f \<and> st (pt f x) x = CHAT_STATUS_BUSY \<and> pt (pt f x) x = f"
  by (simp add: paired_def)

lemma paired_set_idle:
  assumes "wf x" and "paired st pt x" and "st f x \<noteq> CHAT_STATUS_BUSY"
    and "valid_status c" and "c \<noteq> CHAT_STATUS_BUSY"
  shows "paired st pt (put_st f c x)"
  using assms by (auto simp: paired_def put_simps)

lemma paired_relink_idle:
  assumes "wf x" and "paired st pt x" and "st f x \<noteq> CHAT_STATUS_BUSY"
  shows "paired st pt (put_pt f t x)"
  using assms by (auto simp: paired_def put_simps)

lemma paired_propose:
  assumes "wf x" and "paired st pt x" and "st f x \<noteq> CHAT_STATUS_BUSY" and "st g x \<noteq> CHAT_STATUS_BUSY"
  shows "paired st pt (put_pt g f (put_pt f g (put_st g CHAT_STATUS_REQ_PENDING x)))"
  using assms
  by (intro paired_relink_idle paired_set_idle) (auto simp: put_simps)

lemma paired_join:
  assumes "wf x" and "paired st pt x" and "st f x \<noteq> CHAT_STATUS_BUSY" and "st g x \<noteq> CHAT_STATUS_BUSY"
    and "f \<in> live x" and "g \<in> live x" and "f \<noteq> g"
  shows "paired st pt (put_pt g f (put_pt f g (put_st g CHAT_STATUS_BUSY (put_st f CHAT_STATUS_BUSY x))))"
  using assms by (simp add: paired_def four_writes) metis

lemma paired_part:
  assumes "wf x" and "paired st pt x" and "st f x = CHAT_STATUS_BUSY" and "g = pt f x"
  shows "paired st pt (put_pt g INVALID_FD (put_pt f INVALID_FD
     (put_st g CHAT_STATUS_FREE (put_st f CHAT_STATUS_FREE x))))"
proof -
  have g: "g \<noteq> f" "st g x = CHAT_STATUS_BUSY" "pt g x = f"
    using pairedD [OF assms(2,3)] assms(4) by auto
  then have "f \<in> live x" "g \<in> live x" using busy_live assms(3) by auto
  then show ?thesis
    using assms g by (simp add: paired_def four_writes) metis
qed

lemma paired_leave:
  assumes "wf x" and "paired st pt x" and "st f x \<noteq> CHAT_STATUS_BUSY"
  shows "paired st pt (put_pt f INVALID_FD (put_st f CHAT_STATUS_FREE x))"
  using assms by (intro paired_relink_idle paired_set_idle) (auto simp: put_simps)

lemma paired_del:
  assumes "wf x" and "paired st pt x" and "st f x \<noteq> CHAT_STATUS_BUSY"
  shows "paired st pt (del f x)"
  unfolding paired_def
proof (intro allI impI)
  fix h
  assume "st h (del f x) = CHAT_STATUS_BUSY"
  then have h: "h \<noteq> f" "st h x = CHAT_STATUS_BUSY"
    using st_del [OF assms(1)] by (auto split: if_splits)
  note p = pairedD [OF assms(2) h(2)]
  then have "pt h x \<noteq> f" using assms(3) by auto
  then show "pt h (del f x) \<noteq> h \<and> st (pt h (del f x)) (del f x) = CHAT_STATUS_BUSY \<and>
      pt (pt h (del f x)) (del f x) = h"
    using p h by (simp add: st_del [OF assms(1)] pt_del [OF assms(1)])
qed

text \<open>
  Closing the connection of \<open>f\<close>, whose partner \<open>g\<close> is set free: good if \<open>f\<close> was in the chat or
  \<open>g\<close> was not; a busy \<open>g\<close> whose chat is with somebody else is torn out of it.
\<close>

lemma paired_close:
  assumes "wf x" and "paired st pt x" and "g = pt f x"
    and "st f x = CHAT_STATUS_BUSY \<or> st g x \<noteq> CHAT_STATUS_BUSY"
  shows "paired st pt (del f (put_st g CHAT_STATUS_FREE x))"
proof (cases "st f x = CHAT_STATUS_BUSY")
  case False
  then have "paired st pt (put_st g CHAT_STATUS_FREE x)"
    using assms by (intro paired_set_idle) auto
  then show ?thesis
    using assms(1) False by (intro paired_del) (auto simp: put_simps)
next
  case True
  have g: "g \<noteq> f" "st g x = CHAT_STATUS_BUSY" "pt g x = f"
    using pairedD [OF assms(2) True] assms(3) by auto
  let ?y = "put_st g CHAT_STATUS_FREE x"
  have wf: "wf ?y" using assms(1) by (simp add: a.wf_put)
  show ?thesis
    unfolding paired_def
  proof (intro allI impI)
    fix h
    assume "st h (del f ?y) = CHAT_STATUS_BUSY"
    then have h: "h \<noteq> f" "h \<noteq> g" "st h x = CHAT_STATUS_BUSY"
      using busy_live [OF g(2)] assms(1)
      by (auto simp: st_del [OF wf] put_simps split: if_splits)
    note p = pairedD [OF assms(2) h(3)]
    have "pt h x \<noteq> f" using p h(2) assms(3) by auto
    moreover have "pt h x \<noteq> g" using p h(1) g(3) by auto
    ultimately show "pt h (del f ?y) \<noteq> h \<and> st (pt h (del f ?y)) (del f ?y) = CHAT_STATUS_BUSY \<and>
        pt (pt h (del f ?y)) (del f ?y) = h"
      using p h assms(1) by (simp add: st_del [OF wf] pt_del [OF wf] put_simps)
  qed
qed

lemma no_self_link_put_st: "no_self_link live pt (put_st f c x) \<longleftrightarrow> no_self_link live pt x"
  by (simp add: no_self_link_def a.live_put get2_put1)

lemma no_self_link_put_pt:
  "wf x \<Longrightarrow> no_self_link live pt x \<Longrightarrow> f \<noteq> t \<Longrightarrow> no_self_link live pt (put_pt f t x)"
  by (auto simp: no_self_link_def put_simps)

lemma no_self_link_del: "wf x \<Longrightarrow> no_self_link live pt x \<Longrightarrow> no_self_link live pt (del f x)"
  by (auto simp: no_self_link_def live_del pt_del)

lemma no_self_link_unlink:
  "wf x \<Longrightarrow> no_self_link live pt x \<Longrightarrow> no_self_link live pt (put_pt f INVALID_FD x)"
  using invalid_absent [of x] b.put_absent [of f x]
  by (cases "f = INVALID_FD") (auto intro: no_self_link_put_pt)

end

section \<open>The links in the client list\<close>

lemma node_by_fd_drop:
  assumes "wf_queue q"
  shows "node_by_fd g (client_list (snd (remove_client_node_from_queue_by_fd f q))) =
     (if g = f then None else node_by_fd g (client_list q))"
proof (cases "node_by_fd f (client_list q)")
  case None
  then show ?thesis by (simp add: snd_remove_absent node_by_fd_None [symmetric])
next
  case (Some n)
  have "distinct (map cl_fd (client_list q))" using assms by (simp add: wf_queue_def)
  then have "node_by_fd f (remove1_by (\<lambda>n. cl_fd n = f) (client_list q)) = None"
    unfolding node_by_fd_def by (rule find_remove1_by_same)
  moreover have "g \<noteq> f \<Longrightarrow> node_by_fd g (remove1_by (\<lambda>n. cl_fd n = f) (client_list q)) =
      node_by_fd g (client_list q)"
    unfolding node_by_fd_def by (rule find_remove1_by_other) auto
  ultimately show ?thesis
    using remove_eq [OF assms Some] by (simp add: release_node_def)
qed

interpretation links: chat_links wf_queue live_fds
  get_client_chatting_status_by_fd put_status get_conn_fd_by_fd put_to_fd
  "\<lambda>f q. snd (remove_client_node_from_queue_by_fd f q)"
proof
  fix f g x
  show "f \<notin> live_fds x \<Longrightarrow> get_client_chatting_status_by_fd f x = CHAT_STATUS_CLIENT_NOT_FOUND"
    by simp
  show "wf_queue x \<Longrightarrow> INVALID_FD \<notin> live_fds x" by (rule invalid_not_live)
  show "wf_queue x \<Longrightarrow>
      get_client_chatting_status_by_fd g (snd (remove_client_node_from_queue_by_fd f x)) =
      (if g = f then CHAT_STATUS_CLIENT_NOT_FOUND else get_client_chatting_status_by_fd g x)"
    by (simp add: get_client_chatting_status_by_fd_def node_by_fd_drop)
  show "wf_queue x \<Longrightarrow> g \<noteq> f \<Longrightarrow>
      get_conn_fd_by_fd g (snd (remove_client_node_from_queue_by_fd f x)) = get_conn_fd_by_fd g x"
    by (simp add: get_conn_fd_by_fd_def node_by_fd_drop)
  show "wf_queue x \<Longrightarrow> live_fds (snd (remove_client_node_from_queue_by_fd f x)) = live_fds x - {f}"
    by (rule live_fds_remove)
qed

end
