(* ===== verification/Server_Spec.thy ===== *)
theory Server_Spec
  imports Server_Threads Chat_Links
begin

text \<open>
  What the server promises, without locks, pointers, buffers or bytes: a registry of named clients
  and, for each request, the next registry and the messages to send; and the proof that the
  handlers implement it.
\<close>

section \<open>The registry\<close>

record entry =
  e_name :: string
  e_status :: client_chat_status_t
  e_partner :: c_int

type_synonym registry = "(c_int \<times> entry) list"
type_synonym reply = "c_int \<times> msg_type_t \<times> string"

definition entry_of :: "client_node_t \<Rightarrow> entry" where
  "entry_of n = \<lparr>e_name = cstr (cl_name n), e_status = cl_chat_status n, e_partner = cl_to_fd n\<rparr>"

definition abs_queue :: "client_queue \<Rightarrow> registry" where
  "abs_queue q = map (\<lambda>n. (cl_fd n, entry_of n)) (client_list q)"

definition abs_msg :: "c_int \<times> msg_t \<Rightarrow> reply" where
  "abs_msg fm = (fst fm, msg_type (snd fm), cstr (msg_buf (snd fm)))"

text \<open>Lookups with the answers the code gives for a descriptor nobody has.\<close>

definition reg_name :: "registry \<Rightarrow> c_int \<Rightarrow> string" where
  "reg_name r f = (case map_of r f of None \<Rightarrow> UNDEF_NAME | Some x \<Rightarrow> e_name x)"

definition reg_status :: "registry \<Rightarrow> c_int \<Rightarrow> client_chat_status_t" where
  "reg_status r f = (case map_of r f of None \<Rightarrow> CHAT_STATUS_CLIENT_NOT_FOUND | Some x \<Rightarrow> e_status x)"

definition reg_partner :: "registry \<Rightarrow> c_int \<Rightarrow> c_int" where
  "reg_partner r f = (case map_of r f of None \<Rightarrow> INVALID_FD | Some x \<Rightarrow> e_partner x)"

definition reg_find :: "registry \<Rightarrow> string \<Rightarrow> c_int option" where
  "reg_find r t = map_option fst (find (\<lambda>(f, x). e_name x = t) r)"

definition reg_map :: "c_int \<Rightarrow> (entry \<Rightarrow> entry) \<Rightarrow> registry \<Rightarrow> registry" where
  "reg_map f g r = map (\<lambda>(h, x). (h, if h = f then g x else x)) r"

definition reg_set :: "c_int \<Rightarrow> client_chat_status_t \<Rightarrow> registry \<Rightarrow> registry" where
  "reg_set f c = reg_map f (\<lambda>x. x\<lparr>e_status := c\<rparr>)"

definition reg_link :: "c_int \<Rightarrow> c_int \<Rightarrow> registry \<Rightarrow> registry" where
  "reg_link f t = reg_map f (\<lambda>x. x\<lparr>e_partner := t\<rparr>)"

definition reg_list :: "registry \<Rightarrow> string" where
  "reg_list r = fitting 0 (map (e_name \<circ> snd) r)"

section \<open>The requests\<close>

definition serve_set_name :: "registry \<Rightarrow> c_int \<Rightarrow> string \<Rightarrow> registry \<times> reply list" where
  "serve_set_name r f t =
     (if reg_find r t \<noteq> None then (r, [(f, MSG_SET_NAME_NACK_TYPE, [])])
      else (reg_map f (\<lambda>x. x\<lparr>e_name := take 63 t\<rparr>) r, [(f, MSG_SET_NAME_ACK_TYPE, [])]))"

definition serve_connect :: "registry \<Rightarrow> c_int \<Rightarrow> string \<Rightarrow> registry \<times> reply list" where
  "serve_connect r f t =
     (case reg_find r t of
        None \<Rightarrow> (r, [(f, MSG_CLIENT_NOT_EXIST, take 64 t)])
      | Some g \<Rightarrow>
          if reg_name r f = t then (r, [(f, MSG_ATTEMPT_TO_CONNECT_TO_SELF, take 64 t)])
          else if reg_status r g = CHAT_STATUS_FREE then
            (reg_link g f (reg_link f g (reg_set g CHAT_STATUS_REQ_PENDING r)),
             [(g, MSG_CONNECTION_REQ_RX, reg_name r f), (f, MSG_CLIENT_FREE, take 64 t)])
          else if reg_status r g = CHAT_STATUS_BUSY then (r, [(f, MSG_CLIENT_BUSY, take 64 t)])
          else (r, [(f, MSG_CLIENT_STATUS_REQ_PENDING, take 64 t)]))"

definition serve_decline :: "registry \<Rightarrow> c_int \<Rightarrow> registry \<times> reply list" where
  "serve_decline r f =
     (if reg_status r f = CHAT_STATUS_REQ_PENDING \<and> reg_partner r f \<noteq> INVALID_FD then
        (reg_set f CHAT_STATUS_FREE r,
         [(reg_partner r f, MSG_CLIENT_DECLINE_CONNECTION_ACK, reg_name r f)])
      else (r, []))"

definition serve_tx :: "registry \<Rightarrow> c_int \<Rightarrow> string \<Rightarrow> registry \<times> reply list" where
  "serve_tx r f t =
     (let g = reg_partner r f in
      if reg_status r f \<noteq> CHAT_STATUS_BUSY \<or> g = INVALID_FD then (r, [])
      else if t = DISCONNECT_CMD then
        (reg_link g INVALID_FD (reg_link f INVALID_FD
           (reg_set g CHAT_STATUS_FREE (reg_set f CHAT_STATUS_FREE r))),
         [(g, MSG_CLIENT_DISCONNECTED, reg_name r f)])
      else (r, [(g, MSG_CLIENT_RX_TYPE, t)]))"

text \<open>\<open>None\<close>: the request is answered by nobody, now or later, because the mutex stays locked.\<close>

definition serve_accept :: "registry \<Rightarrow> c_int \<Rightarrow> (registry \<times> reply list) option" where
  "serve_accept r f =
     (let g = reg_partner r f in
      if g = INVALID_FD then None
      else if reg_name r g = UNDEF_NAME then
        Some (reg_link f INVALID_FD (reg_set f CHAT_STATUS_FREE r),
              [(f, MSG_CLIENT_NO_MORE_EXIST, ''Client_not_exist'')])
      else if reg_status r g = CHAT_STATUS_BUSY then
        Some (reg_set f CHAT_STATUS_FREE r, [(f, MSG_CLIENT_NO_MORE_FREE, reg_name r g)])
      else if reg_status r f \<noteq> CHAT_STATUS_REQ_PENDING then
        Some (r, [(f, MSG_CLIENT_ACCEPT_CONNECTION_ACK, ''SOMETHING_IS_WRONG'')])
      else
        Some (reg_link g f (reg_link f g (reg_set g CHAT_STATUS_BUSY (reg_set f CHAT_STATUS_BUSY r))),
              if reg_name r f = UNDEF_NAME then []
              else [(f, MSG_CLIENT_CHAT_READY, reg_name r g),
                    (g, MSG_CLIENT_ACCEPT_CONNECTION_ACK, reg_name r f)]))"

definition serve :: "registry \<Rightarrow> c_int \<Rightarrow> msg_type_t \<Rightarrow> string \<Rightarrow> (registry \<times> reply list) option" where
  "serve r f ty t =
     (case ty of
        MSG_SET_NAME_REQ_TYPE \<Rightarrow> Some (serve_set_name r f t)
      | MSG_GET_CLIENT_LIST_TYPE \<Rightarrow> Some (r, [(f, MSG_GET_CLIENT_LIST_TYPE, reg_list r)])
      | MSG_CONNECT_TO_CLIENT \<Rightarrow> Some (serve_connect r f t)
      | MSG_CLIENT_ACCEPT_CONNECTION \<Rightarrow> serve_accept r f
      | MSG_CLIENT_TX_TYPE \<Rightarrow> Some (serve_tx r f t)
      | MSG_CLIENT_DECLINE_CONNECTION \<Rightarrow> Some (serve_decline r f)
      | _ \<Rightarrow> Some (r, []))"

text \<open>A closed connection.\<close>

definition reg_remove :: "c_int \<Rightarrow> registry \<Rightarrow> registry" where
  "reg_remove f r = filter (\<lambda>(h, x). h \<noteq> f) r"

definition serve_close :: "registry \<Rightarrow> c_int \<Rightarrow> registry \<times> reply list" where
  "serve_close r f =
     (let g = reg_partner r f in
      if g = INVALID_FD \<or> reg_status r g = CHAT_STATUS_FREE then (reg_remove f r, [])
      else (reg_remove f (reg_set g CHAT_STATUS_FREE r),
            [(g, MSG_CLIENT_TERMINATION, reg_name r f)]))"

section \<open>The abstraction commutes with the operations\<close>

lemma map_of_abs: "map_of (abs_queue q) f = map_option entry_of (node_by_fd f (client_list q))"
proof -
  have "map_of (map (\<lambda>n. (cl_fd n, entry_of n)) ns) f =
      map_option entry_of (find (\<lambda>n. cl_fd n = f) ns)" for ns
    by (induction ns) auto
  then show ?thesis by (simp add: abs_queue_def node_by_fd_def)
qed

lemma reg_status_abs:
  "wf_queue q \<Longrightarrow> reg_status (abs_queue q) f = get_client_chatting_status_by_fd f q"
  using invalid_not_live [of q] node_by_fd_None [of INVALID_FD q]
  by (auto simp: reg_status_def map_of_abs get_client_chatting_status_by_fd_def entry_of_def
      split: option.splits)

lemma reg_partner_abs: "wf_queue q \<Longrightarrow> reg_partner (abs_queue q) f = get_conn_fd_by_fd f q"
  using invalid_not_live [of q] node_by_fd_None [of INVALID_FD q]
  by (auto simp: reg_partner_def map_of_abs get_conn_fd_by_fd_def entry_of_def split: option.splits)

lemma reg_name_abs: "reg_name (abs_queue q) f = client_name f q"
  by (auto simp: reg_name_def map_of_abs client_name_def name_of_def entry_of_def
      split: option.splits)

lemma reg_find_abs: "reg_find (abs_queue q) (cstr c) = map_option cl_fd (named c q)"
proof -
  have "map_option fst (find (\<lambda>(f, x). e_name x = t) (map (\<lambda>n. (cl_fd n, entry_of n)) ns)) =
      map_option cl_fd (find (\<lambda>n. cstr (cl_name n) = t) ns)" for t ns
    by (induction ns) (auto simp: entry_of_def)
  then show ?thesis by (simp add: reg_find_def abs_queue_def named_def)
qed

lemma reg_list_abs: "reg_list (abs_queue q) = fitting 0 (names_of q)"
  by (simp add: reg_list_def abs_queue_def names_of_def comp_def entry_of_def)

lemma abs_write_node:
  assumes "wf_queue q" and "\<And>n. cl_fd (u n) = cl_fd n" and "\<And>n. entry_of (u n) = g (entry_of n)"
  shows "abs_queue (write_node f u q) = reg_map f g (abs_queue q)"
proof -
  have "map (\<lambda>n. (cl_fd n, entry_of n)) (upd_first (\<lambda>n. cl_fd n = f) u ns) =
      map (\<lambda>n. (cl_fd n, if cl_fd n = f then g (entry_of n) else entry_of n)) ns"
    if "distinct (map cl_fd ns)" for ns
    using that assms(2,3) by (induction ns) (auto simp: image_iff)
  then show ?thesis
    using assms(1) by (simp add: abs_queue_def reg_map_def write_node_def wf_queue_def comp_def)
qed

lemma reg_map_absent: "f \<notin> live_fds q \<Longrightarrow> reg_map f g (abs_queue q) = abs_queue q"
  by (auto simp: reg_map_def abs_queue_def live_fds_def intro!: map_cong)

lemma abs_put_status:
  "wf_queue q \<Longrightarrow> valid_status c \<Longrightarrow> abs_queue (put_status f c q) = reg_set f c (abs_queue q)"
  using reg_map_absent [of INVALID_FD q] invalid_not_live [of q]
  by (auto simp: put_status_eq reg_set_def valid_status_not_max entry_of_def
      intro!: abs_write_node)

lemma abs_put_to_fd: "wf_queue q \<Longrightarrow> abs_queue (put_to_fd f t q) = reg_link f t (abs_queue q)"
  using reg_map_absent [of INVALID_FD q] invalid_not_live [of q]
  by (auto simp: put_to_fd_eq reg_link_def entry_of_def intro!: abs_write_node)

lemma abs_rename:
  "wf_queue q \<Longrightarrow> NUL \<notin> set t \<Longrightarrow>
     abs_queue (rename f t q) = reg_map f (\<lambda>x. x\<lparr>e_name := t\<rparr>) (abs_queue q)"
  unfolding rename_def by (rule abs_write_node) (simp_all add: entry_of_def)

lemma abs_drop_client:
  assumes "wf_queue q"
  shows "abs_queue (drop_client f q) = reg_remove f (abs_queue q)"
proof (cases "node_by_fd f (client_list q)")
  case None
  then have "f \<notin> live_fds q" by (simp add: node_by_fd_None)
  then show ?thesis
    by (auto simp: snd_remove_absent reg_remove_def abs_queue_def live_fds_def
        intro!: filter_True [symmetric])
next
  case (Some n)
  have "map (\<lambda>n. (cl_fd n, entry_of n)) (remove1_by (\<lambda>n. cl_fd n = f) ns) =
      filter (\<lambda>(h, x). h \<noteq> f) (map (\<lambda>n. (cl_fd n, entry_of n)) ns)"
    if "distinct (map cl_fd ns)" for ns
    using that by (induction ns) (auto simp: image_iff intro!: filter_True [symmetric])
  then show ?thesis
    using assms Some by (simp add: remove_eq abs_queue_def reg_remove_def release_node_def wf_queue_def)
qed

lemmas abs_simps = reg_status_abs reg_partner_abs reg_name_abs reg_find_abs reg_list_abs
  abs_put_status abs_put_to_fd abs_rename abs_drop_client
  status.wf_put partner.wf_put

section \<open>The handlers implement the requests\<close>

text \<open>
  \<open>serves e h k s (r, out)\<close>: from \<open>s\<close> the handler \<open>h\<close> goes on to \<open>k\<close>, with the mutex free and
  the list well-formed, the registry \<open>r\<close>, and exactly the messages \<open>out\<close> sent, each of them with
  its text ending inside it.
\<close>

definition serves ::
  "env \<Rightarrow> ('a prog \<Rightarrow> 'a prog) \<Rightarrow> 'a prog \<Rightarrow> srv \<Rightarrow> registry \<times> reply list \<Rightarrow> bool" where
  "serves e h k s ro \<longleftrightarrow>
     (\<exists>s' ms. run e (h k) s = run e k s' \<and> idle s' \<and> abs_queue (queue s') = fst ro \<and>
           sent s' = sent s @ ms \<and> list_all (\<lambda>fm. fine_msg (snd fm)) ms \<and> map abs_msg ms = snd ro)"

lemma serves_sent:
  "serves e h k s (r, out) \<Longrightarrow> \<exists>s'. run e (h k) s = run e k s' \<and> idle s' \<and>
     abs_queue (queue s') = r \<and> map abs_msg (sent s') = map abs_msg (sent s) @ out"
  by (auto simp: serves_def)

lemma idle_wf: "idle s \<Longrightarrow> wf_queue (queue s)"
  by (simp add: idle_def)

lemma servesI:
  assumes "run e (h k) s = run e k (emit ms (upd_queue u s))" and "idle s"
    and "wf_queue (queue s) \<Longrightarrow> wf_queue (u (queue s))"
    and "wf_queue (queue s) \<Longrightarrow> abs_queue (u (queue s)) = fst ro" and "map abs_msg ms = snd ro"
    and "wf_queue (queue s) \<Longrightarrow> list_all (\<lambda>fm. fine_msg (snd fm)) ms"
  shows "serves e h k s ro"
  unfolding serves_def
  using assms by (intro exI [of _ "emit ms (upd_queue u s)"] exI [of _ ms]) (simp add: idle_def)

lemma serves_same:
  assumes "run e (h k) s = run e k (emit ms s)" and "idle s"
    and "wf_queue (queue s) \<Longrightarrow> abs_queue (queue s) = fst ro" and "map abs_msg ms = snd ro"
    and "wf_queue (queue s) \<Longrightarrow> list_all (\<lambda>fm. fine_msg (snd fm)) ms"
  shows "serves e h k s ro"
  by (rule servesI [where u = "\<lambda>q. q" and ms = ms]) (use assms in simp_all)

lemma serves_nothing:
  assumes "run e (h k) s = run e k s" and "idle s"
    and "wf_queue (queue s) \<Longrightarrow> ro = (abs_queue (queue s), [])"
  shows "serves e h k s ro"
  using assms idle_wf [OF assms(2)]
  by (intro serves_same [where ms = "[]"]) simp_all

lemma abs_text_msg: "NUL \<notin> set t \<Longrightarrow> abs_msg (g, text_msg ty t) = (g, ty, t)"
  by (simp add: abs_msg_def)

lemma abs_echo_msg: "abs_msg (g, echo_msg ty c) = (g, ty, take 64 (cstr c))"
  using cstr_echo [of ty c] by (simp add: abs_msg_def) (simp add: echo_msg_def)

lemma abs_plain_msg: "abs_msg (g, set_type ty zero_msg) = (g, ty, [])"
  by (simp add: abs_msg_def)

lemma fine_echo: "length c = MAX_MSG_LEN \<Longrightarrow> msg_type_code ty < 2 ^ 32 \<Longrightarrow> fine_msg (echo_msg ty c)"
  by (simp add: fine_msg_def wf_msg_def echo_msg_def)

lemma fine_plain_msg: "msg_type_code ty < 2 ^ 32 \<Longrightarrow> fine_msg (set_type ty zero_msg)"
  by (rule fine_set_type) simp_all

lemma fine_name: "wf_queue q \<Longrightarrow> msg_type_code ty < 2 ^ 32 \<Longrightarrow> fine_msg (text_msg ty (client_name f q))"
  using client_name_props(2) [of q f] by (simp add: fine_text_msg)

lemmas fine_simps [simp] = fine_echo fine_plain_msg fine_name fine_set_type fine_text_msg

lemma serves_set_name:
  assumes "idle s" and "f \<in> live_fds (queue s)" and "wf_msg msg" and "terminated (msg_buf msg)"
  shows "serves e (set_name_handler f msg) k s
     (serve_set_name (abs_queue (queue s)) f (cstr (msg_buf msg)))"
proof (cases "named (msg_buf msg) (queue s)")
  case None
  have "NUL \<notin> set (take 63 (cstr (msg_buf msg)))" by (auto dest: in_set_takeD)
  with None show ?thesis
    by (intro servesI [OF run_set_name_free [OF assms None] assms(1)])
       (auto simp: serve_set_name_def reg_find_abs abs_plain_msg abs_rename wf_rename)
next
  case (Some n)
  then show ?thesis
    by (intro serves_same [OF run_set_name_taken [OF assms Some] assms(1)])
       (auto simp: serve_set_name_def reg_find_abs abs_plain_msg)
qed

lemma serves_list:
  assumes "idle s" and "f \<in> live_fds (queue s)"
  shows "serves e (send_client_list_handler f) k s
     (abs_queue (queue s), [(f, MSG_GET_CLIENT_LIST_TYPE, reg_list (abs_queue (queue s)))])"
proof -
  have "NUL \<notin> set (fitting 0 (names_of (queue s)))"
    by (rule fitting_no_NUL) (rule names_of_no_NUL)
  moreover have "length (fitting 0 (names_of (queue s))) < MAX_MSG_LEN"
    using length_fitting [of 0 "names_of (queue s)"] by simp
  ultimately show ?thesis
    by (intro serves_same [OF run_client_list [OF assms] assms(1)])
       (auto simp: reg_list_abs abs_text_msg)
qed

lemma serves_decline:
  assumes "idle s"
  shows "serves e (handle_decline_conn_request f) k s (serve_decline (abs_queue (queue s)) f)"
proof -
  let ?q = "queue s"
  note wf = idle_wf [OF assms]
  consider (none) "get_client_chatting_status_by_fd f ?q \<noteq> CHAT_STATUS_REQ_PENDING"
    | (alone) "get_conn_fd_by_fd f ?q = INVALID_FD"
    | (some) "get_client_chatting_status_by_fd f ?q = CHAT_STATUS_REQ_PENDING"
        "get_conn_fd_by_fd f ?q \<noteq> INVALID_FD"
    by blast
  then show ?thesis
  proof cases
    case none
    then show ?thesis
      by (intro serves_nothing [OF run_decline_no_request [OF assms none] assms]) (auto simp: serve_decline_def abs_simps)
  next
    case alone
    then show ?thesis
      by (intro serves_nothing [OF run_decline_no_partner [OF assms alone] assms]) (auto simp: serve_decline_def abs_simps)
  next
    case some
    with client_name_props [OF wf] wf show ?thesis
      by (intro servesI [OF run_decline [OF assms some(1) refl some(2)] assms])
         (auto simp: serve_decline_def abs_simps abs_text_msg)
  qed
qed

lemma abs_part:
  "wf_queue q \<Longrightarrow> wf_queue (part f g q) \<and> abs_queue (part f g q) =
     reg_link g INVALID_FD (reg_link f INVALID_FD
       (reg_set g CHAT_STATUS_FREE (reg_set f CHAT_STATUS_FREE (abs_queue q))))"
  by (simp add: part_def abs_simps)

lemma serves_tx:
  assumes "idle s" and "wf_msg msg" and "terminated (msg_buf msg)"
  shows "serves e (handle_tx_msg f msg) k s
     (serve_tx (abs_queue (queue s)) f (cstr (msg_buf msg)))"
proof -
  let ?q = "queue s"
  note wf = idle_wf [OF assms(1)]
  have fine: "fine_msg msg" using assms(2,3) by (simp add: fine_msg_def)
  consider (none) "get_client_chatting_status_by_fd f ?q \<noteq> CHAT_STATUS_BUSY"
    | (alone) "get_conn_fd_by_fd f ?q = INVALID_FD"
    | (talk) "get_client_chatting_status_by_fd f ?q = CHAT_STATUS_BUSY"
        "get_conn_fd_by_fd f ?q \<noteq> INVALID_FD" "cstr (msg_buf msg) \<noteq> DISCONNECT_CMD"
    | (bye) "get_client_chatting_status_by_fd f ?q = CHAT_STATUS_BUSY"
        "get_conn_fd_by_fd f ?q \<noteq> INVALID_FD" "cstr (msg_buf msg) = DISCONNECT_CMD"
    by blast
  then show ?thesis
  proof cases
    case none
    then show ?thesis
      by (intro serves_nothing [OF run_tx_not_busy [OF assms(1) none] assms(1)]) (auto simp: serve_tx_def abs_simps Let_def)
  next
    case alone
    then show ?thesis
      by (intro serves_nothing [OF run_tx_no_partner [OF assms(1) alone assms(2)] assms(1)]) (auto simp: serve_tx_def abs_simps Let_def)
  next
    case talk
    with wf fine show ?thesis
      by (intro serves_same [OF run_tx_forward [OF assms(1) talk(1) refl talk(2) assms(2) talk(3)]
            assms(1)]) (auto simp: serve_tx_def abs_simps Let_def abs_msg_def)
  next
    case bye
    with client_name_props [OF wf] wf show ?thesis
      by (intro servesI [OF run_tx_disconnect [OF assms(1) bye(1) refl bye(2) assms(2) bye(3)]
            assms(1)]) (auto simp: serve_tx_def abs_simps Let_def abs_text_msg abs_part)
  qed
qed

lemma abs_propose:
  "wf_queue q \<Longrightarrow> wf_queue (propose f g q) \<and> abs_queue (propose f g q) =
     reg_link g f (reg_link f g (reg_set g CHAT_STATUS_REQ_PENDING (abs_queue q)))"
  by (simp add: propose_def abs_simps)

lemma named_status:
  assumes "wf_queue q" and "named c q = Some n"
  shows "get_client_chatting_status_by_fd (cl_fd n) q = cl_chat_status n" "cl_fd n \<in> live_fds q"
proof -
  have n: "n \<in> set (client_list q)" using assms(2) named_Some by blast
  then show l: "cl_fd n \<in> live_fds q" by (auto simp: live_fds_def)
  have "node_by_fd (cl_fd n) (client_list q) = Some n"
    using assms(1) n find_key_unique [of cl_fd "client_list q" n]
    by (simp add: node_by_fd_def wf_queue_def)
  moreover have "cl_fd n \<noteq> INVALID_FD" using l invalid_not_live [OF assms(1)] by auto
  ultimately show "get_client_chatting_status_by_fd (cl_fd n) q = cl_chat_status n"
    by (simp add: get_client_chatting_status_by_fd_def)
qed

lemma serves_connect:
  assumes "idle s" and "f \<in> live_fds (queue s)" and "wf_msg msg" and "terminated (msg_buf msg)"
  shows "serves e (handle_chat_connection_request f (Some (msg_buf msg))) k s
     (serve_connect (abs_queue (queue s)) f (cstr (msg_buf msg)))"
proof -
  let ?q = "queue s" and ?c = "msg_buf msg"
  note wf = idle_wf [OF assms(1)]
  have len: "length ?c = MAX_MSG_LEN" using assms(3) by (simp add: wf_msg_def)
  show ?thesis
  proof (cases "named ?c ?q")
    case None
    with len show ?thesis
      by (intro serves_same [OF run_connect_unknown [OF assms(1,2) len assms(4) None] assms(1)])
         (auto simp: serve_connect_def abs_simps abs_echo_msg)
  next
    case (Some n)
    note st = named_status [OF wf Some]
    consider (self) "client_name f ?q = cstr ?c"
      | (free) "client_name f ?q \<noteq> cstr ?c" "cl_chat_status n = CHAT_STATUS_FREE"
      | (other) "client_name f ?q \<noteq> cstr ?c" "cl_chat_status n \<noteq> CHAT_STATUS_FREE"
      by blast
    then show ?thesis
    proof cases
      case self
      with Some len show ?thesis
        by (intro serves_same [OF run_connect_self [OF assms(1,2) len Some self] assms(1)])
           (auto simp: serve_connect_def abs_simps abs_echo_msg)
    next
      case free
      with Some wf st len client_name_props [OF wf, of f] show ?thesis
        by (intro servesI [OF run_connect_free [OF assms(1,2) len Some free] assms(1)])
           (auto simp: serve_connect_def abs_simps abs_echo_msg abs_text_msg abs_propose)
    next
      case other
      with Some wf st len show ?thesis
        by (intro serves_same [OF run_connect_not_free [OF assms(1,2) len Some other] assms(1)])
           (auto simp: serve_connect_def abs_simps abs_echo_msg)
    qed
  qed
qed

lemma abs_leave:
  "wf_queue q \<Longrightarrow> wf_queue (leave f q) \<and> abs_queue (leave f q) =
     reg_link f INVALID_FD (reg_set f CHAT_STATUS_FREE (abs_queue q))"
  by (simp add: leave_def abs_simps)

lemma abs_join:
  "wf_queue q \<Longrightarrow> wf_queue (join f g q) \<and> abs_queue (join f g q) =
     reg_link g f (reg_link f g (reg_set g CHAT_STATUS_BUSY (reg_set f CHAT_STATUS_BUSY (abs_queue q))))"
  by (simp add: join_def abs_simps)

lemma serves_accept:
  assumes "idle s" and "get_conn_fd_by_fd f (queue s) \<noteq> INVALID_FD"
  shows "\<exists>ro. serve_accept (abs_queue (queue s)) f = Some ro \<and> serves e (handle_conn_accept f msg) k s ro"
proof -
  let ?q = "queue s" and ?g = "get_conn_fd_by_fd f (queue s)"
  note wf = idle_wf [OF assms(1)]
  consider (gone) "client_name ?g ?q = UNDEF_NAME"
    | (busy) "client_name ?g ?q \<noteq> UNDEF_NAME"
        "get_client_chatting_status_by_fd ?g ?q = CHAT_STATUS_BUSY"
    | (idle) "client_name ?g ?q \<noteq> UNDEF_NAME"
        "get_client_chatting_status_by_fd ?g ?q \<noteq> CHAT_STATUS_BUSY"
        "get_client_chatting_status_by_fd f ?q \<noteq> CHAT_STATUS_REQ_PENDING"
    | (join) "client_name ?g ?q \<noteq> UNDEF_NAME"
        "get_client_chatting_status_by_fd ?g ?q \<noteq> CHAT_STATUS_BUSY"
        "get_client_chatting_status_by_fd f ?q = CHAT_STATUS_REQ_PENDING"
    by blast
  then show ?thesis
  proof cases
    case gone
    with wf assms(2) show ?thesis
      by (intro exI conjI servesI [OF run_accept_gone [OF assms(1) refl assms(2) gone] assms(1)])
         (auto simp: serve_accept_def abs_simps Let_def abs_text_msg abs_leave)
  next
    case busy
    with wf assms(2) client_name_props [OF wf] show ?thesis
      by (intro exI conjI servesI [OF run_accept_partner_busy [OF assms(1) refl assms(2) busy] assms(1)])
         (auto simp: serve_accept_def abs_simps Let_def abs_text_msg)
  next
    case idle
    with wf assms(2) show ?thesis
      by (intro exI conjI serves_same [OF run_accept_no_request [OF assms(1) refl assms(2) idle] assms(1)])
         (auto simp: serve_accept_def abs_simps Let_def abs_text_msg)
  next
    case join
    with wf assms(2) client_name_props [OF wf] show ?thesis
      by (intro exI conjI servesI [OF run_accept [OF assms(1) refl assms(2) join] assms(1)])
         (auto simp: serve_accept_def abs_simps Let_def abs_text_msg abs_join)
  qed
qed

lemma serves_close:
  assumes "idle s"
  shows "serves e (client_closed_conn f) k s (serve_close (abs_queue (queue s)) f)"
proof -
  let ?q = "queue s" and ?g = "get_conn_fd_by_fd f (queue s)"
  note wf = idle_wf [OF assms]
  show ?thesis
  proof (cases "?g = INVALID_FD \<or> get_client_chatting_status_by_fd ?g ?q = CHAT_STATUS_FREE")
    case True
    then have run: "run e (client_closed_conn f k) s = run e k (emit [] (upd_queue (drop_client f) s))"
      using run_closed_alone [OF assms] by simp
    show ?thesis
      by (rule servesI [where h = "client_closed_conn f" and k = k, OF run assms])
         (use True wf in \<open>auto simp: serve_close_def abs_simps Let_def wf_remove\<close>)
  next
    case False
    have "reg_remove f (reg_link f t r) = reg_remove f r" for t r
      unfolding reg_remove_def reg_link_def reg_map_def by (induction r) auto
    moreover have "wf_queue (drop_client f (end_chat f ?g ?q))"
      unfolding end_chat_def using wf by (intro wf_remove) (simp add: abs_simps)
    ultimately show ?thesis
      using False wf client_name_props [OF wf]
      by (intro servesI [OF run_closed_partner [OF assms refl] assms])
         (auto simp: serve_close_def abs_simps Let_def abs_text_msg end_chat_def)
  qed
qed

text \<open>Which requests can be carried out: all but an accept without a partner.\<close>

definition answerable :: "client_queue \<Rightarrow> c_int \<Rightarrow> msg_t \<Rightarrow> bool" where
  "answerable q f msg \<longleftrightarrow>
     \<not> (msg_type msg = MSG_CLIENT_ACCEPT_CONNECTION \<and> get_conn_fd_by_fd f q = INVALID_FD)"

lemma handle_rx_msg_eq:
  "handle_rx_msg msg f =
     (case msg_type msg of
        MSG_SET_NAME_REQ_TYPE \<Rightarrow> set_name_handler f msg
      | MSG_GET_CLIENT_LIST_TYPE \<Rightarrow> send_client_list_handler f
      | MSG_CONNECT_TO_CLIENT \<Rightarrow> handle_chat_connection_request f (Some (msg_buf msg))
      | MSG_CLIENT_ACCEPT_CONNECTION \<Rightarrow> handle_conn_accept f msg
      | MSG_CLIENT_TX_TYPE \<Rightarrow> handle_tx_msg f msg
      | MSG_CLIENT_DECLINE_CONNECTION \<Rightarrow> handle_decline_conn_request f
      | _ \<Rightarrow> (\<lambda>k. k))"
  by (rule ext, cases "msg_type msg") (simp_all add: handle_rx_msg_def handle_change_conn_fd_req_def)

lemma serves_request:
  assumes "idle s" and "f \<in> live_fds (queue s)" and "wf_msg msg" and "terminated (msg_buf msg)"
    and "answerable (queue s) f msg"
  shows "\<exists>ro. serve (abs_queue (queue s)) f (msg_type msg) (cstr (msg_buf msg)) = Some ro \<and>
     serves e (handle_rx_msg msg f) k s ro"
proof -
  have none: "serves e (\<lambda>k. k) k s (abs_queue (queue s), [])"
    by (rule serves_nothing) (simp_all add: assms(1))
  show ?thesis
    using none serves_set_name [OF assms(1-4)] serves_list [OF assms(1,2)]
      serves_connect [OF assms(1-4)] serves_accept [OF assms(1)] serves_tx [OF assms(1,3,4)]
      serves_decline [OF assms(1)] assms(5)
    by (cases "msg_type msg") (simp_all add: serve_def handle_rx_msg_eq answerable_def)
qed

section \<open>Links in the registry\<close>

definition wf_registry :: "registry \<Rightarrow> bool" where
  "wf_registry r \<longleftrightarrow> distinct (map fst r) \<and> INVALID_FD \<notin> fst ` set r"

definition reg_fds :: "registry \<Rightarrow> c_int set" where
  "reg_fds r = fst ` set r"

lemma wf_abs_queue: "wf_queue q \<Longrightarrow> wf_registry (abs_queue q)"
  using invalid_not_live [of q]
  by (simp add: wf_registry_def abs_queue_def wf_queue_def live_fds_def comp_def image_image)

lemma reg_fds_abs: "reg_fds (abs_queue q) = live_fds q"
  by (simp add: reg_fds_def abs_queue_def live_fds_def image_image)

lemma map_of_reg_map:
  "map_of (reg_map f g r) h = (if h = f then map_option g (map_of r h) else map_of r h)"
  by (induction r) (auto simp: reg_map_def)

lemma fst_reg_map: "map fst (reg_map f g r) = map fst r"
  by (induction r) (auto simp: reg_map_def)

lemma reg_fds_reg_map: "reg_fds (reg_map f g r) = reg_fds r"
  unfolding reg_fds_def by (metis fst_reg_map list.set_map)

lemma wf_reg_map: "wf_registry r \<Longrightarrow> wf_registry (reg_map f g r)"
  unfolding wf_registry_def by (metis fst_reg_map list.set_map)

lemma map_of_None_fds: "map_of r f = None \<longleftrightarrow> f \<notin> reg_fds r"
  by (simp add: reg_fds_def map_of_eq_None_iff)

lemma reg_map_not_in: "f \<notin> reg_fds r \<Longrightarrow> reg_map f g r = r"
  by (induction r) (auto simp: reg_map_def reg_fds_def)

lemma map_of_reg_remove: "map_of (reg_remove f r) h = (if h = f then None else map_of r h)"
  by (induction r) (auto simp: reg_remove_def)

lemma reg_fds_remove: "reg_fds (reg_remove f r) = reg_fds r - {f}"
  by (auto simp: reg_fds_def reg_remove_def)

lemma wf_reg_remove: "wf_registry r \<Longrightarrow> wf_registry (reg_remove f r)"
  by (auto simp: wf_registry_def reg_remove_def distinct_map_filter)

interpretation reg_links: chat_links wf_registry reg_fds
  "\<lambda>f r. reg_status r f" reg_set "\<lambda>f r. reg_partner r f" reg_link reg_remove
proof
  fix f g v w and q :: registry
  show "wf_registry q \<Longrightarrow> f \<in> reg_fds q \<Longrightarrow> valid_status v \<Longrightarrow> reg_status (reg_set f v q) f = v"
    using map_of_None_fds [of q f] by (auto simp: reg_status_def reg_set_def map_of_reg_map)
  show "g \<noteq> f \<Longrightarrow> reg_status (reg_set f v q) g = reg_status q g"
    by (simp add: reg_status_def reg_set_def map_of_reg_map)
  show "f \<notin> reg_fds q \<Longrightarrow> reg_set f v q = q" by (simp add: reg_set_def reg_map_not_in)
  show "reg_fds (reg_set f v q) = reg_fds q" by (simp add: reg_set_def reg_fds_reg_map)
  show "wf_registry q \<Longrightarrow> valid_status v \<Longrightarrow> wf_registry (reg_set f v q)"
    by (simp add: reg_set_def wf_reg_map)
  show "wf_registry q \<Longrightarrow> f \<in> reg_fds q \<Longrightarrow> True \<Longrightarrow> reg_partner (reg_link f w q) f = w"
    using map_of_None_fds [of q f] by (auto simp: reg_partner_def reg_link_def map_of_reg_map)
  show "g \<noteq> f \<Longrightarrow> reg_partner (reg_link f w q) g = reg_partner q g"
    by (simp add: reg_partner_def reg_link_def map_of_reg_map)
  show "f \<notin> reg_fds q \<Longrightarrow> reg_link f w q = q" by (simp add: reg_link_def reg_map_not_in)
  show "reg_fds (reg_link f w q) = reg_fds q" by (simp add: reg_link_def reg_fds_reg_map)
  show "wf_registry q \<Longrightarrow> True \<Longrightarrow> wf_registry (reg_link f w q)"
    by (simp add: reg_link_def wf_reg_map)
  show "reg_status (reg_link f w q) g = reg_status q g"
    by (auto simp: reg_status_def reg_link_def map_of_reg_map split: option.splits)
  show "reg_partner (reg_set f v q) g = reg_partner q g"
    by (auto simp: reg_partner_def reg_set_def map_of_reg_map split: option.splits)
  show "f \<notin> reg_fds q \<Longrightarrow> reg_status q f = CHAT_STATUS_CLIENT_NOT_FOUND"
    using map_of_None_fds [of q f] by (simp add: reg_status_def)
  show "wf_registry q \<Longrightarrow> INVALID_FD \<notin> reg_fds q" by (simp add: wf_registry_def reg_fds_def)
  show "wf_registry q \<Longrightarrow> reg_status (reg_remove f q) g =
      (if g = f then CHAT_STATUS_CLIENT_NOT_FOUND else reg_status q g)"
    by (simp add: reg_status_def map_of_reg_remove)
  show "wf_registry q \<Longrightarrow> g \<noteq> f \<Longrightarrow> reg_partner (reg_remove f q) g = reg_partner q g"
    by (simp add: reg_partner_def map_of_reg_remove)
  show "wf_registry q \<Longrightarrow> reg_fds (reg_remove f q) = reg_fds q - {f}"
    by (simp add: reg_fds_remove)
qed

end
