(* ===== verification/Server_Correct.thy ===== *)
theory Server_Correct
  imports Server_Spec
begin

text \<open>
  The properties of the server's functions executed one after the other: that the handlers
  implement the requests of \<open>Server_Spec\<close>, what they keep of the links between clients and of the
  names, when they leave defined behaviour, and what a thread does from its start to its end.
\<close>

section \<open>Example states\<close>

text \<open>
  Servers with given clients, each with its status and its partner and under its default name: the
  states the theorems are applied to as examples.
\<close>

definition example_node :: "c_int \<times> client_chat_status_t \<times> c_int \<Rightarrow> client_node_t" where
  "example_node x = (case x of (f, c, t) \<Rightarrow>
     (new_node f (unat f) (unat f))\<lparr>cl_chat_status := c, cl_to_fd := t\<rparr>)"

definition example_srv :: "(c_int \<times> client_chat_status_t \<times> c_int) list \<Rightarrow> srv" where
  "example_srv xs = init_srv_state\<lparr>queue := init_queue\<lparr>client_list := map example_node xs,
     total_available_clients := of_nat (length xs)\<rparr>\<rparr>"

definition example_env :: env where
  "example_env = \<lparr>env_send = (\<lambda>_. 520), env_recv = (\<lambda>_. Recv_Eof), env_poll = (\<lambda>_. Poll_Timeout),
     env_malloc = (\<lambda>n. Some (100 + n)), env_self = 0, env_terminate = (\<lambda>_. False),
     env_accept = (\<lambda>_. Accept_Error False), env_create = (\<lambda>_. False)\<rparr>"

lemma example_node_simps [simp]:
  "cl_fd (example_node (f, c, t)) = f" "cl_chat_status (example_node (f, c, t)) = c"
  "cl_to_fd (example_node (f, c, t)) = t" "cstr (cl_name (example_node (f, c, t))) = default_name f"
  "node_addr (example_node (f, c, t)) = unat f"
  by (simp_all add: example_node_def new_node_def default_name_no_NUL)

lemma wf_example_node: "f \<noteq> INVALID_FD \<Longrightarrow> valid_status c \<Longrightarrow> wf_node (example_node (f, c, t))"
  using wf_new_node [of f "unat f" "unat f"] by (simp add: example_node_def wf_node_def)

lemma idle_example:
  assumes "length xs \<le> 20" and "distinct (map fst xs)"
    and "\<forall>(f, c, t) \<in> set xs. f \<noteq> INVALID_FD \<and> valid_status c"
  shows "idle (example_srv xs)"
proof -
  have fd: "cl_fd \<circ> example_node = fst" and ad: "node_addr \<circ> example_node = unat \<circ> fst"
    by (auto simp: fun_eq_iff)
  have "distinct (map (unat \<circ> fst) xs)"
    using assms(2) by (simp add: map_map [symmetric] distinct_map del: map_map) (auto intro!: inj_onI simp: word_unat_eq_iff)
  moreover have "unat (of_nat (length xs) :: u8) = length xs"
    using assms(1) by (simp add: unat_of_nat)
  moreover have "list_all wf_node (map example_node xs)"
    using assms(3) by (auto simp: list_all_iff wf_example_node)
  ultimately show ?thesis
    using assms(1,2)
    by (simp add: idle_def example_srv_def init_srv_state_def init_queue_def wf_queue_def fd ad)
qed

lemma example_list [simp]:
  "client_list (queue (example_srv xs)) = map example_node xs"
  "sent (example_srv xs) = []" "mutex (example_srv xs) = False"
  by (simp_all add: example_srv_def init_srv_state_def)

lemmas example_simps = idle_example live_fds_def get_client_chatting_status_by_fd_def
  get_conn_fd_by_fd_def node_by_fd_def client_name_def name_of_def

section \<open>Links\<close>

abbreviation paired_queue :: "client_queue \<Rightarrow> bool" where
  "paired_queue \<equiv> paired get_client_chatting_status_by_fd get_conn_fd_by_fd"

abbreviation unlooped :: "client_queue \<Rightarrow> bool" where
  "unlooped \<equiv> no_self_link live_fds get_conn_fd_by_fd"

abbreviation paired_reg :: "registry \<Rightarrow> bool" where
  "paired_reg \<equiv> paired (\<lambda>f r. reg_status r f) (\<lambda>f r. reg_partner r f)"

abbreviation unlooped_reg :: "registry \<Rightarrow> bool" where
  "unlooped_reg \<equiv> no_self_link reg_fds (\<lambda>f r. reg_partner r f)"

text \<open>A client in a chat sends neither connection requests nor accepts; the client program keeps to it.\<close>

definition polite :: "client_chat_status_t \<Rightarrow> msg_type_t \<Rightarrow> bool" where
  "polite c ty \<longleftrightarrow>
     (c = CHAT_STATUS_BUSY \<longrightarrow> ty \<noteq> MSG_CONNECT_TO_CLIENT \<and> ty \<noteq> MSG_CLIENT_ACCEPT_CONNECTION)"

lemma paired_abs: "wf_queue q \<Longrightarrow> paired_reg (abs_queue q) \<longleftrightarrow> paired_queue q"
  by (simp add: paired_def reg_status_abs reg_partner_abs)

lemma unlooped_abs: "wf_queue q \<Longrightarrow> unlooped_reg (abs_queue q) \<longleftrightarrow> unlooped q"
  by (simp add: no_self_link_def reg_partner_abs reg_fds_abs)

lemma reg_status_rename [simp]: "reg_status (reg_map f (\<lambda>x. x\<lparr>e_name := t\<rparr>) r) g = reg_status r g"
  by (auto simp: reg_status_def map_of_reg_map split: option.splits)

lemma reg_partner_rename [simp]: "reg_partner (reg_map f (\<lambda>x. x\<lparr>e_name := t\<rparr>) r) g = reg_partner r g"
  by (auto simp: reg_partner_def map_of_reg_map split: option.splits)

lemma reg_find_Some:
  assumes "wf_registry r" and "reg_find r t = Some g"
  shows "g \<in> reg_fds r" "reg_name r g = t"
proof -
  obtain x where "find (\<lambda>(f, x). e_name x = t) r = Some (g, x)"
    using assms(2) by (auto simp: reg_find_def)
  then have x: "(g, x) \<in> set r" "e_name x = t"
    using find_Some_mem [of "\<lambda>(f, x). e_name x = t" r "(g, x)"] by auto
  then show "g \<in> reg_fds r" by (force simp: reg_fds_def)
  have "map_of r g = Some x" using x(1) assms(1) by (simp add: wf_registry_def)
  with x(2) show "reg_name r g = t" by (simp add: reg_name_def)
qed

lemma reg_name_in: "reg_name r g \<noteq> UNDEF_NAME \<Longrightarrow> g \<in> reg_fds r"
  using map_of_None_fds [of r g] by (auto simp: reg_name_def split: option.splits)

lemmas reg_keeps = reg_links.paired_propose reg_links.paired_join reg_links.paired_part
  reg_links.paired_leave reg_links.paired_set_idle
  reg_links.no_self_link_put_st reg_links.no_self_link_put_pt reg_links.no_self_link_unlink
  reg_links.a.wf_put reg_links.b.wf_put

lemma serve_paired:
  assumes wf: "wf_registry r" and p: "paired_reg r" and u: "unlooped_reg r" and f: "f \<in> reg_fds r"
    and pol: "polite (reg_status r f) ty" and sv: "serve r f ty t = Some (r', out)"
  shows "paired_reg r' \<and> unlooped_reg r'"
proof -
  have rename: "paired_reg (reg_map f (\<lambda>x. x\<lparr>e_name := s\<rparr>) r) \<and>
      unlooped_reg (reg_map f (\<lambda>x. x\<lparr>e_name := s\<rparr>) r)" for s
    using p u by (simp add: paired_def no_self_link_def reg_fds_reg_map)
  have connect: "paired_reg r' \<and> unlooped_reg r'"
    if "serve_connect r f t = (r', out)" and "reg_status r f \<noteq> CHAT_STATUS_BUSY"
  proof (cases "reg_find r t")
    case None
    with that p u show ?thesis by (simp add: serve_connect_def)
  next
    case (Some g)
    have "f \<noteq> g" if "reg_name r f \<noteq> t" using reg_find_Some(2) [OF wf Some] that by auto
    with that Some wf p u show ?thesis
      by (auto simp: serve_connect_def reg_keeps split: if_splits)
  qed
  have accept: "paired_reg r' \<and> unlooped_reg r'"
    if a: "serve_accept r f = Some (r', out)" and st: "reg_status r f \<noteq> CHAT_STATUS_BUSY"
  proof -
    let ?g = "reg_partner r f"
    have "f \<noteq> ?g" using u f by (auto simp: no_self_link_def)
    moreover have "reg_name r ?g \<noteq> UNDEF_NAME \<Longrightarrow> ?g \<in> reg_fds r" by (rule reg_name_in)
    ultimately show ?thesis
      using a st wf p u f by (auto simp: serve_accept_def Let_def reg_keeps split: if_splits)
  qed
  have decline: "paired_reg r' \<and> unlooped_reg r'" if "serve_decline r f = (r', out)"
    using that wf p u by (auto simp: serve_decline_def reg_keeps split: if_splits)
  have tx: "paired_reg r' \<and> unlooped_reg r'" if "serve_tx r f t = (r', out)"
    using that wf p u by (auto simp: serve_tx_def Let_def reg_keeps split: if_splits)
  show ?thesis
    using sv pol connect accept decline tx rename p u
    by (cases ty) (auto simp: serve_def polite_def serve_set_name_def split: if_splits)
qed

section \<open>The requests\<close>

text \<open>
  C1: every message of a connected client, with any terminated text, takes the server from an idle
  state to an idle state exactly as the request's specification says: the same registry of names,
  statuses and partners, and the same messages in the same order to the same clients, whatever the
  sends return. The one exception of the specification, an accept from a client without partner,
  is the state the code then runs on in with the mutex held.
\<close>

theorem handle_rx_msg_implements_requests:
  assumes "idle s" and "f \<in> live_fds (queue s)" and "wf_msg msg" and "terminated (msg_buf msg)"
  shows "case serve (abs_queue (queue s)) f (msg_type msg) (cstr (msg_buf msg)) of
      None \<Rightarrow> run e (handle_rx_msg msg f k) s = run e k (s\<lparr>mutex := True\<rparr>)
    | Some (r, out) \<Rightarrow>
        \<exists>s'. run e (handle_rx_msg msg f k) s = run e k s' \<and> idle s' \<and>
             abs_queue (queue s') = r \<and> map abs_msg (sent s') = map abs_msg (sent s) @ out"
proof (cases "answerable (queue s) f msg")
  case True
  with serves_request [OF assms] show ?thesis using serves_sent by fastforce
next
  case False
  with assms(1) show ?thesis
    by (simp add: answerable_def serve_def serve_accept_def reg_partner_abs idle_wf
        handle_rx_msg_def run_accept_no_partner Let_def)
qed


text \<open>
  C3: no chat is left half open by a request: if every busy client's partner is busy with it, this
  is so after any request of a connected client that keeps to the protocol, whatever the other
  clients have asked before.
\<close>

theorem requests_keep_chats_paired:
  assumes "idle s" and "f \<in> live_fds (queue s)" and "wf_msg msg" and "terminated (msg_buf msg)"
    and "answerable (queue s) f msg"
    and "polite (get_client_chatting_status_by_fd f (queue s)) (msg_type msg)"
    and "paired_queue (queue s)" and "unlooped (queue s)"
  shows "\<exists>s'. run e (handle_rx_msg msg f k) s = run e k s' \<and> idle s' \<and>
      paired_queue (queue s') \<and> unlooped (queue s')"
proof -
  note wf = idle_wf [OF assms(1)]
  obtain r out where sv: "serve (abs_queue (queue s)) f (msg_type msg) (cstr (msg_buf msg)) = Some (r, out)"
    and "serves e (handle_rx_msg msg f) k s (r, out)"
    using serves_request [OF assms(1-5)] by (metis surj_pair)
  then obtain s' where s': "run e (handle_rx_msg msg f k) s = run e k s'" "idle s'"
      "abs_queue (queue s') = r"
    by (auto simp: serves_def)
  have "paired_reg r \<and> unlooped_reg r"
    using sv assms(2,6-8) wf
    by (intro serve_paired [OF wf_abs_queue [OF wf]])
       (simp_all add: paired_abs unlooped_abs reg_fds_abs reg_status_abs)
  with s' show ?thesis by (metis paired_abs unlooped_abs idle_wf)
qed

theorem handle_rx_msg_implements_requests_witness:
  "\<exists>s'. run example_env (handle_rx_msg (text_msg MSG_CONNECT_TO_CLIENT (default_name 5)) 4 (Ret ()))
         (example_srv [(4, CHAT_STATUS_FREE, INVALID_FD), (5, CHAT_STATUS_FREE, INVALID_FD)]) = Done () s'
     \<and> map abs_msg (sent s') = [(5, MSG_CONNECTION_REQ_RX, default_name 4),
                                 (4, MSG_CLIENT_FREE, default_name 5)]"
proof -
  let ?s = "example_srv [(4, CHAT_STATUS_FREE, INVALID_FD), (5, CHAT_STATUS_FREE, INVALID_FD)]"
  let ?m = "text_msg MSG_CONNECT_TO_CLIENT (default_name 5)"
  have "idle ?s" and "4 \<in> live_fds (queue ?s)" by (simp_all add: example_simps)
  moreover have "wf_msg ?m" and "terminated (msg_buf ?m)"
    using length_default_name [of 5] by (simp_all add: wf_msg_def)
  ultimately show ?thesis
    using handle_rx_msg_implements_requests [of ?s 4 ?m example_env "Ret ()"] length_default_name [of 5]
    by (auto simp: default_name_no_NUL serve_def serve_connect_def abs_queue_def entry_of_def
        reg_find_def reg_name_def reg_status_def)
qed


theorem requests_keep_chats_paired_witness:
  "\<exists>s'. run example_env (handle_rx_msg (text_msg MSG_CLIENT_ACCEPT_CONNECTION []) 5 (Ret ()))
         (example_srv [(4, CHAT_STATUS_FREE, 5), (5, CHAT_STATUS_REQ_PENDING, 4)]) = Done () s'
     \<and> paired_queue (queue s')"
proof -
  let ?s = "example_srv [(4, CHAT_STATUS_FREE, 5), (5, CHAT_STATUS_REQ_PENDING, 4)]"
  let ?m = "text_msg MSG_CLIENT_ACCEPT_CONNECTION []"
  have "idle ?s" and "5 \<in> live_fds (queue ?s)" by (simp_all add: example_simps)
  moreover have "wf_msg ?m" and "terminated (msg_buf ?m)" by (simp_all add: wf_msg_def)
  moreover have "answerable (queue ?s) 5 ?m"
    and "polite (get_client_chatting_status_by_fd 5 (queue ?s)) (msg_type ?m)"
    by (simp_all add: answerable_def polite_def example_simps)
  moreover have "paired_queue (queue ?s)" and "unlooped (queue ?s)"
    by (simp_all add: paired_def no_self_link_def example_simps)
  ultimately show ?thesis
    using requests_keep_chats_paired [of ?s 5 ?m example_env "Ret ()"] by auto
qed

text \<open>
  C4: the pairing does not survive a third party. A client whose accept was refused because its
  partner is in a chat keeps that partner in its record; when its connection then closes, the
  partner is set free and told, while the client it was chatting with stays busy with it.
\<close>

theorem refused_accept_then_close_breaks_chat:
  assumes "idle s" and "paired_queue (queue s)"
    and "get_conn_fd_by_fd f (queue s) = g" and "g \<noteq> INVALID_FD"
    and "get_client_chatting_status_by_fd f (queue s) = CHAT_STATUS_REQ_PENDING"
    and "get_client_chatting_status_by_fd g (queue s) = CHAT_STATUS_BUSY"
    and "client_name g (queue s) \<noteq> UNDEF_NAME"
  shows "\<exists>s' h. run e (handle_conn_accept f msg (client_closed_conn f k)) s = run e k s' \<and>
      get_client_chatting_status_by_fd g (queue s') = CHAT_STATUS_FREE \<and>
      get_client_chatting_status_by_fd h (queue s') = CHAT_STATUS_BUSY \<and>
      get_conn_fd_by_fd h (queue s') = g \<and>
      last (sent s') = (g, text_msg MSG_CLIENT_TERMINATION (client_name f (queue s)))"
proof -
  let ?h = "get_conn_fd_by_fd g (queue s)"
  let ?q = "put_status f CHAT_STATUS_FREE (queue s)"
  note wf = idle_wf [OF assms(1)]
  have h: "?h \<noteq> g" "get_client_chatting_status_by_fd ?h (queue s) = CHAT_STATUS_BUSY"
      "get_conn_fd_by_fd ?h (queue s) = g"
    using assms(2,6) unfolding paired_def by blast+
  have ne: "f \<noteq> g" "?h \<noteq> f" and live: "g \<in> live_fds (queue s)"
    using assms(5,6) h(2) links.busy_live by auto
  define s1 where "s1 = emit [(f, text_msg MSG_CLIENT_NO_MORE_FREE (client_name g (queue s)))]
      (upd_queue (put_status f CHAT_STATUS_FREE) s)"
  have q1: "queue s1 = ?q" by (simp add: s1_def)
  have "idle s1" using assms(1) by (simp add: s1_def idle_def status.wf_put)
  moreover have "get_conn_fd_by_fd f (queue s1) = g"
      "get_client_chatting_status_by_fd g (queue s1) \<noteq> CHAT_STATUS_FREE"
    using assms(3,6) wf ne by (simp_all add: q1 chat.put_simps)
  ultimately have "run e (client_closed_conn f k) s1 =
      run e k (emit [(g, text_msg MSG_CLIENT_TERMINATION (client_name f (queue s1)))]
        (upd_queue (\<lambda>q. drop_client f (end_chat f g q)) s1))"
    using assms(4) by (intro run_closed_partner)
  moreover have "run e (handle_conn_accept f msg (client_closed_conn f k)) s =
      run e (client_closed_conn f k) s1"
    unfolding s1_def by (rule run_accept_partner_busy [OF assms(1,3,4,7,6)])
  moreover have wf2: "wf_queue (end_chat f g ?q)"
    using wf by (simp add: end_chat_def chat.put_simps)
  have "get_client_chatting_status_by_fd g (drop_client f (end_chat f g ?q)) = CHAT_STATUS_FREE"
      "get_client_chatting_status_by_fd ?h (drop_client f (end_chat f g ?q)) = CHAT_STATUS_BUSY"
      "get_conn_fd_by_fd ?h (drop_client f (end_chat f g ?q)) = g"
    unfolding links.st_del [OF wf2] links.pt_del [OF wf2 ne(2)]
    using ne h live wf by (simp_all add: end_chat_def chat.put_simps)
  ultimately show ?thesis
    by (intro exI [of _ "emit [(g, text_msg MSG_CLIENT_TERMINATION (client_name f (queue s1)))]
        (upd_queue (\<lambda>q. drop_client f (end_chat f g q)) s1)"] exI [of _ ?h])
       (simp add: q1)
qed

text \<open>
  The example state arises from polite requests: client 4 asks 6 and then 5, and 5 accepts.
\<close>

theorem refused_accept_then_close_breaks_chat_witness:
  "\<exists>s' h. run example_env
       (handle_conn_accept 6 zero_msg (client_closed_conn 6 (Ret ())))
       (example_srv [(4, CHAT_STATUS_BUSY, 5), (5, CHAT_STATUS_BUSY, 4), (6, CHAT_STATUS_REQ_PENDING, 4)])
     = Done () s' \<and> get_client_chatting_status_by_fd 4 (queue s') = CHAT_STATUS_FREE
     \<and> get_client_chatting_status_by_fd h (queue s') = CHAT_STATUS_BUSY
     \<and> get_conn_fd_by_fd h (queue s') = 4"
proof -
  let ?s = "example_srv
    [(4, CHAT_STATUS_BUSY, 5), (5, CHAT_STATUS_BUSY, 4), (6, CHAT_STATUS_REQ_PENDING, 4)]"
  have "idle ?s" by (simp add: example_simps)
  moreover have "paired_queue (queue ?s)" by (simp add: paired_def example_simps)
  moreover have "client_name 4 (queue ?s) \<noteq> UNDEF_NAME"
    by (simp add: example_simps default_name_def UNDEF_NAME_def)
  moreover have "get_conn_fd_by_fd 6 (queue ?s) = 4"
    and "get_client_chatting_status_by_fd 6 (queue ?s) = CHAT_STATUS_REQ_PENDING"
    and "get_client_chatting_status_by_fd 4 (queue ?s) = CHAT_STATUS_BUSY"
    by (simp_all add: example_simps)
  ultimately show ?thesis
    using refused_accept_then_close_breaks_chat [of ?s 6 4 example_env zero_msg "Ret ()"] by auto
qed

end
