(* ===== verification/Server_Safety.thy ===== *)
theory Server_Safety
  imports Server_Correct
begin

text \<open>
  Safety of the server's functions: exactly which messages lead to undefined behaviour, the lock
  discipline of every function, what happens to names, the bound of the client list, and a client
  thread and the accept loop from start to end.
\<close>

section \<open>Undefined behaviour\<close>

lemma run_Ret_not_undefined: "run e (Ret a) s \<noteq> Undefined s'"
  by simp

lemma serves_defined: "serves e h (Ret a) s ro \<Longrightarrow> run e (h (Ret a)) s \<noteq> Undefined s'"
  by (auto simp: serves_def)

lemma tx_defined:
  assumes "idle s" and "wf_msg msg"
  shows "run e (handle_tx_msg f msg (Ret a)) s \<noteq> Undefined s'"
proof -
  let ?st = "get_client_chatting_status_by_fd f (queue s)" and ?g = "get_conn_fd_by_fd f (queue s)"
  consider "?st \<noteq> CHAT_STATUS_BUSY" | "?g = INVALID_FD"
    | "?st = CHAT_STATUS_BUSY" "?g \<noteq> INVALID_FD" "cstr (msg_buf msg) \<noteq> DISCONNECT_CMD"
    | "?st = CHAT_STATUS_BUSY" "?g \<noteq> INVALID_FD" "cstr (msg_buf msg) = DISCONNECT_CMD"
    by blast
  then show ?thesis
    using run_tx_not_busy [OF assms(1), where k = "Ret a"]
      run_tx_no_partner [OF assms(1) _ assms(2), where k = "Ret a"]
      run_tx_forward [OF assms(1) _ refl _ assms(2), where k = "Ret a"]
      run_tx_disconnect [OF assms(1) _ refl _ assms(2), where k = "Ret a"]
    by cases simp_all
qed

text \<open>
  C5: a message of a connected client leads to undefined behaviour exactly if its text is not
  terminated within the message and it is either a name request or a connection request for a
  name nobody has: those two are the ones whose text is printed. Nothing else reads or writes
  outside an object or through a dead pointer, in particular not the copies of names.
\<close>

theorem undefined_iff_unterminated_text:
  assumes "idle s" and "f \<in> live_fds (queue s)" and "wf_msg msg"
  shows "(\<exists>s'. run e (handle_rx_msg msg f (Ret ())) s = Undefined s') \<longleftrightarrow>
     \<not> terminated (msg_buf msg) \<and>
     (msg_type msg = MSG_SET_NAME_REQ_TYPE \<or>
      msg_type msg = MSG_CONNECT_TO_CLIENT \<and> named (msg_buf msg) (queue s) = None)"
proof -
  have len: "length (msg_buf msg) = MAX_MSG_LEN" using assms(3) by (simp add: wf_msg_def)
  have set_name: "(\<exists>s'. run e (set_name_handler f msg (Ret ())) s = Undefined s') \<longleftrightarrow>
      \<not> terminated (msg_buf msg)"
  proof (cases "terminated (msg_buf msg)")
    case True
    then show ?thesis by (simp add: serves_defined [OF serves_set_name [OF assms True]])
  next
    case False
    then show ?thesis by (simp add: run_set_name_overread)
  qed
  have list: "\<nexists>s'. run e (send_client_list_handler f (Ret ())) s = Undefined s'"
    by (simp add: serves_defined [OF serves_list [OF assms(1,2)]])
  have decline: "\<nexists>s'. run e (handle_decline_conn_request f (Ret ())) s = Undefined s'"
    by (simp add: serves_defined [OF serves_decline [OF assms(1)]])
  have tx: "\<nexists>s'. run e (handle_tx_msg f msg (Ret ())) s = Undefined s'"
    by (simp add: tx_defined [OF assms(1,3)])
  have accept: "\<nexists>s'. run e (handle_conn_accept f msg (Ret ())) s = Undefined s'"
  proof (cases "get_conn_fd_by_fd f (queue s) = INVALID_FD")
    case True
    then show ?thesis by (simp add: run_accept_no_partner [OF assms(1)])
  next
    case False
    then show ?thesis using serves_accept [OF assms(1) False] serves_defined by metis
  qed
  have connect: "(\<exists>s'. run e (handle_chat_connection_request f (Some (msg_buf msg)) (Ret ())) s =
        Undefined s') \<longleftrightarrow> \<not> terminated (msg_buf msg) \<and> named (msg_buf msg) (queue s) = None"
  proof (cases "terminated (msg_buf msg)")
    case True
    then show ?thesis by (simp add: serves_defined [OF serves_connect [OF assms True]])
  next
    case False
    show ?thesis
    proof (cases "named (msg_buf msg) (queue s)")
      case None
      then show ?thesis using run_connect_overread [OF assms(1,2) len False] False by blast
    next
      case (Some n)
      then show ?thesis
        by (cases "client_name f (queue s) = cstr (msg_buf msg)";
            cases "cl_chat_status n = CHAT_STATUS_FREE")
           (simp_all add: run_connect_self [OF assms(1,2) len Some]
             run_connect_free [OF assms(1,2) len Some] run_connect_not_free [OF assms(1,2) len Some])
    qed
  qed
  show ?thesis
    using set_name list decline tx accept connect
    by (cases "msg_type msg") (simp_all add: handle_rx_msg_eq)
qed

theorem undefined_iff_unterminated_text_witness:
  "\<exists>s'. run example_env (handle_rx_msg
       (set_buf (replicate MAX_MSG_LEN (CHR ''a'')) (set_type MSG_SET_NAME_REQ_TYPE zero_msg)) 4 (Ret ()))
       (example_srv [(4, CHAT_STATUS_FREE, INVALID_FD)]) = Undefined s'"
proof -
  let ?s = "example_srv [(4, CHAT_STATUS_FREE, INVALID_FD)]"
  let ?m = "set_buf (replicate MAX_MSG_LEN (CHR ''a'')) (set_type MSG_SET_NAME_REQ_TYPE zero_msg)"
  have "idle ?s" and "4 \<in> live_fds (queue ?s)" and "wf_msg ?m"
    by (simp_all add: example_simps wf_msg_def)
  moreover have "\<not> terminated (msg_buf ?m)" by (simp add: terminated_def)
  ultimately show ?thesis
    using undefined_iff_unterminated_text [of ?s 4 ?m example_env] by auto
qed

section \<open>Lock discipline\<close>

lemma send_msg_to_fd_locks [lock_simps]:
  "(\<And>r. guarded h (k r)) \<Longrightarrow> guarded h (send_msg_to_fd f m k)"
  "(\<And>r. releases h (k r)) \<Longrightarrow> releases h (send_msg_to_fd f m k)"
  by (simp_all add: send_msg_to_fd_def)

lemma guarded_mono_handlers:
  assumes "\<And>h. guarded h k"
  shows "guarded h (set_name_handler f msg k)" "guarded h (send_client_list_handler f k)"
    "guarded h (handle_decline_conn_request f k)" "guarded h (handle_tx_msg f msg k)"
    "guarded h (handle_chat_connection_request f c k)" "guarded h (handle_conn_accept f msg k)"
    "guarded h (client_closed_conn f k)"
  using assms
  by (auto simp: set_name_handler_def send_client_list_handler_def handle_decline_conn_request_def
      handle_tx_msg_def handle_chat_connection_request_def handle_conn_accept_def
      client_closed_conn_def Let_def lock_simps
      intro!: guarded_query guarded_query_opt guarded_call guarded_call_opt guarded_print_str
        send_msg_to_fd_locks split: option.splits)

lemma releases_handlers:
  assumes "releases False k"
  shows "releases False (set_name_handler f msg k)" "releases False (send_client_list_handler f k)"
    "releases False (handle_decline_conn_request f k)" "releases False (handle_tx_msg f msg k)"
    "releases False (handle_chat_connection_request f c k)"
    "releases False (client_closed_conn f k)"
  using assms
  by (auto simp: set_name_handler_def send_client_list_handler_def handle_decline_conn_request_def
      handle_tx_msg_def handle_chat_connection_request_def
      client_closed_conn_def Let_def lock_simps
      intro!: releases_query releases_query_opt releases_call releases_call_opt releases_print_str
        send_msg_to_fd_locks split: option.splits)

lemma guarded_handle_rx_msg: "(\<And>h. guarded h k) \<Longrightarrow> guarded h (handle_rx_msg msg f k)"
  using guarded_mono_handlers [of k]
  by (cases "msg_type msg") (simp_all add: handle_rx_msg_eq)

lemma releases_handle_rx_msg:
  "releases False k \<Longrightarrow> msg_type msg \<noteq> MSG_CLIENT_ACCEPT_CONNECTION \<Longrightarrow>
     releases False (handle_rx_msg msg f k)"
  using releases_handlers [of k]
  by (cases "msg_type msg") (simp_all add: handle_rx_msg_eq)

lemma guarded_wait_to_recv:
  "(\<And>err m. guarded h (k err m)) \<Longrightarrow> guarded h (wait_to_recv_something f rx k)"
  by (simp add: wait_to_recv_something_def split: option.split poll_result.split recv_result.split)

lemma guarded_send_conn_establish:
  "(\<And>err. guarded h (k err)) \<Longrightarrow> guarded h (send_conn_establish_msg f k)"
  by (auto simp: send_conn_establish_msg_def lock_simps intro!: send_msg_to_fd_locks
      split: recv_result.split)

lemma guarded_threads:
  "guarded h (client_thread_start f)" "guarded h (client_thread_loop f)" "guarded h accept_loop"
proof -
  show "guarded h (client_thread_start f)"
    by (auto simp: client_thread_start_def
        intro!: guarded_call_opt send_msg_to_fd_locks guarded_send_conn_establish)
  show "guarded h (client_thread_loop f)"
    by (auto simp: client_thread_loop_def
        intro!: guarded_wait_to_recv guarded_handle_rx_msg guarded_mono_handlers)
  show "guarded h accept_loop"
    by (auto simp: accept_loop_def intro!: guarded_query send_msg_to_fd_locks
        split: accept_result.split)
qed

lemma run_then_deadlock:
  "mutex s \<Longrightarrow> run e (Lock p) s = Deadlock s"
  by simp



text \<open>
  C7: \<^verbatim>\<open>handle_conn_accept\<close> does not: an accept from a client without a partner returns with
  the mutex held, and the next request that needs it, from any client the thread serves next, is a
  deadlock.
\<close>

theorem accept_without_partner_keeps_mutex:
  assumes "idle s" and "get_conn_fd_by_fd f (queue s) = INVALID_FD"
  shows "run e (handle_conn_accept f msg (Ret a)) s = Done a (s\<lparr>mutex := True\<rparr>) \<and>
     run e (handle_conn_accept f msg (handle_tx_msg g msg' k)) s = Deadlock (s\<lparr>mutex := True\<rparr>)"
  by (simp add: run_accept_no_partner [OF assms]) (simp add: handle_tx_msg_def)

theorem accept_without_partner_keeps_mutex_witness:
  "run example_env (handle_conn_accept 4 zero_msg (Ret ()))
     (example_srv [(4, CHAT_STATUS_FREE, INVALID_FD)]) =
   Done () ((example_srv [(4, CHAT_STATUS_FREE, INVALID_FD)])\<lparr>mutex := True\<rparr>)"
  by (rule accept_without_partner_keeps_mutex [THEN conjunct1]) (simp_all add: example_simps)

section \<open>Names\<close>

lemma distinct_names_reg: "distinct_names q \<longleftrightarrow> distinct (names_of q)"
  by (simp add: distinct_names_def names_of_def)

lemma named_None: "named c q = None \<longleftrightarrow> cstr c \<notin> set (names_of q)"
  by (auto simp: named_def find_None_notin names_of_def image_iff)

lemma names_fit: "wf_queue q \<Longrightarrow> s \<in> set (names_of q) \<Longrightarrow> length s \<le> 63"
  using wf_queue_node wf_name_length by (fastforce simp: names_of_def wf_node_def)

text \<open>
  C8: a name request for a name of at most 63 bytes leaves the names of all clients distinct, and
  it is granted exactly if nobody has the name, the client itself included.
\<close>

theorem set_name_keeps_names_distinct:
  assumes "idle s" and "f \<in> live_fds (queue s)" and "wf_msg msg" and "terminated (msg_buf msg)"
    and "distinct_names (queue s)" and "length (cstr (msg_buf msg)) \<le> 63"
  shows "\<exists>s' granted. run e (set_name_handler f msg k) s = run e k s' \<and> idle s' \<and>
      distinct_names (queue s') \<and>
      granted = (cstr (msg_buf msg) \<notin> set (names_of (queue s))) \<and>
      name_of f (queue s') = (if granted then Some (cstr (msg_buf msg)) else name_of f (queue s)) \<and>
      sent s' = sent s @ [(f, set_type (if granted then MSG_SET_NAME_ACK_TYPE
                                        else MSG_SET_NAME_NACK_TYPE) zero_msg)]"
proof (cases "named (msg_buf msg) (queue s)")
  case None
  let ?t = "cstr (msg_buf msg)"
  have fresh: "?t \<notin> set (names_of (queue s))" using None by (simp add: named_None)
  then have "distinct_names (rename f ?t (queue s))"
    using assms(5) by (intro distinct_names_rename) (auto simp: names_of_def image_iff)
  moreover have "wf_queue (rename f ?t (queue s))"
    using wf_rename [of "queue s" f ?t] assms(1,6) by (simp add: idle_def)
  ultimately show ?thesis
    using run_set_name_free [OF assms(1-4) None] assms(1,2,6) fresh
    by (intro exI [of _ "emit [(f, set_type MSG_SET_NAME_ACK_TYPE zero_msg)]
          (upd_queue (rename f ?t) s)"] exI [of _ True])
       (simp add: idle_def name_of_rename)
next
  case (Some n)
  then have "cstr (msg_buf msg) \<in> set (names_of (queue s))"
    using named_None [of "msg_buf msg" "queue s"] by auto
  with run_set_name_taken [OF assms(1-4) Some] assms(1,5) show ?thesis
    by (intro exI [of _ "emit [(f, set_type MSG_SET_NAME_NACK_TYPE zero_msg)] s"] exI [of _ False])
       (simp add: idle_def)
qed

theorem set_name_keeps_names_distinct_witness:
  "\<exists>s'. run example_env (set_name_handler 4 (text_msg MSG_SET_NAME_REQ_TYPE ''bob'') (Ret ()))
       (example_srv [(4, CHAT_STATUS_FREE, INVALID_FD), (5, CHAT_STATUS_FREE, INVALID_FD)]) = Done () s'
     \<and> distinct_names (queue s') \<and> name_of 4 (queue s') = Some ''bob''"
proof -
  let ?s = "example_srv [(4, CHAT_STATUS_FREE, INVALID_FD), (5, CHAT_STATUS_FREE, INVALID_FD)]"
  let ?m = "text_msg MSG_SET_NAME_REQ_TYPE ''bob''"
  have "idle ?s" and "4 \<in> live_fds (queue ?s)" and "wf_msg ?m" and "terminated (msg_buf ?m)"
    by (simp_all add: example_simps wf_msg_def)
  moreover have "distinct_names (queue ?s)" by (simp add: distinct_names_def)
  moreover have "''bob'' \<notin> set (names_of (queue ?s))" by (simp add: names_of_def default_name_def)
  ultimately show ?thesis
    using set_name_keeps_names_distinct [of ?s 4 ?m example_env "Ret ()"] by auto
qed

text \<open>
  C9: the test for a free name compares the text as sent, but 63 bytes of it are stored: a longer
  name is always granted, and gives the client the name of anybody who has its first 63 bytes.
\<close>

theorem long_name_duplicates:
  assumes "idle s" and "f \<in> live_fds (queue s)" and "wf_msg msg" and "terminated (msg_buf msg)"
    and "63 < length (cstr (msg_buf msg))"
    and "name_of g (queue s) = Some (take 63 (cstr (msg_buf msg)))" and "g \<noteq> f"
  shows "\<exists>s'. run e (set_name_handler f msg k) s = run e k s' \<and>
      sent s' = sent s @ [(f, set_type MSG_SET_NAME_ACK_TYPE zero_msg)] \<and>
      name_of f (queue s') = name_of g (queue s') \<and> name_of g (queue s') = name_of g (queue s)"
proof -
  let ?t = "take 63 (cstr (msg_buf msg))"
  have "cstr (msg_buf msg) \<notin> set (names_of (queue s))"
    using names_fit [OF idle_wf [OF assms(1)], of "cstr (msg_buf msg)"] assms(5) by auto
  then have "named (msg_buf msg) (queue s) = None" by (simp add: named_None)
  note run_set_name_free [OF assms(1-4) this]
  moreover have "NUL \<notin> set ?t" by (auto dest: in_set_takeD)
  ultimately show ?thesis
    using assms(2,6,7)
    by (intro exI [of _ "emit [(f, set_type MSG_SET_NAME_ACK_TYPE zero_msg)]
          (upd_queue (rename f ?t) s)"]) (simp add: name_of_rename)
qed

theorem long_name_duplicates_witness:
  "\<exists>s'. run example_env (set_name_handler 4 (text_msg MSG_SET_NAME_REQ_TYPE (replicate 64 (CHR ''x''))) (Ret ()))
       (upd_queue (rename 5 (replicate 63 (CHR ''x'')))
         (example_srv [(4, CHAT_STATUS_FREE, INVALID_FD), (5, CHAT_STATUS_FREE, INVALID_FD)])) = Done () s'
     \<and> name_of 4 (queue s') = name_of 5 (queue s')"
proof -
  let ?base = "example_srv [(4, CHAT_STATUS_FREE, INVALID_FD), (5, CHAT_STATUS_FREE, INVALID_FD)]"
  let ?x = "replicate 63 (CHR ''x'')" and ?m = "text_msg MSG_SET_NAME_REQ_TYPE (replicate 64 (CHR ''x''))"
  let ?s = "upd_queue (rename 5 ?x) ?base"
  have idle: "idle ?base" and live: "4 \<in> live_fds (queue ?base)" "5 \<in> live_fds (queue ?base)"
    by (simp_all add: example_simps)
  have 1: "idle ?s"
    using idle wf_rename [of "queue ?base" 5 ?x] by (simp add: idle_def)
  have 2: "4 \<in> live_fds (queue ?s)" using live by simp
  have 3: "wf_msg ?m" "terminated (msg_buf ?m)" "63 < length (cstr (msg_buf ?m))"
    by (simp_all add: wf_msg_def)
  have 4: "name_of 5 (queue ?s) = Some (take 63 (cstr (msg_buf ?m)))"
    using live(2) by (simp add: name_of_rename)
  have 5: "(5 :: c_int) \<noteq> 4" by simp
  obtain s' where "run example_env (set_name_handler 4 ?m (Ret ())) ?s = run example_env (Ret ()) s'"
    and "name_of 4 (queue s') = name_of 5 (queue s')"
    using long_name_duplicates [OF 1 2 3 4 5, of example_env "Ret ()"] by blast
  then show ?thesis by (intro exI [of _ s']) simp
qed

text \<open>
  C10: the reply to a list request holds whole names, each followed by a space, in the order the
  clients connected; it never overflows the message, and a name is left out only if it and those
  before it would not fit.
\<close>

theorem client_list_reply:
  assumes "idle s" and "f \<in> live_fds (queue s)"
  shows "\<exists>n text. run e (send_client_list_handler f k) s =
        run e k (emit [(f, text_msg MSG_GET_CLIENT_LIST_TYPE text)] s) \<and>
      n \<le> length (names_of (queue s)) \<and>
      text = concat (map (\<lambda>nm. nm @ '' '') (take n (names_of (queue s)))) \<and>
      length text < MAX_MSG_LEN \<and>
      (n < length (names_of (queue s)) \<longrightarrow>
         MAX_MSG_LEN \<le> length (concat (map (\<lambda>nm. nm @ '' '') (take (Suc n) (names_of (queue s))))))"
  using run_client_list [OF assms, of e k] fitting_prefix [of "names_of (queue s)" 0]
    length_fitting [of 0 "names_of (queue s)"]
  by (metis add_0 zero_less_numeral)

theorem client_list_reply_witness:
  "\<exists>n text. run example_env (send_client_list_handler 4 (Ret ()))
        (example_srv [(4, CHAT_STATUS_FREE, INVALID_FD)]) =
      run example_env (Ret ()) (emit [(4, text_msg MSG_GET_CLIENT_LIST_TYPE text)]
        (example_srv [(4, CHAT_STATUS_FREE, INVALID_FD)])) \<and> n \<le> 1 \<and>
      text = concat (map (\<lambda>nm. nm @ '' '') (take n [default_name 4]))"
  using client_list_reply [of "example_srv [(4, CHAT_STATUS_FREE, INVALID_FD)]" 4 example_env "Ret ()"]
  by (fastforce simp: example_simps names_of_def)

end
