(* ===== verification/Server_Life.thy ===== *)
theory Server_Life
  imports Server_Safety
begin

text \<open>
  The life of a connection and of the server: registration and handshake, removal, the accept
  loop's limit, and the shutdown.
\<close>

section \<open>Registration and removal\<close>

definition add_node :: "c_int \<Rightarrow> tid \<Rightarrow> addr \<Rightarrow> client_queue \<Rightarrow> client_queue" where
  "add_node f self a q = q\<lparr>client_list := client_list q @ [new_node f self a],
     total_available_clients := total_available_clients q + 1\<rparr>"

lemma add_client_succ:
  "total_available_clients q < MAX_CLIENT \<Longrightarrow>
     add_client_node_to_queue (Some a) self (Some f) q = Some (SERVER_QUEUE_SUCC, add_node f self a q)"
  by (simp add: add_client_eq add_node_def)

lemma names_of_add [simp]: "names_of (add_node f self a q) = names_of q @ [default_name f]"
  by (simp add: names_of_def add_node_def)

lemma live_fds_add [simp]: "live_fds (add_node f self a q) = insert f (live_fds q)"
  by (auto simp: live_fds_def add_node_def)

lemma wf_add_node:
  assumes "wf_queue q" and "f \<noteq> INVALID_FD" and "f \<notin> live_fds q" and "a \<notin> node_addrs q"
    and "total_available_clients q < MAX_CLIENT"
  shows "wf_queue (add_node f self a q)"
  using wf_add_client [OF assms(1-3) _ add_client_succ [OF assms(5), of a self f]] assms(4) by simp

text \<open>
  C11: registering a new connection and removing it again is the identity on the list and its
  count, and closes the socket and frees the node exactly once; in between the client is free,
  without partner, under its default name, and at the end of the list.
\<close>

theorem add_then_remove:
  assumes "wf_queue q" and "f \<noteq> INVALID_FD" and "f \<notin> live_fds q" and "a \<notin> node_addrs q"
    and "total_available_clients q < MAX_CLIENT"
  shows "\<exists>q1. add_client_node_to_queue (Some a) self (Some f) q = Some (SERVER_QUEUE_SUCC, q1) \<and>
      wf_queue q1 \<and> get_client_chatting_status_by_fd f q1 = CHAT_STATUS_FREE \<and>
      get_conn_fd_by_fd f q1 = INVALID_FD \<and> names_of q1 = names_of q @ [default_name f] \<and>
      remove_client_node_from_queue_by_fd f q1 =
        (SERVER_QUEUE_SUCC, q\<lparr>closed_fds := closed_fds q @ [f],
           detached_threads := detached_threads q @ [self], freed_nodes := freed_nodes q @ [a]\<rparr>)"
proof -
  let ?q1 = "add_node f self a q"
  have fresh: "node_by_fd f (client_list q) = None" using assms(3) by (simp add: node_by_fd_None)
  have n: "node_by_fd f (client_list ?q1) = Some (new_node f self a)"
    using fresh by (simp add: node_by_fd_def add_node_def find_append)
  have "remove1_by (\<lambda>n. cl_fd n = f) (ns @ [new_node f self a]) = ns"
    if "find (\<lambda>n. cl_fd n = f) ns = None" for ns
    using that by (induction ns) (auto split: if_splits)
  then have rest: "remove1_by (\<lambda>n. cl_fd n = f) (client_list ?q1) = client_list q"
    using fresh by (simp add: add_node_def node_by_fd_def)
  have wf1: "wf_queue ?q1" using assms by (rule wf_add_node)
  have "remove_client_node_from_queue_by_fd f ?q1 =
      (SERVER_QUEUE_SUCC, q\<lparr>closed_fds := closed_fds q @ [f],
        detached_threads := detached_threads q @ [self], freed_nodes := freed_nodes q @ [a]\<rparr>)"
    using remove_eq [OF wf1 n] rest by (simp add: release_node_def) (simp add: add_node_def)
  then show ?thesis
    using add_client_succ [OF assms(5)] wf1 n assms(2)
    by (simp add: get_client_chatting_status_by_fd_def get_conn_fd_by_fd_def)
qed

theorem add_then_remove_witness:
  "\<exists>q1. add_client_node_to_queue (Some 100) 7 (Some 4) init_queue = Some (SERVER_QUEUE_SUCC, q1) \<and>
     wf_queue q1 \<and> fst (remove_client_node_from_queue_by_fd 4 q1) = SERVER_QUEUE_SUCC \<and>
     closed_fds (snd (remove_client_node_from_queue_by_fd 4 q1)) = [4]"
proof -
  have "wf_queue init_queue" by (rule wf_init_queue)
  moreover have "100 \<notin> node_addrs init_queue" and "total_available_clients init_queue < MAX_CLIENT"
    by (simp_all add: node_addrs_def init_queue_def)
  moreover have "4 \<notin> live_fds init_queue" and "(4 :: c_int) \<noteq> INVALID_FD" by simp_all
  ultimately obtain q1 where "add_client_node_to_queue (Some 100) 7 (Some 4) init_queue =
      Some (SERVER_QUEUE_SUCC, q1)" and "wf_queue q1"
    and "remove_client_node_from_queue_by_fd 4 q1 = (SERVER_QUEUE_SUCC,
      init_queue\<lparr>closed_fds := closed_fds init_queue @ [4],
        detached_threads := detached_threads init_queue @ [7],
        freed_nodes := freed_nodes init_queue @ [100]\<rparr>)"
    using add_then_remove [of init_queue 4 100 7] by blast
  then show ?thesis by (intro exI [of _ q1]) (simp add: init_queue_def)
qed



section \<open>The handshake\<close>

lemma run_thread_start:
  assumes "idle s" and "total_available_clients (queue s) < MAX_CLIENT"
    and "env_malloc e (clock s) = Some a"
  shows "\<exists>s'. run e (client_thread_start f) s =
        Done (if handshake_ok e (Suc (clock s)) then Again else Leave ERR_CONN_EST) s' \<and>
      \<not> mutex s' \<and> queue s' = add_node f (env_self e) a (queue s) \<and>
      sent s' = sent s @ [(f, text_msg MSG_CONN_ESTABLISH_REQ SERVER_UNIQUEUE_ID)]"
proof -
  let ?s1 = "s\<lparr>clock := Suc (clock s), queue := add_node f (env_self e) a (queue s)\<rparr>"
  have start: "run e (client_thread_start f) s =
      run e (send_conn_establish_msg f (\<lambda>err. if SERVER_SUCC \<noteq> err then Ret (Leave err) else Ret Again)) ?s1"
    using assms add_client_succ [OF assms(2)]
    by (cases s) (simp add: client_thread_start_def run_simps idle_def)
  obtain s' where "run e (send_conn_establish_msg f
        (\<lambda>err. if SERVER_SUCC \<noteq> err then Ret (Leave err) else Ret Again)) ?s1 =
      run e ((\<lambda>err. if SERVER_SUCC \<noteq> err then Ret (Leave err) else Ret Again)
        (if handshake_ok e (clock ?s1) then SERVER_SUCC else ERR_CONN_EST)) s'"
    and "mutex s' = mutex ?s1" "queue s' = queue ?s1"
      "sent s' = sent ?s1 @ [(f, text_msg MSG_CONN_ESTABLISH_REQ SERVER_UNIQUEUE_ID)]"
    using run_send_conn_establish by blast
  then show ?thesis
    using start assms(1) by (intro exI [of _ s']) (auto simp: idle_def)
qed

text \<open>
  C13: a new connection takes a slot before it has proved to be a client, and a failed handshake
  does not give it back: the thread ends, the node stays in the list, counted and connectable,
  and the socket is not closed.
\<close>

theorem handshake_outcome:
  assumes "idle s" and "total_available_clients (queue s) < MAX_CLIENT"
    and "env_malloc e (clock s) = Some a"
  shows "\<exists>s'. run e (client_thread_start f) s =
        Done (if handshake_ok e (Suc (clock s)) then Again else Leave ERR_CONN_EST) s' \<and>
      \<not> mutex s' \<and> queue s' = add_node f (env_self e) a (queue s) \<and>
      sent s' = sent s @ [(f, text_msg MSG_CONN_ESTABLISH_REQ SERVER_UNIQUEUE_ID)]"
  by (rule run_thread_start [OF assms])

theorem handshake_outcome_witness:
  "\<exists>s'. run example_env (client_thread_start 4) init_srv_state = Done (Leave ERR_CONN_EST) s' \<and>
     total_available_clients (queue s') = 1 \<and> closed_fds (queue s') = []"
proof -
  have "idle init_srv_state" and "total_available_clients (queue init_srv_state) < MAX_CLIENT"
    by (simp_all add: idle_def init_srv_state_def wf_init_queue) (simp add: init_queue_def)
  moreover have "env_malloc example_env (clock init_srv_state) = Some 100"
    by (simp add: example_env_def init_srv_state_def)
  moreover have "\<not> handshake_ok example_env t" for t
    by (simp add: handshake_ok_def example_env_def)
  ultimately show ?thesis
    using handshake_outcome [of init_srv_state example_env 100 4]
    by (auto simp: add_node_def init_srv_state_def init_queue_def)
qed

section \<open>The accept loop\<close>

text \<open>
  C14: a thread is started for a new connection only below the limit of 20 clients; at the limit
  the connection gets the message that says so and nothing else happens.
\<close>

theorem accept_respects_limit:
  assumes "idle s" and "\<not> env_terminate e (clock s)" and "env_accept e (Suc (clock s)) = Accept_Fd f"
  shows "\<exists>ctl s'. run e accept_loop s = Done ctl s' \<and> idle s' \<and> queue s' = queue s \<and>
      (if length (client_list (queue s)) < 20
       then sent s' = sent s \<and> (spawned s' = spawned s \<or> spawned s' = spawned s @ [f])
       else spawned s' = spawned s \<and> ctl = Again \<and>
            sent s' = sent s @ [(f, set_type MSG_MAX_CLIENT_REACHED zero_msg)])"
proof -
  have cnt: "total_available_clients (queue s) < MAX_CLIENT \<longleftrightarrow> length (client_list (queue s)) < 20"
    using assms(1) by (simp add: idle_def wf_queue_def word_less_nat_alt)
  show ?thesis
    using assms cnt
    by (cases s) (auto simp: accept_loop_def run_simps idle_def emit_def Let_def)
qed

theorem accept_respects_limit_witness:
  "\<exists>ctl s'. run (example_env\<lparr>env_accept := (\<lambda>_. Accept_Fd 9)\<rparr>) accept_loop init_srv_state = Done ctl s' \<and>
     sent s' = []"
proof -
  have "idle init_srv_state" by (simp add: idle_def init_srv_state_def wf_init_queue)
  then show ?thesis
    using accept_respects_limit
      [of init_srv_state "example_env\<lparr>env_accept := (\<lambda>_. Accept_Fd 9)\<rparr>" 9]
    by (fastforce simp: example_env_def init_srv_state_def init_queue_def)
qed

section \<open>Shutdown\<close>

lemma run_join_threads:
  "run e (join_threads ts k) s = run e k (s\<lparr>joined := joined s @ ts\<rparr>)"
  by (induction ts arbitrary: s) simp_all



end
