(* ===== verification/Server_System.thy ===== *)
theory Server_System
  imports Server_Life
begin

text \<open>
  The server as a whole: the main thread in its accept loop and one thread per connection,
  interleaved action by action over the mutex, the client list and the network. The programs are
  those of \<open>Server_Handlers\<close> and \<open>Server_Threads\<close>; the theory adds the scheduler and shows, by
  rule induction over the reachable states, that the list stays well-formed and is written by one
  thread at a time.
\<close>

section \<open>States and steps\<close>

text \<open>
  A thread: the main thread, the thread of a connection with its \<^verbatim>\<open>my_socket\<close>, or one that
  has returned. Thread 0 is the main thread.
\<close>

datatype thread = Main "loop_ctl prog" | Client c_int "loop_ctl prog" | Ended

record sys =
  owner :: "tid option"
  shared :: client_queue
  wire :: "(c_int \<times> msg_t) list"
  accepted :: "c_int list"
  terminate :: bool
  threads :: "tid \<Rightarrow> thread option"

text \<open>A descriptor is open if it was accepted more often than it was closed.\<close>

definition open_fd :: "sys \<Rightarrow> c_int \<Rightarrow> bool" where
  "open_fd s f \<longleftrightarrow> count_list (closed_fds (shared s)) f < count_list (accepted s) f"

definition init_sys :: sys where
  "init_sys = \<lparr>owner = None, shared = init_queue, wire = [], accepted = [], terminate = False,
               threads = [0 \<mapsto> Main accept_loop]\<rparr>"

text \<open>
  One action of thread \<open>t\<close>. What the rules ask of the system calls is what their manuals promise:
  \<^verbatim>\<open>malloc\<close> returns memory that is not in use, \<^verbatim>\<open>accept\<close> a descriptor that is not
  open, \<^verbatim>\<open>pthread_create\<close> a new thread, \<^verbatim>\<open>recv\<close> with a positive result at most
  \<^verbatim>\<open>sizeof(msg_t)\<close> bytes; a locked mutex is waited for. Unlocking a mutex of another thread
  and reading through a dangling pointer are undefined.
\<close>

inductive act :: "tid \<Rightarrow> 'a prog \<Rightarrow> sys \<Rightarrow> 'a prog \<Rightarrow> sys \<Rightarrow> bool" for t :: tid where
  lock: "owner s = None \<Longrightarrow> act t (Lock p) s p (s\<lparr>owner := Some t\<rparr>)"
| unlock: "owner s = Some t \<Longrightarrow> act t (Unlock p) s p (s\<lparr>owner := None\<rparr>)"
| bad_unlock: "owner s \<noteq> Some t \<Longrightarrow> act t (Unlock p) s Fault s"
| on_list: "act t (Call u k) s (k (shared s)) (s\<lparr>shared := u (shared s)\<rparr>)"
| read_name: "read_name (shared s) np = Some b \<Longrightarrow> act t (Read_Name np k) s (k b) s"
| dangling: "read_name (shared s) np = None \<Longrightarrow> act t (Read_Name np k) s Fault s"
| send: "act t (Send f m k) s (k r) (s\<lparr>wire := wire s @ [(f, m)]\<rparr>)"
| recv: "(\<And>bs. r = Recv_Bytes bs \<Longrightarrow> bs \<noteq> [] \<and> length bs \<le> sizeof_msg) \<Longrightarrow> act t (Recv f k) s (k r) s"
| poll: "act t (Poll f k) s (k r) s"
| malloc: "(\<And>a. m = Some a \<Longrightarrow> a \<notin> node_addrs (shared s)) \<Longrightarrow> act t (Malloc k) s (k m) s"
| self: "act t (Self k) s (k t) s"
| terminating: "act t (Terminating k) s (k (terminate s)) s"
| accept: "f \<noteq> INVALID_FD \<Longrightarrow> \<not> open_fd s f \<Longrightarrow>
    act t (Accept k) s (k (Accept_Fd f)) (s\<lparr>accepted := accepted s @ [f]\<rparr>)"
| accept_error: "act t (Accept k) s (k (Accept_Error b)) s"
| create: "threads s t' = None \<Longrightarrow>
    act t (Create_Thread f k) s (k False)
      (s\<lparr>threads := (threads s)(t' \<mapsto> Client f (client_thread_start f))\<rparr>)"
| create_error: "act t (Create_Thread f k) s (k True) s"
| join: "threads s t' = Some Ended \<Longrightarrow> act t (Join t' p) s p s"

definition set_thread :: "tid \<Rightarrow> thread \<Rightarrow> sys \<Rightarrow> sys" where
  "set_thread t th s = s\<lparr>threads := (threads s)(t \<mapsto> th)\<rparr>"

text \<open>
  A step of the system: an action of some thread, the next round of a thread's loop, the end of a
  client's thread, or the arrival of \<^verbatim>\<open>SIGINT\<close>. The model ends where the main thread leaves
  its loop; what it does then is \<open>server_shutdown\<close>.
\<close>

inductive step :: "sys \<Rightarrow> sys \<Rightarrow> bool" where
  main_act: "threads s t = Some (Main p) \<Longrightarrow> act t p s p' s' \<Longrightarrow> step s (set_thread t (Main p') s')"
| main_again: "threads s t = Some (Main (Ret Again)) \<Longrightarrow> step s (set_thread t (Main accept_loop) s)"
| client_act: "threads s t = Some (Client f p) \<Longrightarrow> act t p s p' s' \<Longrightarrow>
    step s (set_thread t (Client f p') s')"
| client_again: "threads s t = Some (Client f (Ret Again)) \<Longrightarrow>
    step s (set_thread t (Client f (client_thread_loop f)) s)"
| client_end: "threads s t = Some (Client f (Ret (Leave err))) \<Longrightarrow> step s (set_thread t Ended s)"
| signal: "step s (s\<lparr>terminate := sig_int_handler 2 (terminate s)\<rparr>)"

inductive_cases act_RetE: "act t (Ret a) s p' s'"
inductive_cases act_FaultE: "act t Fault s p' s'"
inductive_simps act_Lock: "act t (Lock p) s p' s'"
inductive_simps act_Unlock: "act t (Unlock p) s p' s'"
inductive_simps act_Call: "act t (Call u k) s p' s'"

inductive reachable :: "sys \<Rightarrow> bool" where
  init: "reachable init_sys"
| more: "reachable s \<Longrightarrow> step s s' \<Longrightarrow> reachable s'"

section \<open>What a thread may do to the list\<close>

text \<open>
  The phases of a connection's thread, by its own node: not in the list yet, in the list, removed.
  \<open>effect f ph ph' q q'\<close>: the change from \<open>q\<close> to \<open>q'\<close> keeps the list well-formed, and the
  descriptors in it change only by \<open>f\<close> entering or leaving, together with its socket's closing.
\<close>

datatype phase = Fresh | Registered | Gone

definition effect :: "c_int \<Rightarrow> phase \<Rightarrow> phase \<Rightarrow> client_queue \<Rightarrow> client_queue \<Rightarrow> bool" where
  "effect f ph ph' q q' \<longleftrightarrow> wf_queue q' \<and>
     (if ph = ph' then live_fds q' = live_fds q \<and> closed_fds q' = closed_fds q
      else if ph = Fresh then
        ph' = Registered \<and> live_fds q' = insert f (live_fds q) \<and> closed_fds q' = closed_fds q
      else
        ph = Registered \<and> ph' = Gone \<and> live_fds q' = live_fds q - {f} \<and> closed_fds q' = closed_fds q @ [f])"

text \<open>What the thread knows of the list while the other threads keep to the same discipline.\<close>

definition view :: "c_int \<Rightarrow> phase \<Rightarrow> addr set \<Rightarrow> client_queue \<Rightarrow> bool" where
  "view f ph A q \<longleftrightarrow> wf_queue q \<and> A \<inter> node_addrs q = {} \<and>
     (ph = Fresh \<longrightarrow> f \<notin> live_fds q) \<and> (ph = Registered \<longrightarrow> f \<in> live_fds q)"

text \<open>
  \<open>behaves f ph h A p\<close>: the thread with descriptor \<open>f\<close>, in phase \<open>ph\<close>, holding the mutex iff
  \<open>h\<close> and with the fresh memory \<open>A\<close> in its hands, has in \<open>p\<close> only calls with such an effect; it
  starts no thread, and goes round its loop only while it is registered.
\<close>

primrec behaves :: "c_int \<Rightarrow> phase \<Rightarrow> bool \<Rightarrow> addr set \<Rightarrow> loop_ctl prog \<Rightarrow> bool" where
  "behaves f ph h A (Ret a) \<longleftrightarrow> (a = Again \<longrightarrow> ph = Registered)"
| "behaves f ph h A Fault \<longleftrightarrow> True"
| "behaves f ph h A (Lock p) \<longleftrightarrow> h \<or> behaves f ph True {} p"
| "behaves f ph h A (Unlock p) \<longleftrightarrow> behaves f ph False {} p"
| "behaves f ph h A (Call u k) \<longleftrightarrow>
     (\<forall>q. view f ph A q \<longrightarrow>
        (if u q = q then behaves f ph h A (k q)
         else \<exists>ph'. effect f ph ph' q (u q) \<and> behaves f ph' h {} (k q)))"
| "behaves f ph h A (Read_Name np k) \<longleftrightarrow> (\<forall>b. behaves f ph h A (k b))"
| "behaves f ph h A (Send g m k) \<longleftrightarrow> (\<forall>r. behaves f ph h A (k r))"
| "behaves f ph h A (Recv g k) \<longleftrightarrow> (\<forall>r. behaves f ph h A (k r))"
| "behaves f ph h A (Poll g k) \<longleftrightarrow> (\<forall>r. behaves f ph h A (k r))"
| "behaves f ph h A (Malloc k) \<longleftrightarrow>
     (\<forall>m. behaves f ph h (if h then set_option m else {}) (k m))"
| "behaves f ph h A (Self k) \<longleftrightarrow> (\<forall>r. behaves f ph h A (k r))"
| "behaves f ph h A (Terminating k) \<longleftrightarrow> (\<forall>r. behaves f ph h A (k r))"
| "behaves f ph h A (Accept k) \<longleftrightarrow> False"
| "behaves f ph h A (Create_Thread g k) \<longleftrightarrow> False"
| "behaves f ph h A (Join t p) \<longleftrightarrow> behaves f ph h A p"

text \<open>The main thread starts a thread only for the connection it has just accepted.\<close>

primrec hands_over :: "c_int option \<Rightarrow> loop_ctl prog \<Rightarrow> bool" where
  "hands_over P (Ret a) \<longleftrightarrow> True"
| "hands_over P Fault \<longleftrightarrow> True"
| "hands_over P (Lock p) \<longleftrightarrow> hands_over P p"
| "hands_over P (Unlock p) \<longleftrightarrow> hands_over P p"
| "hands_over P (Call u k) \<longleftrightarrow> u = id \<and> (\<forall>q. hands_over P (k q))"
| "hands_over P (Read_Name np k) \<longleftrightarrow> (\<forall>b. hands_over P (k b))"
| "hands_over P (Send g m k) \<longleftrightarrow> (\<forall>r. hands_over P (k r))"
| "hands_over P (Recv g k) \<longleftrightarrow> (\<forall>r. hands_over P (k r))"
| "hands_over P (Poll g k) \<longleftrightarrow> (\<forall>r. hands_over P (k r))"
| "hands_over P (Malloc k) \<longleftrightarrow> (\<forall>m. hands_over P (k m))"
| "hands_over P (Self k) \<longleftrightarrow> (\<forall>r. hands_over P (k r))"
| "hands_over P (Terminating k) \<longleftrightarrow> (\<forall>r. hands_over P (k r))"
| "hands_over P (Accept k) \<longleftrightarrow>
     (\<forall>f. hands_over (Some f) (k (Accept_Fd f))) \<and> (\<forall>b. hands_over None (k (Accept_Error b)))"
| "hands_over P (Create_Thread f k) \<longleftrightarrow> P = Some f \<and> (\<forall>r. hands_over None (k r))"
| "hands_over P (Join t p) \<longleftrightarrow> hands_over P p"

subsection \<open>The operations\<close>

named_theorems behaves_intros \<open>discipline of the actions and operations\<close>

lemma closed_fds_put [simp]:
  "closed_fds (put_status g c q) = closed_fds q" "closed_fds (put_to_fd g x q) = closed_fds q"
  "closed_fds (rename g s q) = closed_fds q"
  by (simp_all add: put_status_eq put_to_fd_eq rename_def write_node_def)

lemma effect_same:
  "wf_queue q \<Longrightarrow> valid_status c \<Longrightarrow> effect f ph ph q (put_status g c q)"
  "wf_queue q \<Longrightarrow> effect f ph ph q (put_to_fd g x q)"
  "wf_queue q \<Longrightarrow> effect f ph ph q (rename g (take 63 s) q)"
  by (simp_all add: effect_def status.wf_put status.live_put partner.wf_put partner.live_put wf_rename)

lemma behaves_or_fault [behaves_intros]:
  "(\<And>y. x = Some y \<Longrightarrow> behaves f ph h A (k y)) \<Longrightarrow> behaves f ph h A (or_fault x k)"
  by (cases x) simp_all

lemma behaves_print_str [behaves_intros]:
  "behaves f ph h A k \<Longrightarrow> behaves f ph h A (print_str b k)"
  by (simp add: print_str_def behaves_or_fault)

lemma behaves_query [behaves_intros]:
  "(\<And>y. behaves f ph h A (k y)) \<Longrightarrow> behaves f ph h A (query g k)"
  by (simp add: query_def)

lemma behaves_query_opt [behaves_intros]:
  "(\<And>y. behaves f ph h A (k y)) \<Longrightarrow> behaves f ph h A (query_opt g k)"
  by (simp add: query_opt_def behaves_or_fault)

lemma behaves_send_msg [behaves_intros]:
  "(\<And>err. behaves f ph h A (k err)) \<Longrightarrow> behaves f ph h A (send_msg_to_fd g m k)"
  by (simp add: send_msg_to_fd_def)

lemma behaves_call:
  assumes "\<And>q. wf_queue q \<Longrightarrow> effect f ph ph q (snd (g q))" and "\<And>y. behaves f ph h {} (k y)"
  shows "behaves f ph h {} (call g k)"
  using assms by (auto simp: call_def view_def)

lemma behaves_set_status [behaves_intros]:
  "valid_status c \<Longrightarrow> (\<And>y. behaves f ph h {} (k y)) \<Longrightarrow>
     behaves f ph h {} (call (set_client_chatting_status_by_fd g c) k)"
  by (intro behaves_call effect_same)

lemma behaves_set_to_fd [behaves_intros]:
  "(\<And>y. behaves f ph h {} (k y)) \<Longrightarrow> behaves f ph h {} (call (set_to_fd_by_fd g x) k)"
  by (intro behaves_call effect_same)

lemma behaves_set_name [behaves_intros]:
  assumes "ok_text b" and "\<And>y. behaves f Registered h {} (k y)"
  shows "behaves f Registered h {} (call_opt (set_name_of_client_by_client_fd f (Some b)) k)"
  using assms
  by (auto simp: call_opt_def view_def set_name_eq intro!: exI [of _ Registered] effect_same(3))

lemma closed_fds_remove:
  "wf_queue q \<Longrightarrow> f \<in> live_fds q \<Longrightarrow>
     closed_fds (snd (remove_client_node_from_queue_by_fd f q)) = closed_fds q @ [f]"
  using node_by_fd_live [of f q] node_by_fd_Some [of f "client_list q"]
  by (auto simp: remove_eq release_node_def)

lemma behaves_remove [behaves_intros]:
  assumes "\<And>y. behaves f Gone h {} (k y)"
  shows "behaves f Registered h {} (call (remove_client_node_from_queue_by_fd f) k)"
proof -
  let ?u = "\<lambda>q. snd (remove_client_node_from_queue_by_fd f q)"
  have e: "effect f Registered Gone q (?u q)" if "view f Registered {} q" for q
    using that by (simp add: effect_def view_def live_fds_remove closed_fds_remove wf_remove)
  have "?u q \<noteq> q" if "view f Registered {} q" for q
    using that closed_fds_remove [of q f] by (metis view_def append_self_conv not_Cons_self2)
  then show ?thesis using assms e by (simp add: call_def) metis
qed

lemma behaves_add [behaves_intros]:
  assumes "f \<noteq> INVALID_FD"
    and "\<And>r. r \<noteq> SERVER_QUEUE_SUCC \<Longrightarrow> behaves f Fresh h (set_option m) (k r)"
    and "behaves f Registered h {} (k SERVER_QUEUE_SUCC)"
  shows "behaves f Fresh h (set_option m) (call_opt (add_client_node_to_queue m self (Some f)) k)"
proof -
  have "effect f Fresh Registered q (add_node f self a q)"
    if "view f Fresh {a} q" and "\<not> MAX_CLIENT \<le> total_available_clients q" for q a
    using that assms(1) wf_add_node [of q f a self]
    by (simp add: effect_def view_def) (simp add: add_node_def)
  moreover have "add_node f self a q \<noteq> q" for q a
    by (metis names_of_add append_self_conv not_Cons_self2)
  ultimately have "effect f Fresh Registered q (add_node f self a q) \<and> add_node f self a q \<noteq> q"
    if "view f Fresh {a} q" and "\<not> MAX_CLIENT \<le> total_available_clients q" for q a
    using that by blast
  then show ?thesis
    using assms(2,3)
    by (auto simp: call_opt_def add_client_eq add_node_def [symmetric] split: option.splits)
qed

subsection \<open>The programs\<close>

lemma behaves_handlers:
  assumes k: "\<And>h. behaves f Registered h {} k"
  shows "ok_text (msg_buf msg) \<Longrightarrow> behaves f Registered h {} (set_name_handler f msg k)"
    "behaves f Registered h {} (send_client_list_handler f k)"
    "behaves f Registered h {} (handle_decline_conn_request f k)"
    "behaves f Registered h {} (handle_tx_msg f msg k)"
    "behaves f Registered h {} (handle_chat_connection_request f c k)"
    "behaves f Registered h {} (handle_conn_accept f msg k)"
  unfolding set_name_handler_def send_client_list_handler_def handle_decline_conn_request_def
    handle_tx_msg_def handle_chat_connection_request_def handle_conn_accept_def
  using k by (auto simp: Let_def intro!: behaves_intros split: option.splits)

lemma behaves_handle_rx_msg:
  assumes "\<And>h. behaves f Registered h {} k" and "ok_text (msg_buf msg)"
  shows "behaves f Registered h {} (handle_rx_msg msg f k)"
  using behaves_handlers [OF assms(1)] assms by (cases "msg_type msg") (simp_all add: handle_rx_msg_eq)

lemma behaves_closed_conn:
  "(\<And>h. behaves f Gone h {} k) \<Longrightarrow> behaves f Registered h {} (client_closed_conn f k)"
  unfolding client_closed_conn_def by (auto simp: Let_def intro!: behaves_intros)

lemma wf_recv_into_any: "wf_msg m \<Longrightarrow> wf_msg (recv_into m bs)"
  using length_encode_msg [of m] un_le32_less
  by (auto simp: recv_into_def decode_msg_def wf_msg_def msg_buf_def sizeof_msg_def)

lemma ok_text_recv: "ok_text (msg_buf (recv_into zero_msg bs))"
  using wf_recv_into_any [OF wf_zero_msg, of bs] by (simp add: wf_msg_def ok_text_def)

lemma behaves_client_thread_loop: "behaves f Registered h {} (client_thread_loop f)"
  by (auto simp: client_thread_loop_def wait_to_recv_something_def ok_text_recv
      intro!: behaves_handle_rx_msg behaves_closed_conn
      split: poll_result.split recv_result.split)

lemma behaves_send_conn_establish:
  "(\<And>err. behaves f ph h A (k err)) \<Longrightarrow> behaves f ph h A (send_conn_establish_msg g k)"
  by (auto simp: send_conn_establish_msg_def intro!: behaves_intros split: recv_result.split)

lemma behaves_client_thread_start: "f \<noteq> INVALID_FD \<Longrightarrow> behaves f Fresh False {} (client_thread_start f)"
  by (auto simp: client_thread_start_def intro!: behaves_intros behaves_send_conn_establish)

lemma hands_over_accept_loop: "hands_over None accept_loop"
  by (auto simp: accept_loop_def send_msg_to_fd_def query_def split: accept_result.split)

section \<open>The invariant\<close>

definition client_ok :: "sys \<Rightarrow> tid \<Rightarrow> c_int \<Rightarrow> phase \<Rightarrow> addr set \<Rightarrow> loop_ctl prog \<Rightarrow> bool" where
  "client_ok s t f ph A p \<longleftrightarrow> f \<noteq> INVALID_FD \<and>
     guarded (owner s = Some t) p \<and> behaves f ph (owner s = Some t) A p \<and>
     (ph = Fresh \<longrightarrow> f \<notin> live_fds (shared s) \<and> open_fd s f) \<and>
     (ph = Registered \<longrightarrow> f \<in> live_fds (shared s)) \<and>
     A \<inter> node_addrs (shared s) = {} \<and> (A \<noteq> {} \<longrightarrow> owner s = Some t)"

definition main_ok :: "sys \<Rightarrow> tid \<Rightarrow> c_int option \<Rightarrow> loop_ctl prog \<Rightarrow> bool" where
  "main_ok s t P p \<longleftrightarrow> t = 0 \<and> guarded (owner s = Some t) p \<and> hands_over P p \<and>
     (\<forall>f. P = Some f \<longrightarrow> f \<noteq> INVALID_FD \<and> f \<notin> live_fds (shared s) \<and> open_fd s f)"

text \<open>
  \<open>ph\<close>, \<open>A\<close> and \<open>P\<close> are the phases and the fresh memory of the threads and the connection the
  main thread has in its hands; a descriptor is in use by one thread at a time.
\<close>

definition sys_ok :: "(tid \<Rightarrow> phase) \<Rightarrow> (tid \<Rightarrow> addr set) \<Rightarrow> c_int option \<Rightarrow> sys \<Rightarrow> bool" where
  "sys_ok ph A P s \<longleftrightarrow> wf_queue (shared s) \<and> (\<forall>f \<in> live_fds (shared s). open_fd s f) \<and>
     (\<forall>f. count_list (closed_fds (shared s)) f \<le> count_list (accepted s) f) \<and>
     (\<forall>t. owner s = Some t \<longrightarrow> threads s t \<noteq> None) \<and>
     (\<forall>t f p. threads s t = Some (Client f p) \<longrightarrow>
        client_ok s t f (ph t) (A t) p \<and> (P = Some f \<longrightarrow> ph t = Gone)) \<and>
     (\<forall>t p. threads s t = Some (Main p) \<longrightarrow> main_ok s t P p) \<and>
     (\<forall>t t' f p p'. threads s t = Some (Client f p) \<and> threads s t' = Some (Client f p') \<and>
        ph t \<noteq> Gone \<and> ph t' \<noteq> Gone \<longrightarrow> t = t')"

lemma set_thread_simps [simp]:
  "shared (set_thread t th s) = shared s" "owner (set_thread t th s) = owner s"
  "accepted (set_thread t th s) = accepted s" "wire (set_thread t th s) = wire s"
  "terminate (set_thread t th s) = terminate s"
  "threads (set_thread t th s) = (threads s)(t \<mapsto> th)"
  "open_fd (set_thread t th s) = open_fd s"
  "client_ok (set_thread t th s) = client_ok s" "main_ok (set_thread t th s) = main_ok s"
  by (simp_all add: set_thread_def open_fd_def [abs_def] client_ok_def [abs_def] main_ok_def [abs_def])

text \<open>What an action of the thread of \<open>f\<close> can mean to the others.\<close>

definition move :: "tid \<Rightarrow> c_int \<Rightarrow> phase \<Rightarrow> phase \<Rightarrow> sys \<Rightarrow> sys \<Rightarrow> bool" where
  "move t f ph ph' s s' \<longleftrightarrow> threads s' = threads s \<and> accepted s' = accepted s \<and>
     (\<forall>t'. t' \<noteq> t \<longrightarrow> owner s' = Some t' \<longleftrightarrow> owner s = Some t') \<and>
     (shared s' = shared s \<and> ph' = ph \<or> owner s = Some t \<and> effect f ph ph' (shared s) (shared s'))"

lemma client_act_move:
  assumes "act t p s p' s'" and "wf_queue (shared s)" and "client_ok s t f ph A p"
  shows "\<exists>ph' A'. move t f ph ph' s s' \<and> client_ok s' t f ph' A' p'"
  using assms
proof (cases rule: act.cases)
  case (on_list u k)
  show ?thesis
  proof (cases "u (shared s) = shared s")
    case True
    with on_list assms show ?thesis
      by (intro exI [of _ ph] exI [of _ A]) (simp add: move_def client_ok_def view_def open_fd_def)
  next
    case False
    have "view f ph A (shared s)" and "behaves f ph (owner s = Some t) A (Call u k)"
      using assms on_list by (simp_all add: view_def client_ok_def)
    with False obtain ph' where "effect f ph ph' (shared s) (u (shared s))"
      "behaves f ph' (owner s = Some t) {} (k (shared s))"
      by (auto dest!: spec [of _ "shared s"])
    moreover have "owner s = Some t" using False on_list assms(3) by (auto simp: client_ok_def)
    ultimately show ?thesis
      using on_list assms(3)
      by (intro exI [of _ ph'] exI [of _ "{}"])
         (auto simp: move_def client_ok_def effect_def open_fd_def split: if_splits)
  qed
next
  case (malloc m k)
  with assms(3) show ?thesis
    by (intro exI [of _ ph] exI [of _ "if owner s = Some t then set_option m else {}"])
       (auto simp: move_def client_ok_def open_fd_def)
next
  case lock
  with assms(3) show ?thesis
    by (intro exI [of _ ph] exI [of _ "{}"]) (simp add: move_def client_ok_def open_fd_def)
next
  case unlock
  with assms(3) show ?thesis
    by (intro exI [of _ ph] exI [of _ "{}"]) (simp add: move_def client_ok_def open_fd_def)
qed (use assms(3) in \<open>(intro exI [of _ ph] exI [of _ A], simp add: move_def client_ok_def open_fd_def)+\<close>)

lemma open_fd_effect:
  "effect f ph ph' (shared s) (shared s') \<Longrightarrow> accepted s' = accepted s \<Longrightarrow> g \<noteq> f \<Longrightarrow>
     open_fd s' g \<longleftrightarrow> open_fd s g"
  by (auto simp: effect_def open_fd_def split: if_splits)

lemma move_client_ok:
  assumes "move t f ph ph' s s'" and "t' \<noteq> t" and "client_ok s t' g ph2 A p"
    and "g \<noteq> f \<or> ph2 = Gone \<or> ph = Gone"
  shows "client_ok s' t' g ph2 A p"
  using assms open_fd_effect [of f ph ph' s s' g]
  by (auto simp: move_def client_ok_def effect_def open_fd_def split: if_splits)

lemma move_main_ok:
  assumes "move t f ph ph' s s'" and "t' \<noteq> t" and "main_ok s t' P p" and "P \<noteq> Some f \<or> ph = Gone"
  shows "main_ok s' t' P p"
  using assms open_fd_effect [of f ph ph' s s']
  by (auto simp: move_def main_ok_def effect_def open_fd_def split: if_splits)

lemma sys_ok_client:
  assumes ok: "sys_ok ph A P s" and th: "threads s t = Some (Client f p)"
    and mv: "move t f (ph t) ph' s s'" and ok': "client_ok s' t f ph' A' p'"
  shows "sys_ok (ph(t := ph')) (A(t := A')) P (set_thread t (Client f p') s')"
proof -
  let ?s = "set_thread t (Client f p') s'"
  have eq: "threads s' = threads s" using mv by (simp add: move_def)
  have gone: "ph' = Gone" if "ph t = Gone"
    using mv that by (auto simp: move_def effect_def split: if_splits)
  have pend: "P = Some f \<longrightarrow> ph t = Gone" using ok th by (auto simp: sys_ok_def)
  have uniq: "t' = t" if "threads s t' = Some (Client f p2)" "ph t' \<noteq> Gone" "ph t \<noteq> Gone" for t' p2
    using ok th that unfolding sys_ok_def by blast
  have clients: "client_ok ?s t' g ((ph(t := ph')) t') ((A(t := A')) t') p2"
    if "threads ?s t' = Some (Client g p2)" for t' g p2
  proof (cases "t' = t")
    case True
    with that ok' show ?thesis by simp
  next
    case False
    with that have th': "threads s t' = Some (Client g p2)" by (simp add: eq)
    with ok have c: "client_ok s t' g (ph t') (A t') p2" by (simp add: sys_ok_def)
    have "g \<noteq> f \<or> ph t' = Gone \<or> ph t = Gone" using uniq [of t' p2] th' False by auto
    with False show ?thesis using move_client_ok [OF mv False c] by simp
  qed
  have mains: "main_ok ?s t' P p2" if "threads ?s t' = Some (Main p2)" for t' p2
  proof -
    have th': "threads s t' = Some (Main p2)" "t' \<noteq> t" using that by (auto simp: eq split: if_splits)
    with ok have "main_ok s t' P p2" by (simp add: sys_ok_def)
    then show ?thesis using move_main_ok [OF mv th'(2)] pend by auto
  qed
  have wf: "wf_queue (shared ?s)" "\<forall>g \<in> live_fds (shared ?s). open_fd ?s g"
    using mv ok th by (auto simp: move_def effect_def open_fd_def sys_ok_def client_ok_def split: if_splits)
  have cnt: "\<forall>g. count_list (closed_fds (shared ?s)) g \<le> count_list (accepted ?s) g"
    using mv ok th
    by (auto simp: move_def effect_def open_fd_def sys_ok_def client_ok_def Suc_le_eq split: if_splits)
  have one: "t1 = t2"
    if "threads ?s t1 = Some (Client g p1)" "threads ?s t2 = Some (Client g p2)"
      "(ph(t := ph')) t1 \<noteq> Gone" "(ph(t := ph')) t2 \<noteq> Gone" for t1 t2 g p1 p2
  proof (cases "t1 = t \<or> t2 = t")
    case True
    then show ?thesis
      using that gone uniq [of t1] uniq [of t2] by (auto simp: eq split: if_splits)
  next
    case False
    then show ?thesis using that ok by (simp add: eq sys_ok_def)
  qed
  have pd: "P = Some g \<Longrightarrow> (ph(t := ph')) t' = Gone"
    if "threads ?s t' = Some (Client g p2)" for t' g p2
    using that ok pend gone by (auto simp: eq sys_ok_def split: if_splits)
  have own: "\<forall>t'. owner ?s = Some t' \<longrightarrow> threads ?s t' \<noteq> None"
    using mv ok by (auto simp: move_def sys_ok_def)
  show ?thesis
    unfolding sys_ok_def using wf cnt own clients mains one pd by blast
qed

text \<open>Threads that end and signals that arrive disturb nobody.\<close>

lemma sys_ok_fewer:
  assumes ok: "sys_ok ph A P s"
    and same: "shared s' = shared s" "owner s' = owner s" "accepted s' = accepted s"
    and th: "\<And>t x. threads s' t = Some x \<Longrightarrow> x = Ended \<or> threads s t = Some x"
    and dom: "\<And>t. threads s t \<noteq> None \<Longrightarrow> threads s' t \<noteq> None"
  shows "sys_ok ph A P s'"
proof -
  have eq: "open_fd s' = open_fd s" "client_ok s' = client_ok s" "main_ok s' = main_ok s"
    using same by (simp_all add: open_fd_def [abs_def] client_ok_def [abs_def] main_ok_def [abs_def])
  have c: "threads s' t = Some (Client f p) \<Longrightarrow> threads s t = Some (Client f p)"
    and m: "threads s' t = Some (Main p) \<Longrightarrow> threads s t = Some (Main p)" for t f p
    using th by blast+
  have own: "\<forall>t. owner s = Some t \<longrightarrow> threads s' t \<noteq> None"
    using ok dom by (simp add: sys_ok_def)
  show ?thesis
    using ok own unfolding sys_ok_def eq same by (blast dest: c m)
qed

text \<open>
  The main thread: its queries leave the list alone; an accept puts an unused descriptor into its
  hands, and the thread it starts takes that over.
\<close>

lemma main_ok_step:
  assumes "act t p s p' s'" and "main_ok s t P p"
  shows "(\<exists>P'. main_ok s' t P' p' \<and> (P' = P \<or> P' = None) \<and> move t f Gone Gone s s') \<or>
     (\<exists>g. \<not> open_fd s g \<and> g \<noteq> INVALID_FD \<and> s' = s\<lparr>accepted := accepted s @ [g]\<rparr> \<and>
          guarded (owner s = Some t) p' \<and> hands_over (Some g) p') \<or>
     (\<exists>g t'. P = Some g \<and> threads s t' = None \<and>
          s' = s\<lparr>threads := (threads s)(t' \<mapsto> Client g (client_thread_start g))\<rparr> \<and>
          guarded (owner s = Some t) p' \<and> hands_over None p')"
  using assms
proof (cases rule: act.cases)
  case (accept f k)
  with assms(2) show ?thesis 
    by - (rule disjI2, rule disjI1, rule exI [of _ f], auto simp: main_ok_def)
next
  case (create t' f k)
  with assms(2) show ?thesis
    by - (rule disjI2, rule disjI2, rule exI [of _ f], rule exI [of _ t'], auto simp: main_ok_def)
next
  case (accept_error k b)
  with assms(2) show ?thesis
    by (intro disjI1 exI [of _ None]) (auto simp: main_ok_def move_def)
next
  case (create_error f k)
  with assms(2) show ?thesis
    by (intro disjI1 exI [of _ None]) (auto simp: main_ok_def move_def)
qed (use assms(2) in \<open>(intro disjI1 exI [of _ P], simp add: main_ok_def move_def open_fd_def)+\<close>)

lemma sys_ok_main_same:
  assumes ok: "sys_ok ph A P s" and th: "threads s t = Some (Main p)"
    and mv: "move t f Gone Gone s s'" and m: "main_ok s' t P' p'" and P': "P' = P \<or> P' = None"
  shows "sys_ok ph A P' (set_thread t (Main p') s')"
proof -
  let ?s = "set_thread t (Main p') s'"
  have t: "t = 0" using ok th by (auto simp: sys_ok_def main_ok_def)
  have eq: "threads s' = threads s" using mv by (simp add: move_def)
  have c: "threads ?s t' = Some (Client g p2) \<Longrightarrow> t' \<noteq> t \<and> threads s t' = Some (Client g p2)" for t' g p2
    by (auto simp: eq split: if_splits)
  have "client_ok ?s t' g (ph t') (A t') p2" "P' = Some g \<Longrightarrow> ph t' = Gone"
    if "threads ?s t' = Some (Client g p2)" for t' g p2
    using c [OF that] ok P' move_client_ok [OF mv] by (auto simp: sys_ok_def)
  moreover have "main_ok ?s t' P' p2" if "threads ?s t' = Some (Main p2)" for t' p2
  proof -
    have "t' = t" using that ok t by (auto simp: eq sys_ok_def main_ok_def split: if_splits)
    with that m show ?thesis by simp
  qed
  moreover have "\<forall>t'. owner ?s = Some t' \<longrightarrow> threads ?s t' \<noteq> None"
    using mv ok by (auto simp: move_def sys_ok_def)
  moreover have "wf_queue (shared ?s)" "\<forall>g \<in> live_fds (shared ?s). open_fd ?s g"
      "\<forall>g. count_list (closed_fds (shared ?s)) g \<le> count_list (accepted ?s) g"
    using mv ok by (auto simp: move_def effect_def open_fd_def sys_ok_def)
  moreover have "t1 = t2"
    if "threads ?s t1 = Some (Client g p1)" "threads ?s t2 = Some (Client g p2)"
      "ph t1 \<noteq> Gone" "ph t2 \<noteq> Gone" for t1 t2 g p1 p2
    using c [OF that(1)] c [OF that(2)] that(3,4) ok unfolding sys_ok_def by blast
  ultimately show ?thesis unfolding sys_ok_def by blast
qed

lemma sys_ok_main_accept:
  assumes ok: "sys_ok ph A P s" and th: "threads s t = Some (Main p)"
    and g: "\<not> open_fd s g" "g \<noteq> INVALID_FD"
    and p': "guarded (owner s = Some t) p'" "hands_over (Some g) p'"
  shows "sys_ok ph A (Some g) (set_thread t (Main p') (s\<lparr>accepted := accepted s @ [g]\<rparr>))"
proof -
  let ?s' = "s\<lparr>accepted := accepted s @ [g]\<rparr>" and ?s = "set_thread t (Main p') (s\<lparr>accepted := accepted s @ [g]\<rparr>)"
  have t: "t = 0" and wf: "wf_queue (shared s)" and lv: "\<forall>f \<in> live_fds (shared s). open_fd s f"
    and cnt: "\<forall>f. count_list (closed_fds (shared s)) f \<le> count_list (accepted s) f"
    using ok th by (auto simp: sys_ok_def main_ok_def)
  have op: "open_fd s f \<Longrightarrow> open_fd ?s' f" for f
    by (simp add: open_fd_def)
  have notlive: "g \<notin> live_fds (shared s)" using g lv by blast
  have c: "threads ?s t' = Some (Client f p2) \<Longrightarrow> threads s t' = Some (Client f p2)" for t' f p2
    by (auto split: if_splits)
  have "client_ok ?s t' f (ph t') (A t') p2" "Some g = Some f \<Longrightarrow> ph t' = Gone"
    if "threads ?s t' = Some (Client f p2)" for t' f p2
  proof -
    have co: "client_ok s t' f (ph t') (A t') p2" using c [OF that] ok by (simp add: sys_ok_def)
    then show "client_ok ?s t' f (ph t') (A t') p2" using op by (simp add: client_ok_def)
    show "Some g = Some f \<Longrightarrow> ph t' = Gone"
      using co g notlive by (cases "ph t'") (auto simp: client_ok_def)
  qed
  moreover have "main_ok ?s t' (Some g) p2" if "threads ?s t' = Some (Main p2)" for t' p2
  proof -
    have "t' = t" using that ok t by (auto simp: sys_ok_def main_ok_def split: if_splits)
    moreover have "open_fd ?s' g" using cnt by (simp add: open_fd_def less_Suc_eq_le)
    ultimately show ?thesis using that p' g(2) notlive t by (simp add: main_ok_def)
  qed
  moreover have "t1 = t2"
    if "threads ?s t1 = Some (Client f p1)" "threads ?s t2 = Some (Client f p2)"
      "ph t1 \<noteq> Gone" "ph t2 \<noteq> Gone" for t1 t2 f p1 p2
    using c [OF that(1)] c [OF that(2)] that(3,4) ok unfolding sys_ok_def by blast
  moreover have "\<forall>t'. owner ?s = Some t' \<longrightarrow> threads ?s t' \<noteq> None"
    using ok by (auto simp: sys_ok_def)
  moreover have "wf_queue (shared ?s)" "\<forall>f \<in> live_fds (shared ?s). open_fd ?s f"
      "\<forall>f. count_list (closed_fds (shared ?s)) f \<le> count_list (accepted ?s) f"
    using wf lv op cnt by (simp_all add: le_SucI)
  ultimately show ?thesis unfolding sys_ok_def by blast
qed

lemma sys_ok_main_create:
  assumes ok: "sys_ok ph A (Some g) s" and th: "threads s t = Some (Main p)"
    and t': "threads s t' = None" and p': "guarded (owner s = Some t) p'" "hands_over None p'"
  shows "sys_ok (ph(t' := Fresh)) (A(t' := {})) None (set_thread t (Main p')
     (s\<lparr>threads := (threads s)(t' \<mapsto> Client g (client_thread_start g))\<rparr>))"
proof -
  let ?s' = "s\<lparr>threads := (threads s)(t' \<mapsto> Client g (client_thread_start g))\<rparr>"
  let ?s = "set_thread t (Main p') ?s'"
  have t: "t = 0" and g: "g \<noteq> INVALID_FD" "g \<notin> live_fds (shared s)" "open_fd s g"
    and wf: "wf_queue (shared s)" "\<forall>f \<in> live_fds (shared s). open_fd s f"
      "\<forall>f. count_list (closed_fds (shared s)) f \<le> count_list (accepted s) f"
    using ok th by (auto simp: sys_ok_def main_ok_def)
  have ne: "t' \<noteq> t" using th t' by auto
  have eq: "open_fd ?s' = open_fd s" "client_ok ?s' = client_ok s" "main_ok ?s' = main_ok s"
    by (simp_all add: open_fd_def [abs_def] client_ok_def [abs_def] main_ok_def [abs_def])
  have c: "t2 = t' \<and> f = g \<and> p2 = client_thread_start g \<or>
      t2 \<noteq> t' \<and> threads s t2 = Some (Client f p2) \<and> (f = g \<longrightarrow> ph t2 = Gone)"
    if "threads ?s t2 = Some (Client f p2)" for t2 f p2
    using that ok by (auto simp: sys_ok_def split: if_splits)
  have own: "owner s \<noteq> Some t'" "\<forall>t'. owner s = Some t' \<longrightarrow> threads s t' \<noteq> None"
    using ok t' by (auto simp: sys_ok_def)
  have new: "client_ok s t' g Fresh {} (client_thread_start g)"
    using g own(1) guarded_threads(1) behaves_client_thread_start [of g] by (simp add: client_ok_def)
  have "client_ok ?s t2 f ((ph(t' := Fresh)) t2) ((A(t' := {})) t2) p2"
    if "threads ?s t2 = Some (Client f p2)" for t2 f p2
  proof (cases "t2 = t'")
    case True
    then show ?thesis using c [OF that] new by (simp add: eq)
  next
    case False
    then have "client_ok s t2 f (ph t2) (A t2) p2" using c [OF that] ok by (simp add: sys_ok_def)
    with False show ?thesis by (simp add: eq)
  qed
  moreover have "main_ok ?s t2 None p2" if "threads ?s t2 = Some (Main p2)" for t2 p2
  proof -
    have "t2 = t" using that ok t by (auto simp: sys_ok_def main_ok_def split: if_splits)
    then show ?thesis using that p' t by (simp add: eq) (simp add: main_ok_def)
  qed
  moreover have "t1 = t2"
    if "threads ?s t1 = Some (Client f p1)" "threads ?s t2 = Some (Client f p2)"
      "(ph(t' := Fresh)) t1 \<noteq> Gone" "(ph(t' := Fresh)) t2 \<noteq> Gone" for t1 t2 f p1 p2
    using c [OF that(1)] c [OF that(2)] that(3,4) ok unfolding sys_ok_def by (auto split: if_splits)
  moreover have "\<forall>t2. owner ?s = Some t2 \<longrightarrow> threads ?s t2 \<noteq> None"
    using own(2) by auto
  moreover have "wf_queue (shared ?s)" "\<forall>f \<in> live_fds (shared ?s). open_fd ?s f"
      "\<forall>f. count_list (closed_fds (shared ?s)) f \<le> count_list (accepted ?s) f"
    using wf by (simp_all add: eq)
  ultimately show ?thesis unfolding sys_ok_def by blast
qed

lemma sys_ok_main:
  assumes ok: "sys_ok ph A P s" and th: "threads s t = Some (Main p)" and "act t p s p' s'"
  shows "\<exists>ph' A' P'. sys_ok ph' A' P' (set_thread t (Main p') s')"
proof -
  have "main_ok s t P p" using ok th by (simp add: sys_ok_def)
  from main_ok_step [OF assms(3) this, of INVALID_FD] show ?thesis
  proof (elim disjE exE conjE)
    fix P'
    assume "main_ok s' t P' p'" "P' = P" "move t INVALID_FD Gone Gone s s'"
    then show ?thesis using sys_ok_main_same [OF ok th] by blast
  next
    fix P'
    assume "main_ok s' t P' p'" "P' = None" "move t INVALID_FD Gone Gone s s'"
    then show ?thesis using sys_ok_main_same [OF ok th] by blast
  next
    fix g
    assume "\<not> open_fd s g" "g \<noteq> INVALID_FD" "s' = s\<lparr>accepted := accepted s @ [g]\<rparr>"
      "guarded (owner s = Some t) p'" "hands_over (Some g) p'"
    then show ?thesis using sys_ok_main_accept [OF ok th] by blast
  next
    fix g t'
    assume "P = Some g" "threads s t' = None"
      "s' = s\<lparr>threads := (threads s)(t' \<mapsto> Client g (client_thread_start g))\<rparr>"
      "guarded (owner s = Some t) p'" "hands_over None p'"
    then show ?thesis using sys_ok_main_create [OF _ th] ok by blast
  qed
qed

lemma sys_ok_init: "sys_ok (\<lambda>_. Gone) (\<lambda>_. {}) None init_sys"
proof -
  have "closed_fds init_queue = []" by (simp add: init_queue_def)
  then show ?thesis
    using wf_init_queue
    by (auto simp: sys_ok_def init_sys_def main_ok_def guarded_threads hands_over_accept_loop
        split: if_splits)
qed

lemma sys_ok_step:
  assumes "step s s'" and ok: "sys_ok ph A P s"
  shows "\<exists>ph' A' P'. sys_ok ph' A' P' s'"
  using assms(1)
proof cases
  case (main_act t p p' s2)
  then show ?thesis using sys_ok_main [OF ok] by simp
next
  case (main_again t)
  then have "main_ok s t P (Ret Again)" using ok by (simp add: sys_ok_def)
  then have "main_ok s t None accept_loop"
    by (simp add: main_ok_def guarded_threads hands_over_accept_loop)
  moreover have "move t INVALID_FD Gone Gone s s" by (simp add: move_def)
  ultimately have "sys_ok ph A None s'"
    using main_again sys_ok_main_same [OF ok] by simp
  then show ?thesis by blast
next
  case (client_act t f p p' s2)
  then have "client_ok s t f (ph t) (A t) p" and "wf_queue (shared s)"
    using ok by (simp_all add: sys_ok_def)
  then obtain ph' A' where "move t f (ph t) ph' s s2" "client_ok s2 t f ph' A' p'"
    using client_act_move [OF client_act(3)] by blast
  then show ?thesis using sys_ok_client [OF ok client_act(2)] client_act(1) by blast
next
  case (client_again t f)
  then have "client_ok s t f (ph t) (A t) (Ret Again)" using ok by (simp add: sys_ok_def)
  then have "client_ok s t f (ph t) {} (client_thread_loop f)"
    by (auto simp: client_ok_def guarded_threads behaves_client_thread_loop)
  moreover have "move t f (ph t) (ph t) s s" by (simp add: move_def)
  ultimately show ?thesis using sys_ok_client [OF ok client_again(2)] client_again(1) by blast
next
  case (client_end t f err)
  then have "sys_ok ph A P s'"
    by (intro sys_ok_fewer [OF ok]) (auto split: if_splits)
  then show ?thesis by blast
next
  case signal
  then have "sys_ok ph A P s'" by (intro sys_ok_fewer [OF ok]) auto
  then show ?thesis by blast
qed

lemma reachable_ok: "reachable s \<Longrightarrow> \<exists>ph A P. sys_ok ph A P s"
  by (induction rule: reachable.induct) (use sys_ok_init sys_ok_step in blast)+

end
