(* ===== verification/Server_Schedule.thy ===== *)
theory Server_Schedule
  imports Server_System
begin

text \<open>
  Schedules: an executable interpreter that runs some actions of one thread with given answers of
  the operating system, and its soundness with respect to the steps of the system. With it, the
  paths a connection takes (accepted, registered, a message received) are lemmas about reachable
  states, for the theorems on interleavings.
\<close>

section \<open>Runs\<close>

abbreviation steps :: "sys \<Rightarrow> sys \<Rightarrow> bool" where
  "steps \<equiv> step\<^sup>*\<^sup>*"

lemma reachable_steps: "steps s s' \<Longrightarrow> reachable s \<Longrightarrow> reachable s'"
  by (induction rule: rtranclp_induct) (auto intro: reachable.more)

datatype choice =
    Quiet
  | Sent int
  | Received recv_result
  | Polled poll_result
  | Memory "addr option"
  | Connection c_int
  | Started tid

text \<open>One action of thread \<open>t\<close> with the answer \<open>c\<close>; \<open>None\<close>: not possible.\<close>

fun exec1 :: "tid \<Rightarrow> choice \<Rightarrow> 'a prog \<Rightarrow> sys \<Rightarrow> ('a prog \<times> sys) option" where
  "exec1 t c (Ret a) s = None"
| "exec1 t c Fault s = None"
| "exec1 t c (Lock p) s = (if owner s = None then Some (p, s\<lparr>owner := Some t\<rparr>) else None)"
| "exec1 t c (Unlock p) s = (if owner s = Some t then Some (p, s\<lparr>owner := None\<rparr>) else None)"
| "exec1 t c (Call u k) s = Some (k (shared s), s\<lparr>shared := u (shared s)\<rparr>)"
| "exec1 t c (Read_Name np k) s =
     (case read_name (shared s) np of None \<Rightarrow> Some (Fault, s) | Some b \<Rightarrow> Some (k b, s))"
| "exec1 t c (Send f m k) s =
     (case c of Sent r \<Rightarrow> Some (k r, s\<lparr>wire := wire s @ [(f, m)]\<rparr>) | _ \<Rightarrow> None)"
| "exec1 t c (Recv f k) s =
     (case c of
        Received r \<Rightarrow>
          if (case r of Recv_Bytes bs \<Rightarrow> bs \<noteq> [] \<and> length bs \<le> sizeof_msg | _ \<Rightarrow> True)
          then Some (k r, s) else None
      | _ \<Rightarrow> None)"
| "exec1 t c (Poll f k) s = (case c of Polled r \<Rightarrow> Some (k r, s) | _ \<Rightarrow> None)"
| "exec1 t c (Malloc k) s =
     (case c of
        Memory m \<Rightarrow>
          if (case m of None \<Rightarrow> True | Some a \<Rightarrow> a \<notin> node_addrs (shared s)) then Some (k m, s) else None
      | _ \<Rightarrow> None)"
| "exec1 t c (Self k) s = Some (k t, s)"
| "exec1 t c (Terminating k) s = Some (k (terminate s), s)"
| "exec1 t c (Accept k) s =
     (case c of
        Connection f \<Rightarrow>
          if f \<noteq> INVALID_FD \<and> \<not> open_fd s f
          then Some (k (Accept_Fd f), s\<lparr>accepted := accepted s @ [f]\<rparr>) else None
      | _ \<Rightarrow> None)"
| "exec1 t c (Create_Thread f k) s =
     (case c of
        Started t' \<Rightarrow>
          if threads s t' = None
          then Some (k False, s\<lparr>threads := (threads s)(t' \<mapsto> Client f (client_thread_start f))\<rparr>)
          else None
      | _ \<Rightarrow> None)"
| "exec1 t c (Join t' p) s = None"

primrec exec :: "tid \<Rightarrow> choice list \<Rightarrow> 'a prog \<Rightarrow> sys \<Rightarrow> ('a prog \<times> sys) option" where
  "exec t [] p s = Some (p, s)"
| "exec t (c # cs) p s = (case exec1 t c p s of None \<Rightarrow> None | Some (p', s') \<Rightarrow> exec t cs p' s')"

lemma exec1_act: "exec1 t c p s = Some (p', s') \<Longrightarrow> act t p s p' s'"
  by (cases p) (auto split: if_splits option.splits recv_result.splits choice.splits intro: act.intros)

text \<open>The interpreter does not look at the program its own thread is recorded with.\<close>

lemma exec1_set_thread:
  assumes "exec1 t c p s = Some (p', s')" and "threads s t \<noteq> None"
  shows "\<exists>s2. exec1 t c p (set_thread t th s) = Some (p', s2) \<and>
     set_thread t th' s2 = set_thread t th' s' \<and> threads s' t \<noteq> None"
  using assms
  by (cases p) (auto simp: set_thread_def node_addrs_def open_fd_def fun_upd_twist
      split: if_splits option.splits recv_result.splits choice.splits)

lemma exec_client_steps:
  assumes "exec t cs p s = Some (p', s')" and "threads s t \<noteq> None"
  shows "steps (set_thread t (Client f p) s) (set_thread t (Client f p') s')"
  using assms
proof (induction cs arbitrary: p s)
  case (Cons c cs)
  then obtain p1 s1 where 1: "exec1 t c p s = Some (p1, s1)" "exec t cs p1 s1 = Some (p', s')"
    by (auto split: option.splits)
  obtain s2 where s2: "exec1 t c p (set_thread t (Client f p) s) = Some (p1, s2)"
      "set_thread t (Client f p1) s2 = set_thread t (Client f p1) s1" "threads s1 t \<noteq> None"
    using exec1_set_thread [OF 1(1) Cons.prems(2)] by metis
  have "step (set_thread t (Client f p) s) (set_thread t (Client f p1) s1)"
    using step.client_act [OF _ exec1_act [OF s2(1)], of f] s2(2) by simp
  with Cons.IH [OF 1(2) s2(3)] show ?case by simp
qed simp

lemma exec_main_steps:
  assumes "exec t cs p s = Some (p', s')" and "threads s t \<noteq> None"
  shows "steps (set_thread t (Main p) s) (set_thread t (Main p') s')"
  using assms
proof (induction cs arbitrary: p s)
  case (Cons c cs)
  then obtain p1 s1 where 1: "exec1 t c p s = Some (p1, s1)" "exec t cs p1 s1 = Some (p', s')"
    by (auto split: option.splits)
  obtain s2 where s2: "exec1 t c p (set_thread t (Main p) s) = Some (p1, s2)"
      "set_thread t (Main p1) s2 = set_thread t (Main p1) s1" "threads s1 t \<noteq> None"
    using exec1_set_thread [OF 1(1) Cons.prems(2)] by metis
  have "step (set_thread t (Main p) s) (set_thread t (Main p1) s1)"
    using step.main_act [OF _ exec1_act [OF s2(1)]] s2(2) by simp
  with Cons.IH [OF 1(2) s2(3)] show ?case by simp
qed simp

lemma set_thread_twice [simp]: "set_thread t th' (set_thread t th s) = set_thread t th' s"
  by (simp add: set_thread_def)

lemma set_thread_same [simp]: "threads s t = Some th \<Longrightarrow> set_thread t th s = s"
  by (simp add: set_thread_def fun_upd_idem)

section \<open>The paths of a connection\<close>

text \<open>The main thread accepts \<open>f\<close> and starts thread \<open>t\<close> for it.\<close>

definition connect :: "tid \<Rightarrow> c_int \<Rightarrow> sys \<Rightarrow> sys" where
  "connect t f s = s\<lparr>accepted := accepted s @ [f],
     threads := (threads s)(t \<mapsto> Client f (client_thread_start f))\<rparr>"

lemma steps_connect:
  assumes "threads s 0 = Some (Main accept_loop)" and "owner s = None" and "\<not> terminate s"
    and "total_available_clients (shared s) < MAX_CLIENT" and "f \<noteq> INVALID_FD" and "\<not> open_fd s f"
    and "threads s t = None" and "a \<notin> node_addrs (shared s)"
  shows "steps s (connect t f s)"
proof -
  have "t \<noteq> 0" using assms(1,7) by (cases "t = 0") auto
  have "exec 0 [Quiet, Connection f, Quiet, Quiet, Quiet, Memory (Some a), Started t] accept_loop s =
      Some (Ret Again, connect t f s)"
    using assms by (cases s) (simp add: accept_loop_def query_def connect_def)
  from exec_main_steps [OF this] assms(1)
  have "steps s (set_thread 0 (Main (Ret Again)) (connect t f s))" by simp
  moreover have "step (set_thread 0 (Main (Ret Again)) (connect t f s)) (connect t f s)"
    using step.main_again [of "set_thread 0 (Main (Ret Again)) (connect t f s)" 0] assms(1) \<open>t \<noteq> 0\<close>
    by (simp add: set_thread_def connect_def fun_upd_idem fun_upd_twist)
  ultimately show ?thesis by simp
qed

text \<open>Its thread registers it and finishes the handshake.\<close>

definition ack_msg :: msg_t where
  "ack_msg = set_type MSG_CONN_ESTABLISH_ACK zero_msg"

definition enroll :: "tid \<Rightarrow> c_int \<Rightarrow> addr \<Rightarrow> sys \<Rightarrow> sys" where
  "enroll t f a s = set_thread t (Client f (Ret Again))
     (s\<lparr>shared := add_node f t a (shared s),
        wire := wire s @ [(f, text_msg MSG_CONN_ESTABLISH_REQ SERVER_UNIQUEUE_ID)]\<rparr>)"

lemma wf_ack_msg: "wf_msg ack_msg"
  using wf_zero_msg by (simp add: ack_msg_def wf_msg_def)

lemma recv_whole:
  assumes "wf_msg m"
  shows "encode_msg m \<noteq> []" "length (encode_msg m) = sizeof_msg" "recv_into m0 (encode_msg m) = m"
  using length_encode_msg [OF assms] recv_into_full [OF assms] by (auto simp: sizeof_msg_def)

lemma steps_enroll:
  assumes "threads s t = Some (Client f (client_thread_start f))" and "owner s = None"
    and "total_available_clients (shared s) < MAX_CLIENT" and "a \<notin> node_addrs (shared s)"
  shows "steps s (enroll t f a s)"
proof -
  have "exec t [Quiet, Memory (Some a), Quiet, Quiet, Quiet, Sent 520, Received (Recv_Bytes (encode_msg ack_msg))]
      (client_thread_start f) s = Some (Ret Again, s\<lparr>shared := add_node f t a (shared s),
        wire := wire s @ [(f, text_msg MSG_CONN_ESTABLISH_REQ SERVER_UNIQUEUE_ID)]\<rparr>)"
    using assms recv_whole [OF wf_ack_msg] add_client_succ [OF assms(3)]
    by (cases s) (simp add: client_thread_start_def call_opt_def send_conn_establish_msg_def
        send_msg_to_fd_def id_text text_msg_def sizeof_msg_def ack_msg_def)
  from exec_client_steps [OF this, of f] assms(1) show ?thesis by (simp add: enroll_def)
qed

text \<open>A message arrives, and the thread is at the start of its handling.\<close>

lemma steps_receive:
  assumes "threads s t = Some (Client f (Ret Again))" and "\<not> terminate s" and "wf_msg msg"
  shows "steps s (set_thread t (Client f (handle_rx_msg msg f (Ret Again))) s)"
proof -
  let ?s = "set_thread t (Client f (client_thread_loop f)) s"
  have "exec t [Quiet, Polled (Poll_Ready True), Received (Recv_Bytes (encode_msg msg))]
      (client_thread_loop f) ?s = Some (handle_rx_msg msg f (Ret Again), ?s)"
    using assms(2) recv_whole [OF assms(3)]
    by (simp add: client_thread_loop_def wait_to_recv_something_def)
  from exec_client_steps [OF this, of f]
  have "steps ?s (set_thread t (Client f (handle_rx_msg msg f (Ret Again))) ?s)" by simp
  moreover have "step s ?s" using assms(1) by (rule step.client_again)
  ultimately show ?thesis
    by (metis (no_types, lifting) converse_rtranclp_into_rtranclp set_thread_twice)
qed

text \<open>Or its client hangs up.\<close>

lemma steps_hang_up:
  assumes "threads s t = Some (Client f (Ret Again))" and "\<not> terminate s"
  shows "steps s (set_thread t (Client f (client_closed_conn f (Ret (Leave ERR_CLIENT_CLOSED_CONN)))) s)"
proof -
  let ?s = "set_thread t (Client f (client_thread_loop f)) s"
  have "exec t [Quiet, Polled (Poll_Ready True), Received Recv_Eof] (client_thread_loop f) ?s =
      Some (client_closed_conn f (Ret (Leave ERR_CLIENT_CLOSED_CONN)), ?s)"
    using assms(2) by (simp add: client_thread_loop_def wait_to_recv_something_def)
  from exec_client_steps [OF this, of f]
  have "steps ?s (set_thread t (Client f (client_closed_conn f (Ret (Leave ERR_CLIENT_CLOSED_CONN)))) ?s)"
    by simp
  moreover have "step s ?s" using assms(1) by (rule step.client_again)
  ultimately show ?thesis
    by (metis (no_types, lifting) converse_rtranclp_into_rtranclp set_thread_twice)
qed

text \<open>Examples: the system after clients with descriptors 4, 5 and 6 have come.\<close>

definition one_client :: sys where
  "one_client = enroll 1 4 100 (connect 1 4 init_sys)"

definition two_clients :: sys where
  "two_clients = enroll 2 5 101 (connect 2 5 one_client)"

definition three_clients :: sys where
  "three_clients = enroll 3 6 102 (connect 3 6 two_clients)"

lemma node_addrs_add [simp]: "node_addrs (add_node f self a q) = insert a (node_addrs q)"
  by (auto simp: node_addrs_def add_node_def)

lemma add_node_fields [simp]:
  "total_available_clients (add_node f self a q) = total_available_clients q + 1"
  "closed_fds (add_node f self a q) = closed_fds q"
  by (simp_all add: add_node_def)

lemma init_fields [simp]:
  "node_addrs init_queue = {}" "total_available_clients init_queue = 0" "closed_fds init_queue = []"
  by (simp_all add: init_queue_def node_addrs_def)

lemmas path_simps = enroll_def connect_def set_thread_def init_sys_def open_fd_def

lemma reachable_one: "reachable one_client"
proof -
  have "steps init_sys (connect 1 4 init_sys)"
    by (rule steps_connect [where a = 500]) (simp_all add: path_simps)
  moreover have "steps (connect 1 4 init_sys) one_client"
    unfolding one_client_def by (rule steps_enroll) (simp_all add: path_simps)
  ultimately show ?thesis
    by (rule reachable_steps [OF rtranclp_trans reachable.init])
qed

lemma reachable_two: "reachable two_clients"
proof -
  have "steps one_client (connect 2 5 one_client)"
    by (rule steps_connect [where a = 500]) (simp_all add: one_client_def path_simps)
  moreover have "steps (connect 2 5 one_client) two_clients"
    unfolding two_clients_def by (rule steps_enroll) (simp_all add: one_client_def path_simps)
  ultimately show ?thesis
    by (rule reachable_steps [OF rtranclp_trans reachable_one])
qed

lemma reachable_three: "reachable three_clients"
proof -
  have "steps two_clients (connect 3 6 two_clients)"
    by (rule steps_connect [where a = 500]) (simp_all add: two_clients_def one_client_def path_simps)
  moreover have "steps (connect 3 6 two_clients) three_clients"
    unfolding three_clients_def
    by (rule steps_enroll) (simp_all add: two_clients_def one_client_def path_simps)
  ultimately show ?thesis
    by (rule reachable_steps [OF rtranclp_trans reachable_two])
qed

lemma example_owner [simp]:
  "owner one_client = None" "owner two_clients = None" "owner three_clients = None"
  by (simp_all add: one_client_def two_clients_def three_clients_def path_simps)

lemma example_shared:
  "shared one_client = add_node 4 1 100 init_queue"
  "shared two_clients = add_node 5 2 101 (shared one_client)"
  "shared three_clients = add_node 6 3 102 (shared two_clients)"
  by (simp_all add: one_client_def two_clients_def three_clients_def path_simps)

lemma example_threads:
  "threads one_client 1 = Some (Client 4 (Ret Again))"
  "threads two_clients 1 = Some (Client 4 (Ret Again))"
  "threads two_clients 2 = Some (Client 5 (Ret Again))"
  "threads three_clients 1 = Some (Client 4 (Ret Again))"
  "threads three_clients 2 = Some (Client 5 (Ret Again))"
  "threads three_clients 3 = Some (Client 6 (Ret Again))"
  "\<not> terminate one_client" "\<not> terminate two_clients" "\<not> terminate three_clients"
  by (simp_all add: one_client_def two_clients_def three_clients_def path_simps)

end
