(* ===== verification/Server_Concurrent.thy ===== *)
theory Server_Concurrent
  imports Server_Schedule
begin

text \<open>
  The properties of the threaded server: what holds in every reachable state, what one lost mutex
  does to it, and two interleavings its handlers do not exclude.
\<close>

section \<open>In every reachable state\<close>

lemma reachable_wf: "reachable s \<Longrightarrow> wf_queue (shared s)"
  using reachable_ok [of s] by (auto simp: sys_ok_def)



lemma thread_guarded:
  assumes "reachable s"
  shows "threads s t = Some (Client f p) \<Longrightarrow> guarded (owner s = Some t) p"
    "threads s t = Some (Main p) \<Longrightarrow> guarded (owner s = Some t) p"
  using reachable_ok [OF assms] by (auto simp: sys_ok_def client_ok_def main_ok_def)

lemma act_writes: "act t p s p' s' \<Longrightarrow> guarded (owner s = Some t) p \<Longrightarrow>
    shared s' \<noteq> shared s \<Longrightarrow> owner s = Some t"
  by (cases rule: act.cases) auto



section \<open>The lost mutex\<close>

text \<open>A program that, holding the mutex, changes nothing and does not unlock before it locks.\<close>

primrec inert :: "loop_ctl prog \<Rightarrow> bool" where
  "inert (Ret a) \<longleftrightarrow> True"
| "inert Fault \<longleftrightarrow> True"
| "inert (Lock p) \<longleftrightarrow> True"
| "inert (Unlock p) \<longleftrightarrow> False"
| "inert (Call u k) \<longleftrightarrow> u = id \<and> (\<forall>q. inert (k q))"
| "inert (Read_Name np k) \<longleftrightarrow> (\<forall>b. inert (k b))"
| "inert (Send f m k) \<longleftrightarrow> (\<forall>r. inert (k r))"
| "inert (Recv f k) \<longleftrightarrow> (\<forall>r. inert (k r))"
| "inert (Poll f k) \<longleftrightarrow> (\<forall>r. inert (k r))"
| "inert (Malloc k) \<longleftrightarrow> (\<forall>r. inert (k r))"
| "inert (Self k) \<longleftrightarrow> (\<forall>r. inert (k r))"
| "inert (Terminating k) \<longleftrightarrow> (\<forall>r. inert (k r))"
| "inert (Accept k) \<longleftrightarrow> (\<forall>r. inert (k r))"
| "inert (Create_Thread f k) \<longleftrightarrow> (\<forall>r. inert (k r))"
| "inert (Join t p) \<longleftrightarrow> inert p"

lemma inert_or_fault: "(\<And>y. inert (k y)) \<Longrightarrow> inert (or_fault x k)"
  by (cases x) simp_all

lemma inert_handle_rx_msg: "inert k \<Longrightarrow> inert (handle_rx_msg msg f k)"
  by (cases "msg_type msg")
     (auto simp: handle_rx_msg_def set_name_handler_def send_client_list_handler_def
       handle_change_conn_fd_req_def handle_decline_conn_request_def handle_tx_msg_def
       handle_chat_connection_request_def handle_conn_accept_def send_msg_to_fd_def query_opt_def
       print_str_def Let_def intro!: inert_or_fault)

lemma inert_client_thread_loop: "inert (client_thread_loop f)"
  by (auto simp: client_thread_loop_def wait_to_recv_something_def client_closed_conn_def Let_def
      intro!: inert_handle_rx_msg split: poll_result.split recv_result.split)

definition stuck :: "sys \<Rightarrow> tid \<Rightarrow> c_int \<Rightarrow> client_queue \<Rightarrow> bool" where
  "stuck s t f q \<longleftrightarrow> reachable s \<and> owner s = Some t \<and> shared s = q \<and>
     (threads s t = Some Ended \<or> (\<exists>p. threads s t = Some (Client f p) \<and> inert p))"

lemma act_other:
  assumes "act t p s p' s'" and "owner s = Some t'" and "t' \<noteq> t" and "guarded False p"
  shows "owner s' = owner s \<and> shared s' = shared s \<and>
     (\<forall>x. threads s t' = Some x \<longrightarrow> threads s' t' = Some x)"
  using assms by (cases rule: act.cases) auto

lemma act_inert:
  assumes "act t p s p' s'" and "owner s = Some t" and "inert p"
  shows "owner s' = owner s \<and> shared s' = shared s \<and> inert p'"
  using assms by (cases rule: act.cases) auto

lemma stuck_step:
  assumes "step s s'" and st: "stuck s t f q"
  shows "stuck s' t f q"
proof -
  have r: "reachable s'" and own: "owner s = Some t"
    using assms by (auto simp: stuck_def intro: reachable.more)
  note g = thread_guarded [of s]
  show ?thesis
    using assms(1)
  proof cases
    case (main_act t2 p p' s2)
    then have "t2 \<noteq> t" using st by (auto simp: stuck_def)
    moreover from this have "guarded False p"
      using st own g(2) [of t2 p] main_act(2) by (simp add: stuck_def)
    ultimately have "t2 \<noteq> t" "guarded False p" .
    with act_other [OF main_act(3) own] show ?thesis
      using main_act st r by (auto simp: stuck_def)
  next
    case (client_act t2 f2 p p' s2)
    show ?thesis
    proof (cases "t2 = t")
      case True
      then have "f2 = f" and "inert p" using client_act st by (auto simp: stuck_def)
      with True act_inert [OF client_act(3)] own show ?thesis
        using client_act st r by (auto simp: stuck_def)
    next
      case False
      then have "guarded False p" using st own g(1) [of t2 f2 p] client_act(2) by (auto simp: stuck_def)
      with act_other [OF client_act(3) own] False show ?thesis
        using client_act st r by (auto simp: stuck_def)
    qed
  qed (use st r inert_client_thread_loop in \<open>auto simp: stuck_def\<close>)
qed

lemma stuck_steps: "steps s s' \<Longrightarrow> stuck s t f q \<Longrightarrow> stuck s' t f q"
  by (induction rule: rtranclp_induct) (auto intro: stuck_step)



section \<open>Two requests at once\<close>

text \<open>
  The second half of \<open>handle_chat_connection_request\<close>, after the target was found free: it takes
  the mutex again and does not look at the status a second time.
\<close>

definition ask :: "c_int \<Rightarrow> char list \<Rightarrow> name_ptr \<Rightarrow> 'a prog \<Rightarrow> 'a prog" where
  "ask f c my_name k =
     (let reply = (\<lambda>t. send_msg_to_fd f (echo_msg t c) (\<lambda>_. k)) in
      Lock (
      query_opt (get_client_fd_by_name (Some c)) (\<lambda>conn_client_fd.
      call (set_client_chatting_status_by_fd conn_client_fd CHAT_STATUS_REQ_PENDING) (\<lambda>_.
      Unlock (
      if INVALID_FD = conn_client_fd then reply MSG_CLIENT_NOT_EXIST
      else
        Lock (
        call (set_to_fd_by_fd f conn_client_fd) (\<lambda>_.
        call (set_to_fd_by_fd conn_client_fd f) (\<lambda>_.
        Unlock (
        Read_Name my_name (\<lambda>my'.
        or_fault (strcpy (msg_buf zero_msg) my') (\<lambda>b'.
        send_msg_to_fd conn_client_fd
          (set_buf b' (set_type MSG_CONNECTION_REQ_RX zero_msg)) (\<lambda>_.
        reply MSG_CLIENT_FREE))))))))))))"

lemma strcmp_client_name:
  assumes "wf_queue q" and "ok_text c"
  shows "\<exists>b r. read_name q (get_client_name_by_fd f q) = Some b \<and> strcmp b c = Some r \<and>
     (r = 0 \<longleftrightarrow> client_name f q = cstr c)"
proof -
  obtain b where b: "read_name q (get_client_name_by_fd f q) = Some b"
    "cstr b = client_name f q" "terminated b" "length b \<le> MAX_CLIENT_NAME_LEN"
    using read_client_name [OF assms(1)] by blast
  then show ?thesis
    using strcmp_total_left [of b c] assms(2) by (auto simp: ok_text_def)
qed

lemma strcpy_client_name:
  assumes "wf_queue q"
  shows "\<exists>b. read_name q (get_client_name_by_fd f q) = Some b \<and>
     strcpy (replicate MAX_MSG_LEN NUL) b = Some (mk_buf MAX_MSG_LEN (client_name f q))"
proof -
  obtain b where "read_name q (get_client_name_by_fd f q) = Some b"
    "cstr b = client_name f q" "terminated b"
    using read_client_name [OF assms] by blast
  then show ?thesis
    using strcpy_zero_buf [of b MAX_MSG_LEN] client_name_props(2) [OF assms, of f] by auto
qed

lemma exec_request:
  assumes "owner s = None" and "wf_queue (shared s)" and "f \<in> live_fds (shared s)"
    and "length c = MAX_MSG_LEN" and "named c (shared s) = Some n"
    and "client_name f (shared s) \<noteq> cstr c" and "cl_chat_status n = CHAT_STATUS_FREE"
  shows "exec t [Quiet, Quiet, Quiet, Quiet, Quiet, Quiet] (handle_chat_connection_request f (Some c) k) s =
     Some (ask f c (get_client_name_by_fd f (shared s)) k, s)"
proof -
  have ok: "ok_text c" using assms(4) by (simp add: ok_text_def)
  obtain b r where "read_name (shared s) (get_client_name_by_fd f (shared s)) = Some b"
      "strcmp b c = Some r" "r \<noteq> 0"
    using strcmp_client_name [OF assms(2) ok, of f] assms(6) by auto
  moreover have "f \<noteq> INVALID_FD" and "client_list (shared s) \<noteq> []"
    using assms(2,3) invalid_not_live live_nonempty by auto
  ultimately show ?thesis
    using assms ok
    by (cases s) (simp add: handle_chat_connection_request_def ask_def queue_simps memcpy_echo query_def
        query_opt_def Let_def echo_msg_def cong: if_cong)
qed

lemma exec_ask:
  assumes "owner s = None" and "wf_queue q" and "get_client_fd_by_name (Some c) (shared s) = Some g"
    and "g \<noteq> INVALID_FD"
    and "\<And>p. read_name (shared s) p = read_name q p"
  shows "exec t [Quiet, Quiet, Quiet, Quiet, Quiet, Quiet, Quiet, Quiet, Quiet, Sent 520, Sent 520]
      (ask f c (get_client_name_by_fd f q) k) s =
    Some (k, s\<lparr>shared := propose f g (shared s),
       wire := wire s @ [(g, text_msg MSG_CONNECTION_REQ_RX (client_name f q)),
                         (f, echo_msg MSG_CLIENT_FREE c)]\<rparr>)"
proof -
  obtain b where "read_name q (get_client_name_by_fd f q) = Some b"
    "strcpy (replicate MAX_MSG_LEN NUL) b = Some (mk_buf MAX_MSG_LEN (client_name f q))"
    using strcpy_client_name [OF assms(2)] by blast
  then show ?thesis
    using assms
    by (cases s) (simp add: ask_def query_opt_def call_def Let_def send_msg_to_fd_def sizeof_msg_def
        propose_def text_msg_def)
qed

lemma fd_by_name_put [simp]:
  "get_client_fd_by_name c (put_status g x q) = get_client_fd_by_name c q"
  "get_client_fd_by_name c (put_to_fd g y q) = get_client_fd_by_name c q"
proof -
  have loop: "map_option (map_option cl_fd) (node_by_name nm (upd_first P h ns)) =
      map_option (map_option cl_fd) (node_by_name nm ns)"
    if "\<And>n. cl_fd (h n) = cl_fd n" "\<And>n. cl_name (h n) = cl_name n" for nm P h ns
    using that by (induction ns) (auto split: option.splits)
  have "get_client_fd_by_name c (write_node g h q) = get_client_fd_by_name c q"
    if "\<And>n. cl_fd (h n) = cl_fd n" "\<And>n. cl_name (h n) = cl_name n" for h
  proof -
    have eq: "get_client_fd_by_name c q =
        (if client_list q = [] \<or> c = None then Some INVALID_FD
         else map_option (\<lambda>x. case x of None \<Rightarrow> INVALID_FD | Some f \<Rightarrow> f)
           (map_option (map_option cl_fd) (node_by_name (the c) (client_list q))))" for q
      by (auto simp: get_client_fd_by_name_def split: option.splits)
    show ?thesis unfolding eq using that by (simp add: write_node_def loop)
  qed
  then show "get_client_fd_by_name c (put_status g x q) = get_client_fd_by_name c q"
    "get_client_fd_by_name c (put_to_fd g y q) = get_client_fd_by_name c q"
    by (simp_all add: put_status_eq put_to_fd_eq)
qed

lemma propose_simps [simp]:
  "get_client_fd_by_name c (propose f g q) = get_client_fd_by_name c q"
  "read_name (propose f g q) p = read_name q p"
  by (simp_all add: propose_def)

lemma named_client_name:
  assumes "wf_queue q" and "named c q = Some n"
  shows "client_name (cl_fd n) q = cstr c"
proof -
  have "n \<in> set (client_list q)" "cstr (cl_name n) = cstr c" using named_Some [OF assms(2)] by simp_all
  moreover from this have "node_by_fd (cl_fd n) (client_list q) = Some n"
    using assms(1) by (simp add: node_by_fd_def find_key_unique wf_queue_def)
  ultimately show ?thesis by (simp add: client_name_def name_of_def)
qed

lemma exec_append:
  "exec t (cs @ ds) p s = (case exec t cs p s of None \<Rightarrow> None | Some (p', s') \<Rightarrow> exec t ds p' s')"
  by (induction cs arbitrary: p s) (auto split: option.splits)

text \<open>
  The interleaving: both clients find the target free, then the second asks, then the first.
\<close>

lemma steps_two_requests:
  assumes own: "owner s = None" and wf: "wf_queue (shared s)"
    and th: "threads s t1 = Some (Client f1 (handle_chat_connection_request f1 (Some c) k))"
      "threads s t2 = Some (Client f2 (handle_chat_connection_request f2 (Some c) k))" "t1 \<noteq> t2"
    and live: "f1 \<in> live_fds (shared s)" "f2 \<in> live_fds (shared s)"
    and c: "length c = MAX_MSG_LEN" "named c (shared s) = Some n" "cl_chat_status n = CHAT_STATUS_FREE"
    and ne: "client_name f1 (shared s) \<noteq> cstr c" "client_name f2 (shared s) \<noteq> cstr c"
  shows "\<exists>s'. steps s s' \<and> shared s' = propose f1 (cl_fd n) (propose f2 (cl_fd n) (shared s)) \<and>
     wire s' = wire s @
       [(cl_fd n, text_msg MSG_CONNECTION_REQ_RX (client_name f2 (shared s))), (f2, echo_msg MSG_CLIENT_FREE c),
        (cl_fd n, text_msg MSG_CONNECTION_REQ_RX (client_name f1 (shared s))), (f1, echo_msg MSG_CLIENT_FREE c)]"
proof -
  let ?q = "shared s" and ?g = "cl_fd n"
  let ?p1 = "ask f1 c (get_client_name_by_fd f1 ?q) k" and ?p2 = "ask f2 c (get_client_name_by_fd f2 ?q) k"
  have ok: "ok_text c" using c(1) by (simp add: ok_text_def)
  have g: "get_client_fd_by_name (Some c) ?q = Some ?g" "?g \<noteq> INVALID_FD"
    using wf ok c(2) named_Some [OF c(2)] wf_queue_node [OF wf]
    by (auto simp: get_client_fd_by_name_eq wf_node_def)
  define sa where "sa = set_thread t1 (Client f1 ?p1) s"
  define sb where "sb = set_thread t2 (Client f2 ?p2) sa"
  define s2 where "s2 = sb\<lparr>shared := propose f2 ?g ?q, wire := wire s @
    [(?g, text_msg MSG_CONNECTION_REQ_RX (client_name f2 ?q)), (f2, echo_msg MSG_CLIENT_FREE c)]\<rparr>"
  define s3 where "s3 = set_thread t2 (Client f2 k) s2"
  define s4 where "s4 = s3\<lparr>shared := propose f1 ?g (propose f2 ?g ?q), wire := wire s2 @
    [(?g, text_msg MSG_CONNECTION_REQ_RX (client_name f1 ?q)), (f1, echo_msg MSG_CLIENT_FREE c)]\<rparr>"
  have "steps s sa"
    using exec_client_steps [OF exec_request [OF own wf live(1) c(1,2) ne(1) c(3)], of t1 f1 k] th(1)
    by (simp add: sa_def)
  also have "steps sa sb"
    using exec_client_steps [OF exec_request [of sa f2 c n], of t2 f2 k] own wf live(2) c ne(2) th
    by (simp add: sa_def sb_def)
  also have "steps sb s3"
    using exec_client_steps [OF exec_ask [of sb ?q c ?g t2 f2 k], of f2] own wf g
    by (simp add: sa_def sb_def s2_def s3_def)
  also have "steps s3 (set_thread t1 (Client f1 k) s4)"
    using exec_client_steps [OF exec_ask [of s3 ?q c ?g t1 f1 k], of f1] own wf g th(3)
    by (simp add: sa_def sb_def s2_def s3_def s4_def)
  finally show ?thesis
    by (intro exI [of _ "set_thread t1 (Client f1 k) s4"]) (simp add: s4_def s2_def)
qed

text \<open>
  C19: two requests for the same free client can both be granted, because its status is tested in
  one critical section and set in another: both requesters are told that the client is free, it is
  asked twice, and its record names the first requester only, while the record of the second still
  names it. One after the other the second request would have been refused.
\<close>

theorem two_requests_both_granted:
  assumes "reachable s" and "owner s = None"
    and "threads s t1 = Some (Client f1 (handle_rx_msg msg f1 (Ret Again)))"
    and "threads s t2 = Some (Client f2 (handle_rx_msg msg f2 (Ret Again)))" and "f1 \<noteq> f2"
    and "f1 \<in> live_fds (shared s)" and "f2 \<in> live_fds (shared s)"
    and "wf_msg msg" and "msg_type msg = MSG_CONNECT_TO_CLIENT"
    and "named (msg_buf msg) (shared s) = Some n" and "cl_chat_status n = CHAT_STATUS_FREE"
    and "client_name f1 (shared s) \<noteq> cstr (msg_buf msg)" and "client_name f2 (shared s) \<noteq> cstr (msg_buf msg)"
  shows "\<exists>s'. steps s s' \<and>
     {(f1, echo_msg MSG_CLIENT_FREE (msg_buf msg)), (f2, echo_msg MSG_CLIENT_FREE (msg_buf msg))}
       \<subseteq> set (wire s') \<and>
     get_client_chatting_status_by_fd (cl_fd n) (shared s') = CHAT_STATUS_REQ_PENDING \<and>
     get_conn_fd_by_fd (cl_fd n) (shared s') = f1 \<and> get_conn_fd_by_fd f2 (shared s') = cl_fd n"
proof -
  have wf: "wf_queue (shared s)" using assms(1) by (rule reachable_wf)
  have h: "handle_rx_msg msg f k = handle_chat_connection_request f (Some (msg_buf msg)) k" for f and k :: "loop_ctl prog"
    using assms(9) by (simp add: handle_rx_msg_def)
  have ne: "t1 \<noteq> t2" using assms(3-5) by auto
  have len: "length (msg_buf msg) = MAX_MSG_LEN" using assms(8) by (simp add: wf_msg_def)
  obtain s' where "steps s s'" and q: "shared s' = propose f1 (cl_fd n) (propose f2 (cl_fd n) (shared s))"
    and "wire s' = wire s @
       [(cl_fd n, text_msg MSG_CONNECTION_REQ_RX (client_name f2 (shared s))),
        (f2, echo_msg MSG_CLIENT_FREE (msg_buf msg)),
        (cl_fd n, text_msg MSG_CONNECTION_REQ_RX (client_name f1 (shared s))),
        (f1, echo_msg MSG_CLIENT_FREE (msg_buf msg))]"
    using steps_two_requests [OF assms(2) wf assms(3,4) [unfolded h] ne assms(6,7) len assms(10-13)]
    by blast
  moreover have n: "n \<in> set (client_list (shared s))" using named_Some [OF assms(10)] by simp
  then have "cl_fd n \<in> live_fds (shared s)" by (auto simp: live_fds_def)
  moreover have "cl_fd n \<noteq> f1" "cl_fd n \<noteq> f2"
    using named_client_name [OF wf assms(10)] assms(12,13) by auto
  ultimately show ?thesis
    using wf assms(5-7) by (intro exI [of _ s']) (simp add: propose_def chat.put_simps)
qed

theorem two_requests_both_granted_witness:
  "\<exists>s. reachable s \<and> get_conn_fd_by_fd 6 (shared s) = 4 \<and> get_conn_fd_by_fd 5 (shared s) = 6 \<and>
     {(4, echo_msg MSG_CLIENT_FREE (mk_buf MAX_MSG_LEN (default_name 6))),
      (5, echo_msg MSG_CLIENT_FREE (mk_buf MAX_MSG_LEN (default_name 6)))} \<subseteq> set (wire s)"
proof -
  let ?m = "text_msg MSG_CONNECT_TO_CLIENT (default_name 6)"
  let ?a = "set_thread 1 (Client 4 (handle_rx_msg ?m 4 (Ret Again))) three_clients"
  let ?b = "set_thread 2 (Client 5 (handle_rx_msg ?m 5 (Ret Again))) ?a"
  have m: "wf_msg ?m" "msg_type ?m = MSG_CONNECT_TO_CLIENT"
    using length_default_name [of 6] by (simp_all add: wf_msg_def)
  have "steps three_clients ?a" by (rule steps_receive [OF example_threads(4,9) m(1)])
  moreover have "steps ?a ?b"
    by (rule steps_receive [OF _ _ m(1)]) (simp_all add: example_threads) 
  ultimately have r: "reachable ?b"
    by (rule reachable_steps [OF rtranclp_trans reachable_three])
  have names: "named (msg_buf ?m) (shared ?b) = Some (new_node 6 3 102)"
      "client_name 4 (shared ?b) = default_name 4" "client_name 5 (shared ?b) = default_name 5"
    by (simp_all add: example_shared named_def client_name_def name_of_def node_by_fd_def add_node_def
        init_queue_def default_name_no_NUL)
  have "\<exists>s'. steps ?b s' \<and>
     {(4, echo_msg MSG_CLIENT_FREE (msg_buf ?m)), (5, echo_msg MSG_CLIENT_FREE (msg_buf ?m))} \<subseteq> set (wire s') \<and>
     get_client_chatting_status_by_fd (cl_fd (new_node 6 3 102)) (shared s') = CHAT_STATUS_REQ_PENDING \<and>
     get_conn_fd_by_fd (cl_fd (new_node 6 3 102)) (shared s') = 4 \<and>
     get_conn_fd_by_fd 5 (shared s') = cl_fd (new_node 6 3 102)"
    by (rule two_requests_both_granted [OF r, of 1 4 ?m 2 5])
       (use names m in \<open>simp_all add: example_shared default_name_no_NUL\<close>)
  then show ?thesis using r by (auto intro: reachable_steps)
qed

section \<open>A name read after its node is freed\<close>

lemma exec_accept_first:
  assumes "owner s = None" and wf: "wf_queue (shared s)" and "get_conn_fd_by_fd f (shared s) = g"
    and "g \<noteq> INVALID_FD" and "client_name g (shared s) \<noteq> UNDEF_NAME"
    and "get_client_chatting_status_by_fd g (shared s) \<noteq> CHAT_STATUS_BUSY"
    and "get_client_chatting_status_by_fd f (shared s) = CHAT_STATUS_REQ_PENDING"
  shows "\<exists>K. exec t (replicate 15 Quiet) (handle_conn_accept f msg k) s =
     Some (Read_Name (get_client_name_by_fd g (shared s)) K, s\<lparr>shared := join f g (shared s)\<rparr>)"
proof -
  obtain b r where "read_name (shared s) (get_client_name_by_fd g (shared s)) = Some b"
    "strcmp b (lit UNDEF_NAME) = Some r" "r \<noteq> 0"
    using name_text [OF wf, of g] assms(5) by blast
  then show ?thesis
    using assms
    by (cases s) (simp add: handle_conn_accept_def query_def call_def join_def numeral_eq_Suc)
qed

lemma exec_close:
  assumes "owner s = None" and wf: "wf_queue (shared s)" and "get_conn_fd_by_fd g (shared s) = f"
    and "f \<noteq> INVALID_FD" and "get_client_chatting_status_by_fd f (shared s) \<noteq> CHAT_STATUS_FREE"
  shows "\<exists>ms. exec t (replicate 7 Quiet @ [Sent 520, Quiet, Quiet]) (client_closed_conn g k) s =
     Some (k, s\<lparr>shared := drop_client g (end_chat g f (shared s)), wire := wire s @ ms\<rparr>)"
proof -
  obtain b where "read_name (shared s) (get_client_name_by_fd g (shared s)) = Some b"
    "strcpy (replicate MAX_MSG_LEN NUL) b = Some (mk_buf MAX_MSG_LEN (client_name g (shared s)))"
    using strcpy_client_name [OF wf] by blast
  then show ?thesis
    using assms
    by (cases s) (simp add: client_closed_conn_def Let_def query_def call_def end_chat_def
        numeral_eq_Suc send_msg_to_fd_def sizeof_msg_def)
qed

lemma read_removed:
  assumes "wf_queue q" and "g \<in> live_fds q"
  shows "read_name (drop_client g q) (get_client_name_by_fd g q) = None"
proof -
  obtain n where n: "node_by_fd g (client_list q) = Some n" using assms(2) node_by_fd_live by blast
  then have "n \<in> set (client_list q)" "cl_fd n = g" using node_by_fd_Some by blast+
  have "m = n" if "m \<in> set (client_list q)" "node_addr m = node_addr n" for m
    using that \<open>n \<in> set _\<close> assms(1) by (auto simp: wf_queue_def distinct_map dest: inj_onD)
  moreover have "n \<notin> set (client_list (drop_client g q))"
    using live_fds_remove [OF assms(1), of g] \<open>cl_fd n = g\<close> by (force simp: live_fds_def)
  moreover have "set (client_list (drop_client g q)) \<subseteq> set (client_list q)"
    using n assms(1) set_remove1_by_subset by (fastforce simp: remove_eq release_node_def)
  ultimately have "find (\<lambda>m. node_addr m = node_addr n) (client_list (drop_client g q)) = None"
    by (auto simp: find_None_notin)
  then show ?thesis using read_own_name(1) [OF assms(1) n] by (simp add: read_name_def)
qed

text \<open>
  C20: a freed name can be read. While a client's accept is being handled, its partner's connection
  closes: the partner's thread frees the node between the moment the accept handler looked the
  partner's name up and the moment it reads it, and the handler's thread is in undefined behaviour.
\<close>

theorem accept_races_with_close:
  assumes "reachable s" and "owner s = None"
    and "threads s t = Some (Client f (handle_conn_accept f msg k))"
    and "threads s t2 = Some (Client g (client_closed_conn g k2))"
    and "get_conn_fd_by_fd f (shared s) = g" and "g \<noteq> f" and "g \<in> live_fds (shared s)"
    and "client_name g (shared s) \<noteq> UNDEF_NAME"
    and "get_client_chatting_status_by_fd g (shared s) \<noteq> CHAT_STATUS_BUSY"
    and "get_client_chatting_status_by_fd f (shared s) = CHAT_STATUS_REQ_PENDING"
  shows "\<exists>s'. steps s s' \<and> threads s' t = Some (Client f Fault)"
proof -
  let ?q = "shared s" and ?q1 = "join f g (shared s)"
  have wf: "wf_queue ?q" using assms(1) by (rule reachable_wf)
  have f: "f \<in> live_fds ?q" using assms(10) by (metis status_not_live client_chat_status_t.distinct(15))
  have inv: "g \<noteq> INVALID_FD" "f \<noteq> INVALID_FD" using assms(7) f invalid_not_live [OF wf] by auto
  have tt: "t2 \<noteq> t" using assms(3,4,6) by auto
  obtain K where e1: "exec t (replicate 15 Quiet) (handle_conn_accept f msg k) s =
      Some (Read_Name (get_client_name_by_fd g ?q) K, s\<lparr>shared := ?q1\<rparr>)"
    using exec_accept_first [OF assms(2) wf assms(5) inv(1) assms(8-10)] by blast
  define sa where "sa = set_thread t (Client f (Read_Name (get_client_name_by_fd g ?q) K)) (s\<lparr>shared := ?q1\<rparr>)"
  have a: "steps s sa" using exec_client_steps [OF e1, of f] assms(3) by (simp add: sa_def)
  have sa: "owner sa = None" "shared sa = ?q1" "threads sa t2 = Some (Client g (client_closed_conn g k2))"
    using assms(2,4) tt by (simp_all add: sa_def)
  have wf1: "wf_queue ?q1" using wf by (rule wf_join)
  have q1: "get_conn_fd_by_fd g ?q1 = f" "get_client_chatting_status_by_fd f ?q1 = CHAT_STATUS_BUSY"
    using wf f assms(6,7) by (simp_all add: join_def chat.put_simps)
  obtain ms where e2: "exec t2 (replicate 7 Quiet @ [Sent 520, Quiet, Quiet]) (client_closed_conn g k2) sa =
      Some (k2, sa\<lparr>shared := drop_client g (end_chat g f ?q1), wire := wire sa @ ms\<rparr>)"
    using exec_close [of sa g f t2 k2] sa wf1 q1 inv(2) by auto
  define sb where "sb = set_thread t2 (Client g k2)
    (sa\<lparr>shared := drop_client g (end_chat g f ?q1), wire := wire sa @ ms\<rparr>)"
  have b: "steps sa sb" using exec_client_steps [OF e2, of g] sa(3) by (simp add: sb_def)
  have "threads sb t = Some (Client f (Read_Name (get_client_name_by_fd g ?q) K))"
    using tt by (simp add: sb_def sa_def)
  moreover have "read_name (shared sb) (get_client_name_by_fd g ?q) = None"
  proof -
    have "wf_queue (end_chat g f ?q1)" "g \<in> live_fds (end_chat g f ?q1)"
        "get_client_name_by_fd g (end_chat g f ?q1) = get_client_name_by_fd g ?q"
      using wf1 assms(7) by (simp_all add: end_chat_def chat.put_simps join_def)
    then show ?thesis using read_removed [of "end_chat g f ?q1" g] by (simp add: sb_def)
  qed
  ultimately have "step sb (set_thread t (Client f Fault) sb)"
    by (rule step.client_act [OF _ act.dangling])
  with a b have "steps s (set_thread t (Client f Fault) sb)" by (meson rtranclp_trans rtranclp.rtrancl_into_rtrancl)
  then show ?thesis by (intro exI [of _ "set_thread t (Client f Fault) sb"]) simp
qed

lemma reachable_asked:
  "\<exists>s. reachable s \<and> owner s = None \<and> \<not> terminate s \<and>
     shared s = propose 4 5 (shared two_clients) \<and>
     threads s 1 = Some (Client 4 (Ret Again)) \<and> threads s 2 = Some (Client 5 (Ret Again))"
proof -
  let ?m = "text_msg MSG_CONNECT_TO_CLIENT (default_name 5)" and ?c = "mk_buf MAX_MSG_LEN (default_name 5)"
  let ?q = "shared two_clients"
  let ?a = "set_thread 1 (Client 4 (handle_chat_connection_request 4 (Some ?c) (Ret Again))) two_clients"
  have len: "length ?c = MAX_MSG_LEN" using length_default_name [of 5] by simp
  have m: "wf_msg ?m" using len by (simp add: wf_msg_def)
  have wf: "wf_queue ?q" using reachable_two by (rule reachable_wf)
  have names: "named ?c ?q = Some (new_node 5 2 101)" "client_name 4 ?q = default_name 4"
    "get_client_fd_by_name (Some ?c) ?q = Some 5"
    using wf len
    by (simp_all add: get_client_fd_by_name_eq ok_text_def)
       (simp_all add: example_shared named_def client_name_def name_of_def node_by_fd_def add_node_def
         init_queue_def default_name_no_NUL)
  have "steps two_clients ?a"
    using steps_receive [OF example_threads(2,8) m] by (simp add: handle_rx_msg_def)
  moreover obtain ms where e: "exec 1 ([Quiet, Quiet, Quiet, Quiet, Quiet, Quiet] @
      [Quiet, Quiet, Quiet, Quiet, Quiet, Quiet, Quiet, Quiet, Quiet, Sent 520, Sent 520])
      (handle_chat_connection_request 4 (Some ?c) (Ret Again)) two_clients =
      Some (Ret Again, two_clients\<lparr>shared := propose 4 5 ?q, wire := wire two_clients @ ms\<rparr>)"
    using exec_request [of two_clients 4 ?c "new_node 5 2 101" 1 "Ret Again"]
      exec_ask [of two_clients ?q ?c 5 1 4 "Ret Again"] names wf len
    unfolding exec_append by (simp add: default_name_no_NUL example_shared)
  moreover define s1 where "s1 = set_thread 1 (Client 4 (Ret Again))
    (two_clients\<lparr>shared := propose 4 5 ?q, wire := wire two_clients @ ms\<rparr>)"
  moreover have "steps ?a s1"
    using exec_client_steps [OF e, of 4] example_threads(2) by (simp add: s1_def)
  ultimately have "reachable s1"
    by (blast intro: reachable_steps reachable_two)
  then show ?thesis
    using example_threads(3,8) by (intro exI [of _ s1]) (simp add: s1_def)
qed

theorem accept_races_with_close_witness:
  "\<exists>s. reachable s \<and> threads s 2 = Some (Client 5 Fault)"
proof -
  obtain s where s: "reachable s" "owner s = None" "\<not> terminate s" "shared s = propose 4 5 (shared two_clients)"
    "threads s 1 = Some (Client 4 (Ret Again))" "threads s 2 = Some (Client 5 (Ret Again))"
    using reachable_asked by blast
  let ?m = "text_msg MSG_CLIENT_ACCEPT_CONNECTION []"
  let ?a = "set_thread 2 (Client 5 (handle_conn_accept 5 ?m (Ret Again))) s"
  let ?b = "set_thread 1 (Client 4 (client_closed_conn 4 (Ret (Leave ERR_CLIENT_CLOSED_CONN)))) ?a"
  have m: "wf_msg ?m" by (simp add: wf_msg_def)
  have "steps s ?a" using steps_receive [OF s(6,3) m] by (simp add: handle_rx_msg_def)
  moreover have "steps ?a ?b" using s(3,5) by (intro steps_hang_up) simp_all
  ultimately have r: "reachable ?b" using s(1) by (blast intro: reachable_steps)
  have wf: "wf_queue (shared two_clients)" using reachable_two by (rule reachable_wf)
  have live: "4 \<in> live_fds (shared two_clients)" "5 \<in> live_fds (shared two_clients)"
    by (simp_all add: example_shared)
  have q: "get_conn_fd_by_fd 5 (shared ?b) = 4" "4 \<in> live_fds (shared ?b)"
    "client_name 4 (shared ?b) = default_name 4"
    "get_client_chatting_status_by_fd 4 (shared ?b) = CHAT_STATUS_FREE"
    "get_client_chatting_status_by_fd 5 (shared ?b) = CHAT_STATUS_REQ_PENDING"
    using wf live s(4)
    by (simp_all add: propose_def chat.put_simps)
       (simp_all add: example_shared client_name_def name_of_def node_by_fd_def add_node_def
         init_queue_def default_name_no_NUL get_client_chatting_status_by_fd_def)
  have th: "threads ?b 2 = Some (Client 5 (handle_conn_accept 5 ?m (Ret Again)))"
    "threads ?b 1 = Some (Client 4 (client_closed_conn 4 (Ret (Leave ERR_CLIENT_CLOSED_CONN))))"
    "owner ?b = None"
    using s(2) by simp_all
  have "\<exists>s'. steps ?b s' \<and> threads s' 2 = Some (Client 5 Fault)"
    by (rule accept_races_with_close [OF r th(3,1,2) q(1)])
       (use q in \<open>simp_all add: default_name_def UNDEF_NAME_def\<close>)
  then show ?thesis using r by (blast intro: reachable_steps)
qed

end
