(* ===== verification/Client_Text.thy ===== *)
theory Client_Text
  imports Protocol
begin

text \<open>
  What the client does to a line of input before and while it looks for a command: blanks at the
  front are cut off in place, and \<^verbatim>\<open>strtok\<close> splits it at spaces, writing NULs into it.
\<close>

abbreviation TAB :: char where
  "TAB \<equiv> CHR 0x09"

abbreviation NEWLINE :: char where
  "NEWLINE \<equiv> CHR 0x0A"

section \<open>Splitting\<close>

text \<open>
  \<^verbatim>\<open>strtok(b + i, " ")\<close> for the first call, and for a later call with \<open>i\<close> the position the
  last one saved: the array afterwards, the offset of the token (\<open>None\<close>: NULL), the position saved.
\<close>

definition strtok :: "char list \<Rightarrow> char \<Rightarrow> nat \<Rightarrow> (char list \<times> nat option \<times> nat) option" where
  "strtok b d i =
     (let s = i + length (takeWhile (\<lambda>c. c = d) (drop i b)) in
      case nth_opt b s of
        None \<Rightarrow> None
      | Some c \<Rightarrow>
          if c = NUL then Some (b, None, s)
          else
            (let e = s + length (takeWhile (\<lambda>c. c \<noteq> d \<and> c \<noteq> NUL) (drop s b)) in
             case nth_opt b e of
               None \<Rightarrow> None
             | Some c' \<Rightarrow>
                 if c' = NUL then Some (b, Some s, e) else Some (b[e := NUL], Some s, Suc e)))"

definition second_token :: "char list \<Rightarrow> (char list \<times> nat option) option" where
  "second_token b =
     (case strtok b SPACE 0 of
        None \<Rightarrow> None
      | Some (b1, _, i) \<Rightarrow>
          (case strtok b1 SPACE i of
             None \<Rightarrow> None
           | Some (b2, tok, _) \<Rightarrow> Some (b2, tok)))"

text \<open>The second word of a text.\<close>

definition after_command :: "string \<Rightarrow> string" where
  "after_command t = dropWhile (\<lambda>c. c = SPACE) (dropWhile (\<lambda>c. c \<noteq> SPACE) (dropWhile (\<lambda>c. c = SPACE) t))"

definition argument :: "string \<Rightarrow> string" where
  "argument t = takeWhile (\<lambda>c. c \<noteq> SPACE) (after_command t)"

lemma takeWhile_NUL:
  "NUL \<notin> set t \<Longrightarrow> takeWhile (\<lambda>c. c \<noteq> d \<and> c \<noteq> NUL) (t @ NUL # r) = takeWhile (\<lambda>c. c \<noteq> d) t"
  by (induction t) auto

lemma takeWhile_delim:
  "d \<noteq> NUL \<Longrightarrow> takeWhile (\<lambda>c. c = d) (t @ NUL # r) = takeWhile (\<lambda>c. c = d) t"
  by (induction t) auto

lemma no_word: "takeWhile (\<lambda>c. c \<noteq> d) (dropWhile (\<lambda>c. c = d) t) = [] \<Longrightarrow> dropWhile (\<lambda>c. c = d) t = []"
proof (rule ccontr)
  assume tw: "takeWhile (\<lambda>c. c \<noteq> d) (dropWhile (\<lambda>c. c = d) t) = []" and ne: "dropWhile (\<lambda>c. c = d) t \<noteq> []"
  have "hd (dropWhile (\<lambda>c. c = d) t) \<noteq> d" using hd_dropWhile [OF ne] by simp
  with tw ne show False by (cases "dropWhile (\<lambda>c. c = d) t") auto
qed

lemma strtok_eq:
  assumes t: "NUL \<notin> set t" and d: "d \<noteq> NUL"
    and sp: "sp = takeWhile (\<lambda>c. c = d) t" and w: "w = takeWhile (\<lambda>c. c \<noteq> d) (dropWhile (\<lambda>c. c = d) t)"
    and rest: "rest = dropWhile (\<lambda>c. c \<noteq> d) (dropWhile (\<lambda>c. c = d) t)"
  shows "strtok (pre @ t @ NUL # r) d (length pre) = Some
     (if w = [] then (pre @ t @ NUL # r, None, length pre + length t)
      else if rest = [] then (pre @ t @ NUL # r, Some (length pre + length sp), length pre + length t)
      else (pre @ sp @ w @ NUL # tl rest @ NUL # r, Some (length pre + length sp),
            length pre + length sp + length w + 1))"
proof -
  have split: "t = sp @ w @ rest" by (simp add: sp w rest)
  have n1: "takeWhile (\<lambda>c. c = d) (drop (length pre) (pre @ t @ NUL # r)) = sp"
    using d by (simp add: takeWhile_delim sp)
  show ?thesis
  proof (cases "w = []")
    case True
    then have "dropWhile (\<lambda>c. c = d) t = []" unfolding w by (rule no_word)
    then have "rest = []" unfolding rest by (simp only: dropWhile.simps)
    with True split have "t = sp" by simp
    then show ?thesis using True n1 by (simp add: strtok_def Let_def)
  next
    case False
    have wt: "NUL \<notin> set (w @ rest)" using t split by auto
    have wd: "takeWhile (\<lambda>c. c \<noteq> d) (w @ rest) = w" by (simp add: w rest)
    have hd: "(pre @ t @ NUL # r) ! (length pre + length sp) = hd w" "hd w \<noteq> NUL"
      using False wt by (cases w; auto simp: split nth_append)+
    have n2: "takeWhile (\<lambda>c. c \<noteq> d \<and> c \<noteq> NUL) (drop (length pre + length sp) (pre @ t @ NUL # r)) = w"
      using takeWhile_NUL [OF wt, of d r] by (simp add: split wd)
    have at_e: "(pre @ t @ NUL # r) ! (length pre + length sp + length w) = (case rest of [] \<Rightarrow> NUL | x # _ \<Rightarrow> x)"
      by (simp add: split nth_append split: list.split)
    have lt: "length t = length sp + length w + length rest" by (simp add: split)
    show ?thesis
    proof (cases rest)
      case Nil
      then show ?thesis using False hd n1 n2 at_e lt by (simp add: strtok_def Let_def)
    next
      case (Cons x xs)
      have "x = d" using Cons rest by (metis (mono_tags) hd_dropWhile list.distinct(1) list.sel(1))
      then show ?thesis
        using False hd n1 n2 at_e lt d Cons
        by (simp add: strtok_def Let_def) (simp add: split list_update_append)
    qed
  qed
qed

text \<open>
  Two calls give the second word, which ends inside the array, and its offset is at least one.
\<close>

lemma second_token_eq:
  assumes t: "NUL \<notin> set t"
  shows "\<exists>b2. second_token (t @ NUL # r) = Some (b2,
       if argument t = [] then None else Some (length t - length (after_command t))) \<and>
     length b2 = length (t @ NUL # r) \<and>
     (argument t \<noteq> [] \<longrightarrow>
        terminated (drop (length t - length (after_command t)) b2) \<and>
        cstr (drop (length t - length (after_command t)) b2) = argument t)"
proof -
  define sp where "sp = takeWhile (\<lambda>c. c = SPACE) t"
  define w where "w = takeWhile (\<lambda>c. c \<noteq> SPACE) (dropWhile (\<lambda>c. c = SPACE) t)"
  define rest where "rest = dropWhile (\<lambda>c. c \<noteq> SPACE) (dropWhile (\<lambda>c. c = SPACE) t)"
  note 1 = strtok_eq [OF t, of SPACE sp w rest "[]" r, OF _ sp_def w_def rest_def, simplified]
  have split: "t = sp @ w @ rest" by (simp add: sp_def w_def rest_def)
  have arg: "after_command t = dropWhile (\<lambda>c. c = SPACE) rest" by (simp add: after_command_def rest_def)
  show ?thesis
  proof (cases rest)
    case Nil
    have "\<exists>tok. strtok (t @ NUL # r) SPACE 0 = Some (t @ NUL # r, tok, length t)"
      unfolding 1 Nil by simp
    moreover have "strtok (t @ NUL # r) SPACE (length t) = Some (t @ NUL # r, None, length t)"
      using strtok_eq [of "[]" SPACE "[]" "[]" "[]" t r] by simp
    ultimately show ?thesis
      using Nil arg by (auto simp: second_token_def argument_def)
  next
    case (Cons x t')
    then have "rest \<noteq> []" by simp
    then have "\<not> hd rest \<noteq> SPACE" unfolding rest_def by (rule hd_dropWhile)
    then have x: "x = SPACE" using Cons by simp
    have "w \<noteq> []"
    proof
      assume "w = []"
      then have "dropWhile (\<lambda>c. c = SPACE) t = []" unfolding w_def by (rule no_word)
      then have "rest = []" unfolding rest_def by (simp only: dropWhile.simps)
      with Cons show False by simp
    qed
    define pre where "pre = sp @ w @ [NUL]"
    have b1: "strtok (t @ NUL # r) SPACE 0 = Some (pre @ t' @ NUL # r, Some (length sp), length pre)"
      using 1 Cons \<open>w \<noteq> []\<close> by (simp add: pre_def)
    define sp' where "sp' = takeWhile (\<lambda>c. c = SPACE) t'"
    define w' where "w' = takeWhile (\<lambda>c. c \<noteq> SPACE) (dropWhile (\<lambda>c. c = SPACE) t')"
    define rest' where "rest' = dropWhile (\<lambda>c. c \<noteq> SPACE) (dropWhile (\<lambda>c. c = SPACE) t')"
    have t': "NUL \<notin> set t'" using t split Cons by auto
    note 2 = strtok_eq [OF t', of SPACE sp' w' rest' pre r, OF _ sp'_def w'_def rest'_def, simplified]
    have ac: "after_command t = w' @ rest'" "argument t = w'"
      using arg Cons x by (simp_all add: argument_def w'_def rest'_def)
    have split': "t' = sp' @ w' @ rest'" by (simp add: sp'_def w'_def rest'_def)
    have lens: "length t = length sp + length w + Suc (length t')" "length pre = length sp + length w + 1"
      "length t' = length sp' + length w' + length rest'"
      using split Cons split' by (metis add.assoc length_Cons length_append)
        (simp add: pre_def, metis add.assoc length_append split')
    have j: "length t - length (after_command t) = length pre + length sp'"
      unfolding ac using lens by simp
    have w'NUL: "NUL \<notin> set w'" "NUL \<notin> set (w' @ rest')" using t' split' by auto
    show ?thesis
    proof (cases "w' = []")
      case True
      then show ?thesis using b1 2 lens by (simp add: second_token_def ac)
    next
      case False
      show ?thesis
      proof (cases rest')
        case Nil
        then have "strtok (pre @ t' @ NUL # r) SPACE (length pre) =
            Some (pre @ t' @ NUL # r, Some (length pre + length sp'), length pre + length t')"
          using 2 False by simp
        then show ?thesis
          unfolding j using b1 False Nil w'NUL lens
          by (simp add: second_token_def ac(2)) (simp add: split' cstr_append_text)
      next
        case (Cons y ys)
        then have "strtok (pre @ t' @ NUL # r) SPACE (length pre) =
            Some (pre @ sp' @ w' @ NUL # ys @ NUL # r, Some (length pre + length sp'),
              Suc (length pre + length sp' + length w'))"
          using 2 False by simp
        then show ?thesis
          unfolding j using b1 False w'NUL lens Cons
          by (simp add: second_token_def ac(2)) (simp add: cstr_append_text)
      qed
    qed
  qed
qed

section \<open>Trimming\<close>

definition is_blank :: "char \<Rightarrow> bool" where
  "is_blank c \<longleftrightarrow> c = SPACE \<or> c = TAB"

text \<open>The loop over \<^verbatim>\<open>start\<close> and the \<^verbatim>\<open>memmove\<close> of the rest with its NUL.\<close>

definition trim_front :: "char list \<Rightarrow> char list option" where
  "trim_front b =
     (let n = length (takeWhile is_blank b) in
      if n = 0 then Some b
      else
        (case strlen (drop n b) of
           None \<Rightarrow> None
         | Some l \<Rightarrow> Some (take (Suc l) (drop n b) @ drop (Suc l) b)))"

lemma trim_front_eq:
  assumes "NUL \<notin> set t"
  shows "\<exists>r'. trim_front (t @ NUL # r) = Some (dropWhile is_blank t @ NUL # r') \<and>
     length (dropWhile is_blank t @ NUL # r') = length (t @ NUL # r)"
proof -
  have tw: "takeWhile is_blank (t @ NUL # r) = takeWhile is_blank t"
    by (induction t) (simp_all add: is_blank_def)
  have d: "drop (length (takeWhile is_blank t)) (t @ NUL # r) = dropWhile is_blank t @ NUL # r"
    by (simp add: dropWhile_eq_drop length_takeWhile_le)
  have n: "NUL \<notin> set (dropWhile is_blank t)" using assms by (auto dest: set_dropWhileD)
  let ?l = "length (dropWhile is_blank t)"
  have len: "length t = length (takeWhile is_blank t) + ?l"
    by (metis length_append takeWhile_dropWhile_id)
  show ?thesis
  proof (cases "takeWhile is_blank t = []")
    case True
    then have "dropWhile is_blank t = t" by (metis append_Nil takeWhile_dropWhile_id)
    then show ?thesis using True tw by (simp add: trim_front_def)
  next
    case False
    then have "trim_front (t @ NUL # r) =
        Some (dropWhile is_blank t @ NUL # drop (Suc ?l) (t @ NUL # r))"
      using tw d n by (simp add: trim_front_def Let_def strlen_eq cstr_append_text)
    then show ?thesis using False len by simp
  qed
qed

end
