(* ===== verification/Client_Lib.thy ===== *)
theory Client_Lib
  imports Client_Text "HOL-Library.Monad_Syntax"
begin

text \<open>
  \<^verbatim>\<open>client/lib_src/client_lib.c\<close> without its loop: the client's state, connecting, sending,
  and the state changes on a received message. Functions take and return the state; \<open>None\<close> is
  undefined behaviour (an unterminated string, a write past an array, a null pointer read). The
  log calls are empty at the log level the client is built with.
\<close>

section \<open>Status codes\<close>

datatype client_err_type_t =
    CLIENT_SUCCESS
  | CONNECTION_FAILED
  | CLIENT_NOT_CONNECTED
  | CLIENT_MSG_SEND_ERR
  | CLIENT_ERR_THREAD_CREATE
  | CLIENT_READ_ERROR
  | CLIENT_READ_TIMEOUT
  | CLIENT_CB_PARAMS_NOT_SET
  | CLIENT_ERR_NULL_PTR
  | CLIENT_MAX_ERR

primrec client_err_code :: "client_err_type_t \<Rightarrow> nat" where
    "client_err_code CLIENT_SUCCESS = 0"
  | "client_err_code CONNECTION_FAILED = 1"
  | "client_err_code CLIENT_NOT_CONNECTED = 2"
  | "client_err_code CLIENT_MSG_SEND_ERR = 3"
  | "client_err_code CLIENT_ERR_THREAD_CREATE = 4"
  | "client_err_code CLIENT_READ_ERROR = 5"
  | "client_err_code CLIENT_READ_TIMEOUT = 6"
  | "client_err_code CLIENT_CB_PARAMS_NOT_SET = 7"
  | "client_err_code CLIENT_ERR_NULL_PTR = 8"
  | "client_err_code CLIENT_MAX_ERR = 9"

instantiation client_err_type_t :: linorder
begin

definition less_eq_client_err_type_t :: "client_err_type_t \<Rightarrow> client_err_type_t \<Rightarrow> bool" where
  "less_eq_client_err_type_t s t \<longleftrightarrow> client_err_code s \<le> client_err_code t"

definition less_client_err_type_t :: "client_err_type_t \<Rightarrow> client_err_type_t \<Rightarrow> bool" where
  "less_client_err_type_t s t \<longleftrightarrow> client_err_code s < client_err_code t"

instance
proof
  fix s t :: client_err_type_t
  show "s \<le> t \<Longrightarrow> t \<le> s \<Longrightarrow> s = t"
    by (cases s; cases t) (simp_all add: less_eq_client_err_type_t_def)
qed (auto simp: less_eq_client_err_type_t_def less_client_err_type_t_def)

end

text \<open>The table has no entry for \<^verbatim>\<open>CLIENT_ERR_NULL_PTR\<close>.\<close>

definition errStr :: "string list" where
  "errStr = [''UNDEFINED_CLIENT_ERR'', ''CLIENT_SUCCESS'', ''CONNECTION_FAILED'',
     ''CLIENT_NOT_CONNECTED'', ''CLIENT_MSG_SEND_ERR'', ''CLIENT_ERR_THREAD_CREATE'',
     ''CLIENT_READ_ERROR'', ''CLIENT_READ_TIMEOUT'', ''CLIENT_CB_PARAMS_NOT_SET'',
     ''CLIENT_MAX_ERR'']"

definition errTostr :: "client_err_type_t \<Rightarrow> string option" where
  "errTostr err =
     (if CLIENT_MAX_ERR \<le> err then nth_opt errStr 0 else nth_opt errStr (client_err_code err + 1))"

interpretation client_err_str: string_table client_err_code 9 errStr errTostr
  by unfold_locales (simp_all add: errTostr_def less_eq_client_err_type_t_def errStr_def)

section \<open>The state of the client\<close>

text \<open>
  \<^verbatim>\<open>lib_params_t\<close> holds pointers to variables of the application; a field says whether the
  pointer is set. The variables themselves are fields of the state.
\<close>

record lib_params_t =
  has_client_shut_down_flag :: bool
  has_server_shut_down_flag :: bool
  has_conn_request_rx :: bool
  has_busy_in_chat :: bool
  has_connected_client_name :: bool
  has_msg_handle_cb :: bool

datatype out = Printed string | Ran string

text \<open>
  The globals of the library and of \<^verbatim>\<open>main_client.c\<close>; the messages passed to
  \<^verbatim>\<open>send\<close>; what was written to the terminal; and the number of bytes read beyond the end
  of an array, where the program does that and goes on.
\<close>

record client =
  sock :: c_int
  cb_parameters :: "lib_params_t option"
  conn_request_rx :: bool
  client_shut_down_flag :: bool
  server_shut_down_flag :: bool
  busy_in_chat :: bool
  connected_client_name :: "char list"
  outbox :: "msg_t list"
  terminal :: "out list"
  overread :: nat

definition init_client :: client where
  "init_client = \<lparr>sock = INVALID_FD, cb_parameters = None, conn_request_rx = False,
     client_shut_down_flag = False, server_shut_down_flag = False, busy_in_chat = False,
     connected_client_name = mk_buf MAX_CLIENT_NAME_LEN UNDEF_NAME,
     outbox = [], terminal = [], overread = 0\<rparr>"

text \<open>A dereferenced field of \<^verbatim>\<open>*cb_parameters\<close>: undefined behaviour if either pointer is null.\<close>

definition through :: "(lib_params_t \<Rightarrow> bool) \<Rightarrow> client \<Rightarrow> unit option" where
  "through has c =
     (case cb_parameters c of None \<Rightarrow> None | Some p \<Rightarrow> if has p then Some () else None)"

text \<open>\<^verbatim>\<open>printf\<close> of a literal, and of a format with one \<^verbatim>\<open>%s\<close> between two literals.\<close>

definition puts :: "string \<Rightarrow> client \<Rightarrow> client" where
  "puts s c = c\<lparr>terminal := terminal c @ [Printed s]\<rparr>"

definition printf_s :: "string \<Rightarrow> char list \<Rightarrow> string \<Rightarrow> client \<Rightarrow> client option" where
  "printf_s pre b post c = (case strlen b of None \<Rightarrow> None | Some _ \<Rightarrow> Some (puts (pre @ cstr b @ post) c))"

section \<open>Parameters and signals\<close>

definition set_lib_params :: "lib_params_t option \<Rightarrow> client \<Rightarrow> client" where
  "set_lib_params params c = (case params of None \<Rightarrow> c | Some p \<Rightarrow> c\<lparr>cb_parameters := Some p\<rparr>)"

definition check_lib_params :: "client \<Rightarrow> client_err_type_t" where
  "check_lib_params c =
     (case cb_parameters c of
        None \<Rightarrow> CLIENT_ERR_NULL_PTR
      | Some p \<Rightarrow>
          if \<not> has_client_shut_down_flag p \<or> \<not> has_server_shut_down_flag p \<or>
             \<not> has_msg_handle_cb p \<or> \<not> has_busy_in_chat p \<or> \<not> has_connected_client_name p
          then CLIENT_ERR_NULL_PTR
          else CLIENT_SUCCESS)"

definition client_sig_int_handler :: "int \<Rightarrow> client \<Rightarrow> client option" where
  "client_sig_int_handler sig c =
     (if sig = 2 then
        (case cb_parameters c of
           None \<Rightarrow> Some c
         | Some p \<Rightarrow>
             if has_client_shut_down_flag p then Some (c\<lparr>client_shut_down_flag := True\<rparr>) else None)
      else Some c)"

section \<open>Sending\<close>

text \<open>\<open>ret\<close> is the result of \<^verbatim>\<open>send\<close>.\<close>

definition send_msg_to_server :: "int \<Rightarrow> msg_t \<Rightarrow> client \<Rightarrow> client_err_type_t \<times> client" where
  "send_msg_to_server ret msg c =
     (if sock c = INVALID_FD then (CLIENT_NOT_CONNECTED, c)
      else
        (let c' = c\<lparr>outbox := outbox c @ [msg]\<rparr> in
         if int sizeof_msg \<noteq> ret \<or> - 1 = ret then (CLIENT_MSG_SEND_ERR, c') else (CLIENT_SUCCESS, c')))"

definition set_my_name :: "int \<Rightarrow> char list option \<Rightarrow> client \<Rightarrow> client option" where
  "set_my_name ret name_to_set c =
     (case name_to_set of
        None \<Rightarrow> Some c
      | Some nm \<Rightarrow> do {
          b \<leftarrow> strcpy (msg_buf zero_msg) nm;
          let send_msg = set_type MSG_SET_NAME_REQ_TYPE
            (set_buf b (zero_msg\<lparr>to_client_id := of_nat (msg_type_code MSG_SERVER)\<rparr>));
          Some (snd (send_msg_to_server ret send_msg c))
        })"

text \<open>The client's \<^verbatim>\<open>get_client_list\<close>.\<close>

definition request_client_list :: "int \<Rightarrow> client \<Rightarrow> client" where
  "request_client_list ret c =
     snd (send_msg_to_server ret (set_type MSG_GET_CLIENT_LIST_TYPE zero_msg) c)"

text \<open>
  \<open>name\<close> is the part of an array from the pointer on, \<open>behind\<close> what lies behind the array in
  memory. The copy takes 512 bytes whatever the length of the name.
\<close>

definition connect_with_client :: "int \<Rightarrow> char list \<Rightarrow> char list option \<Rightarrow> client \<Rightarrow> client option" where
  "connect_with_client ret behind name c =
     (case name of
        None \<Rightarrow> Some c
      | Some nm \<Rightarrow> do {
          b \<leftarrow> memcpy (msg_buf zero_msg) (nm @ behind) MAX_MSG_LEN;
          let c1 = c\<lparr>overread := overread c + (MAX_MSG_LEN - length nm)\<rparr>;
          let conn_req_msg = set_buf b (set_type MSG_CONNECT_TO_CLIENT zero_msg);
          let c2 = snd (send_msg_to_server ret conn_req_msg c1);
          printf_s ''Connection request to '' nm '' send.\<newline>'' c2
        })"

section \<open>Connecting\<close>

text \<open>\<^verbatim>\<open>select\<close> answers \<open>sel\<close>; the result of \<^verbatim>\<open>recv\<close> is not looked at.\<close>

definition recv_with_timeout :: "int \<Rightarrow> recv_result \<Rightarrow> msg_t \<Rightarrow> client_err_type_t \<times> msg_t" where
  "recv_with_timeout sel r buf =
     (if sel = - 1 then (CLIENT_READ_ERROR, buf)
      else if sel = 0 then (CLIENT_READ_TIMEOUT, buf)
      else (CLIENT_SUCCESS, case r of Recv_Bytes bs \<Rightarrow> recv_into buf bs | _ \<Rightarrow> buf))"

text \<open>The answers of the system calls of \<^verbatim>\<open>connect_to_server\<close>.\<close>

record conn_env =
  socket_ret :: c_int
  connect_ret :: int
  select_ret :: int
  recv_ret :: recv_result
  send_ret :: int

definition connect_to_server :: "conn_env \<Rightarrow> client \<Rightarrow> (client_err_type_t \<times> client) option" where
  "connect_to_server e c =
     (if CLIENT_SUCCESS \<noteq> check_lib_params c then Some (CLIENT_CB_PARAMS_NOT_SET, c)
      else
        (let c1 = c\<lparr>sock := socket_ret e\<rparr> in
         if connect_ret e \<noteq> 0 then Some (CONNECTION_FAILED, c1)
         else
           (let (err, temp_msg) = recv_with_timeout (select_ret e) (recv_ret e) zero_msg in
            if CLIENT_SUCCESS \<noteq> err then Some (CONNECTION_FAILED, c1)
            else do {
              same \<leftarrow> (if MSG_CONN_ESTABLISH_REQ = msg_type temp_msg
                       then map_option (\<lambda>r. r = 0) (strcmp (msg_buf temp_msg) (lit SERVER_UNIQUEUE_ID))
                       else Some False);
              Some (
                if same then
                  (let (err, c2) = send_msg_to_server (send_ret e) (set_type MSG_CONN_ESTABLISH_ACK zero_msg) c1
                   in (if err \<noteq> CLIENT_SUCCESS then CONNECTION_FAILED else CLIENT_SUCCESS, c2))
                else if MSG_MAX_CLIENT_REACHED = msg_type temp_msg then
                  (CONNECTION_FAILED,
                   puts ''Server is on its limit, no more client connection allowed.\<newline>'' c1)
                else (CONNECTION_FAILED, c1))
            })))"

section \<open>Received messages\<close>

text \<open>\<^verbatim>\<open>strcpy(cb_parameters->connected_client_name, b)\<close>\<close>

definition set_connected_name :: "char list \<Rightarrow> client \<Rightarrow> client option" where
  "set_connected_name b c = do {
     _ \<leftarrow> through has_connected_client_name c;
     nm \<leftarrow> strcpy (connected_client_name c) b;
     Some (c\<lparr>connected_client_name := nm\<rparr>)
   }"

text \<open>\<^verbatim>\<open>*(cb_parameters->busy_in_chat) = v\<close>\<close>

definition set_busy :: "bool \<Rightarrow> client \<Rightarrow> client option" where
  "set_busy v c = do {
     _ \<leftarrow> through has_busy_in_chat c;
     Some (c\<lparr>busy_in_chat := v\<rparr>)
   }"

definition handle_rx_msg_lib :: "msg_t \<Rightarrow> client \<Rightarrow> client option" where
  "handle_rx_msg_lib rx_msg c =
     (case msg_type rx_msg of
        MSG_CONNECTION_REQ_RX \<Rightarrow> Some (c\<lparr>conn_request_rx := True\<rparr>)
      | MSG_CLIENT_ACCEPT_CONNECTION_ACK \<Rightarrow> do {
          c1 \<leftarrow> set_busy True (c\<lparr>conn_request_rx := False\<rparr>);
          set_connected_name (msg_buf rx_msg) c1
        }
      | MSG_CLIENT_CHAT_READY \<Rightarrow> do {
          c1 \<leftarrow> set_connected_name (msg_buf rx_msg) c;
          set_busy True c1
        }
      | MSG_CLIENT_NO_MORE_FREE \<Rightarrow> do {
          c1 \<leftarrow> set_busy False (c\<lparr>conn_request_rx := False\<rparr>);
          set_connected_name (lit UNDEF_NAME) c1
        }
      | MSG_CLIENT_TERMINATION \<Rightarrow> do {
          c1 \<leftarrow> set_busy False (c\<lparr>conn_request_rx := False\<rparr>);
          set_connected_name (lit UNDEF_NAME) c1
        }
      | MSG_CLIENT_DISCONNECTED \<Rightarrow> do {
          c1 \<leftarrow> set_busy False (c\<lparr>conn_request_rx := False\<rparr>);
          set_connected_name (lit UNDEF_NAME) c1
        }
      | _ \<Rightarrow> Some c)"

end
