(* ===== verification/Client_Input.thy ===== *)
theory Client_Input
  imports Client_Lib
begin

text \<open>
  \<^verbatim>\<open>client/lib_src/user_iterectaions.c\<close>: a line of input is the text of a chat, the answer to
  a connection request, or a command, depending on the flags of the client.
\<close>

section \<open>Commands\<close>

datatype cmd_type_t =
    CMD_TYPE_GET_LIST
  | CMD_TYPE_CONNECT
  | CMD_TYPE_DISCONNECT
  | CMD_TYPE_SET_NAME
  | CMD_TYPE_PRINT_HELP
  | CMD_TYPE_CLEAR_SCREEN
  | CMD_TYPE_MAX_CMD

definition GET_LIST_CMD :: string where "GET_LIST_CMD = ''get_list''"
definition CONNECT_CMD :: string where "CONNECT_CMD = ''connect''"
definition SET_NAME_CMD :: string where "SET_NAME_CMD = ''set_name''"
definition PRINT_HELP_CMD :: string where "PRINT_HELP_CMD = ''help''"
definition CLEAR_SCREEN_CMD :: string where "CLEAR_SCREEN_CMD = ''clear''"
definition REQ_ACCEPT_STR :: string where "REQ_ACCEPT_STR = ''yes''"
definition REQ_DECLINE_STR :: string where "REQ_DECLINE_STR = ''no''"

definition cmd_list :: "string list" where
  "cmd_list = [GET_LIST_CMD, CONNECT_CMD, DISCONNECT_CMD, SET_NAME_CMD, PRINT_HELP_CMD, CLEAR_SCREEN_CMD]"

definition cmd_types :: "cmd_type_t list" where
  "cmd_types = [CMD_TYPE_GET_LIST, CMD_TYPE_CONNECT, CMD_TYPE_DISCONNECT, CMD_TYPE_SET_NAME,
     CMD_TYPE_PRINT_HELP, CMD_TYPE_CLEAR_SCREEN]"

text \<open>The loop over the table: an exact match, or for two of the commands a match of the front.\<close>

primrec find_cmd :: "char list \<Rightarrow> (cmd_type_t \<times> string) list \<Rightarrow> cmd_type_t option" where
  "find_cmd b [] = Some CMD_TYPE_MAX_CMD"
| "find_cmd b (p # rest) =
     (case p of (i, s) \<Rightarrow>
        (case strcmp b (lit s) of
           None \<Rightarrow> None
         | Some r \<Rightarrow>
             if 0 = r then Some i
             else if CMD_TYPE_SET_NAME = i \<or> CMD_TYPE_CONNECT = i then
               (case strncmp b (lit s) (length s) of
                  None \<Rightarrow> None
                | Some r' \<Rightarrow> if 0 = r' then Some i else find_cmd b rest)
             else find_cmd b rest))"

definition get_cmd_id_by_name :: "char list option \<Rightarrow> cmd_type_t option" where
  "get_cmd_id_by_name cmd_name =
     (case cmd_name of
        None \<Rightarrow> Some CMD_TYPE_MAX_CMD
      | Some b \<Rightarrow> find_cmd b (zip cmd_types cmd_list))"

definition show_help :: "client \<Rightarrow> client" where
  "show_help c =
     puts (''cmd : [ '' @ CLEAR_SCREEN_CMD @ '' ] : To clear the screen.\<newline>'')
     (puts (''cmd : [ '' @ PRINT_HELP_CMD @ '' ] : To print the help and usage of all commands.\<newline>'')
     (puts (''cmd : [ '' @ DISCONNECT_CMD @ '' ] : To disconnect from the client you previously connected.\<newline>'')
     (puts (''cmd : [ '' @ CONNECT_CMD @ '' client_name ]: will connect you to the client named ''
            @ [CHR 0x22] @ ''client_name'' @ [CHR 0x22] @ ''.\<newline>'')
     (puts (''cmd : [ '' @ SET_NAME_CMD @ '' ] : To set your name as you wish.\<newline>'')
     (puts (''cmd : [ '' @ GET_LIST_CMD @ ''] : To get list off all connected client to the server (including you).\<newline>'') c)))))"

section \<open>A line of input\<close>

text \<open>\<open>ret\<close> is the answer of the \<^verbatim>\<open>send\<close> a line can lead to.\<close>

definition handle_send_msg_to_client :: "int \<Rightarrow> char list option \<Rightarrow> client \<Rightarrow> client option" where
  "handle_send_msg_to_client ret send_msg_str c =
     (case send_msg_str of
        None \<Rightarrow> Some c
      | Some str \<Rightarrow> do {
          b \<leftarrow> strcpy (msg_buf zero_msg) str;
          let c1 = snd (send_msg_to_server ret (set_buf b (set_type MSG_CLIENT_TX_TYPE zero_msg)) c);
          r \<leftarrow> strcmp str (lit DISCONNECT_CMD);
          if 0 = r then do {
            c2 \<leftarrow> set_busy False (puts ''You are quittig the chat.\<newline>'' c1);
            set_connected_name (lit UNDEF_NAME) c2
          }
          else Some c1
        })"

text \<open>
  \<open>behind\<close> is the memory behind the array of the line. The comparisons with the two answers are
  made only while a request is open.
\<close>

definition process_command :: "int \<Rightarrow> char list \<Rightarrow> char list \<Rightarrow> client \<Rightarrow> client option" where
  "process_command ret behind b c = do {
     cmd \<leftarrow> get_cmd_id_by_name (Some b);
     (case cmd of
        CMD_TYPE_MAX_CMD \<Rightarrow> printf_s ''[ '' b '' ] is not recognised as valid command.\<newline>'' c
      | CMD_TYPE_GET_LIST \<Rightarrow> Some (request_client_list ret c)
      | CMD_TYPE_CONNECT \<Rightarrow> do {
          (b', name) \<leftarrow> second_token b;
          (case name of
             Some j \<Rightarrow> connect_with_client ret behind (Some (drop j b')) c
           | None \<Rightarrow> Some (puts ''No client name provided to connect.\<newline>'' c))
        }
      | CMD_TYPE_DISCONNECT \<Rightarrow> Some (puts ''You are not connected to anyone.\<newline>'' c)
      | CMD_TYPE_SET_NAME \<Rightarrow> do {
          (b', name) \<leftarrow> second_token b;
          (case name of
             Some j \<Rightarrow> set_my_name ret (Some (drop j b')) c
           | None \<Rightarrow> Some (puts ''No name provided\<newline>'' c))
        }
      | CMD_TYPE_PRINT_HELP \<Rightarrow> Some (show_help c)
      | CMD_TYPE_CLEAR_SCREEN \<Rightarrow> Some (show_help (c\<lparr>terminal := terminal c @ [Ran ''clear'']\<rparr>)))
   }"

definition process_send_msg :: "int \<Rightarrow> char list \<Rightarrow> char list option \<Rightarrow> client \<Rightarrow> client option" where
  "process_send_msg ret behind send_msg_buffer c =
     (case send_msg_buffer of
        None \<Rightarrow> Some c
      | Some b \<Rightarrow> do {
          _ \<leftarrow> through has_busy_in_chat c;
          if busy_in_chat c then handle_send_msg_to_client ret (Some b) c
          else if conn_request_rx c then do {
            r \<leftarrow> strcmp b (lit REQ_ACCEPT_STR);
            if 0 = r then
              Some (snd (send_msg_to_server ret (set_type MSG_CLIENT_ACCEPT_CONNECTION zero_msg)
                (c\<lparr>conn_request_rx := False\<rparr>)))
            else do {
              r' \<leftarrow> strcmp b (lit REQ_DECLINE_STR);
              if 0 = r' then
                Some (snd (send_msg_to_server ret (set_type MSG_CLIENT_DECLINE_CONNECTION zero_msg)
                  (c\<lparr>conn_request_rx := False\<rparr>)))
              else
                Some (puts (''Please enter '' @ [CHR 0x22] @ ''yes'' @ [CHR 0x22] @ '' or '' @
                  [CHR 0x22] @ ''no'' @ [CHR 0x22] @ '' to accept or decline connection request.\<newline>'') c)
            }
          }
          else process_command ret behind b c
        })"

end
