(* ===== verification/Client_Main.thy ===== *)
theory Client_Main
  imports Client_Input
begin

text \<open>
  The client's loop, \<^verbatim>\<open>io_thread\<close> of \<^verbatim>\<open>client_lib.c\<close>, and the application,
  \<^verbatim>\<open>main_client.c\<close>: its callback that prints received messages, and \<^verbatim>\<open>main\<close>.
\<close>

section \<open>Printing a received message\<close>

definition msg_handle_cb :: "msg_t \<Rightarrow> client \<Rightarrow> client option" where
  "msg_handle_cb rx_msg c =
     (let b = msg_buf rx_msg; quoted = (\<lambda>s. [CHR 0x22] @ s @ [CHR 0x22]) in
      case msg_type rx_msg of
        MSG_SET_NAME_ACK_TYPE \<Rightarrow> Some (puts ''Name set successfully\<newline>'' c)
      | MSG_SET_NAME_NACK_TYPE \<Rightarrow> Some (puts ''Name not set.\<newline>'' c)
      | MSG_GET_CLIENT_LIST_TYPE \<Rightarrow> printf_s ''Available clients on server : '' b ''\<newline>'' c
      | MSG_CONNECTION_REQ_RX \<Rightarrow> do {
          c1 \<leftarrow> printf_s ''[ '' b '' ] Wants to connect with you.\<newline>'' c;
          Some (puts (''Enter '' @ quoted ''yes'' @ '' or '' @ quoted ''no'' @
            '' to accept or decline connection request.\<newline>'') c1)
        }
      | MSG_CLIENT_STATUS_REQ_PENDING \<Rightarrow>
          printf_s ''Cannot connect with [ '' b '' ], processing other connection request.\<newline>'' c
      | MSG_CLIENT_ACCEPT_CONNECTION_ACK \<Rightarrow> do {
          c1 \<leftarrow> printf_s ''[ '' b '' ] accepted your connection request.\<newline>'' c;
          Some (puts ''You can chat now.\<newline>'' c1)
        }
      | MSG_CLIENT_NO_MORE_FREE \<Rightarrow>
          printf_s ''Cannot connect to [ '' b '' ], no more available to chat.\<newline>'' c
      | MSG_CLIENT_TERMINATION \<Rightarrow> printf_s ''Client terminated : '' b ''.\<newline>'' c
      | MSG_CLIENT_DISCONNECTED \<Rightarrow> printf_s ''Client disconnected : [ '' b '' ].\<newline>'' c
      | MSG_CLIENT_CHAT_READY \<Rightarrow> printf_s ''Ready to chat with : [ '' b '' ].\<newline>'' c
      | MSG_CLIENT_DECLINE_CONNECTION_ACK \<Rightarrow>
          printf_s ''[ '' b '' ] Declined your connection request.\<newline>'' c
      | MSG_CLIENT_FREE \<Rightarrow>
          Some (puts ''Requested client is free to chat, Waitig for request approval.\<newline>'' c)
      | MSG_CLIENT_BUSY \<Rightarrow>
          printf_s ''[ '' b '' ] is now busy in chat with someone else, cannot connect to you.\<newline>'' c
      | MSG_ATTEMPT_TO_CONNECT_TO_SELF \<Rightarrow> Some (puts ''Cannot connect to our-self.\<newline>'' c)
      | MSG_CLIENT_NOT_EXIST \<Rightarrow> printf_s ''No client with name : '' b ''.\<newline>'' c
      | MSG_CLIENT_RX_TYPE \<Rightarrow> do {
          _ \<leftarrow> strlen (connected_client_name c);
          printf_s (''[ '' @ cstr (connected_client_name c) @ '' ] : [ '') b '' ]\<newline>'' c
        }
      | _ \<Rightarrow> do {
          ty \<leftarrow> msgTypeToStr (msg_type rx_msg);
          printf_s (''msg rx , msg_type : '' @ ty @ '', msg_data : '') b ''\<newline>'' c
        })"

section \<open>The loop\<close>

text \<open>
  One round: the answers of \<^verbatim>\<open>poll\<close> (an error, a timeout, or which of the two descriptors
  can be read), \<^verbatim>\<open>recv\<close>, \<^verbatim>\<open>read\<close> and \<^verbatim>\<open>send\<close>. \<open>stack\<close> is the
  uninitialised array the line is read into and the memory behind it. \<open>r_sigint\<close>: the user
  interrupts the program in this round. The handler sets a flag that only the loop condition reads,
  so its place inside the round does not matter; it comes first here.
\<close>

datatype io_poll = Io_Error | Io_Timeout | Io_Ready (from_server: bool) (from_stdin: bool)

datatype read_result = Read_Bytes "char list" | Read_Eof | Read_Error

record io_round =
  r_sigint :: bool
  r_poll :: io_poll
  r_recv :: recv_result
  r_read :: read_result
  r_send :: int
  stack :: "char list \<times> char list"

datatype io_ctl = Continue | Break

text \<open>The part of a round that serves the socket; \<open>rx\<close> is the variable \<^verbatim>\<open>rx_msg\<close>.\<close>

definition serve_socket :: "recv_result \<Rightarrow> msg_t \<times> client \<Rightarrow> (io_ctl \<times> msg_t \<times> client) option" where
  "serve_socket r s =
     (case s of (rx, c) \<Rightarrow>
        (case r of
           Recv_Bytes bs \<Rightarrow>
             (let rx' = recv_into rx bs in
              case cb_parameters c of
                None \<Rightarrow> Some (Continue, rx', c)
              | Some p \<Rightarrow>
                  if has_msg_handle_cb p then do {
                    c1 \<leftarrow> msg_handle_cb rx' c;
                    c2 \<leftarrow> handle_rx_msg_lib rx' c1;
                    Some (Continue, rx', c2)
                  }
                  else Some (Continue, rx', c))
         | Recv_Eof \<Rightarrow> do {
             _ \<leftarrow> through has_server_shut_down_flag c;
             _ \<leftarrow> through has_client_shut_down_flag c;
             Some (Break, rx, (puts ''Server shut-down detected.\<newline>'' c)
               \<lparr>server_shut_down_flag := True, client_shut_down_flag := True\<rparr>)
           }
         | Recv_Error \<Rightarrow> Some (Break, rx, c)))"

text \<open>
  The part that serves the terminal. \<^verbatim>\<open>read\<close> writes its bytes over the front of the array,
  a NUL goes behind them, a newline at the end becomes a NUL, and blanks at the front are cut.
\<close>

definition input_line :: "char list \<Rightarrow> char list \<Rightarrow> char list option" where
  "input_line junk bs = do {
     let b = bs @ drop (length bs) junk;
     b1 \<leftarrow> store_byte b (length bs) NUL;
     l \<leftarrow> nth_opt b1 (length bs - 1);
     b2 \<leftarrow> (if l = NEWLINE then store_byte b1 (length bs - 1) NUL else Some b1);
     trim_front b2
   }"

definition serve_terminal ::
  "read_result \<Rightarrow> int \<Rightarrow> char list \<times> char list \<Rightarrow> client \<Rightarrow> (io_ctl \<times> client) option" where
  "serve_terminal r ret stk c =
     (case r of
        Read_Bytes bs \<Rightarrow>
          if bs = [NEWLINE] then Some (Continue, c)
          else do {
            b \<leftarrow> input_line (fst stk) bs;
            c1 \<leftarrow> process_send_msg ret (snd stk) (Some b) c;
            Some (Continue, c1)
          }
      | Read_Eof \<Rightarrow> Some (Continue, c)
      | Read_Error \<Rightarrow> Some (Break, c))"

definition io_step :: "io_round \<Rightarrow> msg_t \<times> client \<Rightarrow> (io_ctl \<times> msg_t \<times> client) option" where
  "io_step r s =
     (case r_poll r of
        Io_Error \<Rightarrow> Some (Break, s)
      | Io_Timeout \<Rightarrow> Some (Continue, s)
      | Io_Ready sk tty \<Rightarrow> do {
          (ctl, rx, c) \<leftarrow> (if sk then serve_socket (r_recv r) s else Some (Continue, s));
          if ctl = Break then Some (Break, rx, c)
          else if tty then do {
            (ctl', c') \<leftarrow> serve_terminal (r_read r) (r_send r) (stack r) c;
            Some (ctl', rx, c')
          }
          else Some (Continue, rx, c)
        })"

text \<open>The condition of the loop, negated; the second pointer is read only if the first flag is not set.\<close>

definition stop_requested :: "client \<Rightarrow> bool option" where
  "stop_requested c = do {
     _ \<leftarrow> through has_client_shut_down_flag c;
     if client_shut_down_flag c then Some True
     else do {
       _ \<leftarrow> through has_server_shut_down_flag c;
       Some (server_shut_down_flag c)
     }
   }"

definition interrupted :: "bool \<Rightarrow> client \<Rightarrow> client option" where
  "interrupted sigint c = (if sigint then client_sig_int_handler 2 c else Some c)"

text \<open>
  The loop over a list of rounds. The first component says whether the loop has ended; if not, the
  list of rounds was too short.
\<close>

primrec io_thread :: "io_round list \<Rightarrow> msg_t \<times> client \<Rightarrow> (bool \<times> msg_t \<times> client) option" where
  "io_thread [] s = do {
     stop \<leftarrow> stop_requested (snd s);
     Some (stop, s)
   }"
| "io_thread (r # rs) s = do {
     stop \<leftarrow> stop_requested (snd s);
     if stop then Some (True, s)
     else do {
       c \<leftarrow> interrupted (r_sigint r) (snd s);
       (ctl, s') \<leftarrow> io_step r (fst s, c);
       if ctl = Break then Some (True, s') else io_thread rs s'
     }
   }"

text \<open>\<open>failed\<close>: \<^verbatim>\<open>pthread_create\<close> failed. The thread returns \<^verbatim>\<open>CLIENT_SUCCESS\<close>.\<close>

definition chat_on :: "bool \<Rightarrow> io_round list \<Rightarrow> msg_t \<Rightarrow> client \<Rightarrow> (client_err_type_t option \<times> client) option" where
  "chat_on failed rounds rx c =
     (if failed then Some (Some CLIENT_ERR_THREAD_CREATE, c)
      else map_option (\<lambda>(ended, _, c'). (if ended then Some CLIENT_SUCCESS else None, c'))
             (io_thread rounds (rx, c)))"

section \<open>The application\<close>

definition params_send_to_lib :: lib_params_t where
  "params_send_to_lib = \<lparr>has_client_shut_down_flag = True, has_server_shut_down_flag = True,
     has_conn_request_rx = False, has_busy_in_chat = True, has_connected_client_name = True,
     has_msg_handle_cb = True\<rparr>"

text \<open>
  \<open>args\<close> is \<^verbatim>\<open>argv\<close>. The result is the exit status, \<open>None\<close> while the loop runs.
\<close>

definition client_main ::
  "char list list \<Rightarrow> conn_env \<Rightarrow> int \<Rightarrow> bool \<Rightarrow> io_round list \<Rightarrow> msg_t \<Rightarrow> (int option \<times> client) option" where
  "client_main args e ret failed rounds rx = do {
     let c = set_lib_params (Some params_send_to_lib) init_client;
     (err, c1) \<leftarrow> connect_to_server e c;
     if err \<noteq> CLIENT_SUCCESS then Some (Some (- 1), puts ''Connect to server failed.\<newline>'' c1)
     else do {
       c2 \<leftarrow> (if length args = 2 then set_my_name ret (Some (args ! 1)) c1 else Some c1);
       (r, c3) \<leftarrow> chat_on failed rounds rx (show_help c2);
       Some (case r of
               None \<Rightarrow> (None, c3)
             | Some _ \<Rightarrow> (Some 0, puts ''Closing the client.\<newline>'' c3))
     }
   }"

end
