(* ===== verification/Client_Spec.thy ===== *)
theory Client_Spec
  imports Client_Main
begin

text \<open>
  What the client promises, without buffers and pointers: the commands of the user as a function of
  the text of a line, and the user's view of the chat with its changes on a line typed and on a
  message received.
\<close>

section \<open>Commands\<close>

definition begins_with :: "string \<Rightarrow> string \<Rightarrow> bool" where
  "begins_with s t \<longleftrightarrow> take (length s) t = s"

definition parse_cmd :: "string \<Rightarrow> cmd_type_t" where
  "parse_cmd t =
     (if begins_with CONNECT_CMD t then CMD_TYPE_CONNECT
      else if begins_with SET_NAME_CMD t then CMD_TYPE_SET_NAME
      else if t = GET_LIST_CMD then CMD_TYPE_GET_LIST
      else if t = DISCONNECT_CMD then CMD_TYPE_DISCONNECT
      else if t = PRINT_HELP_CMD then CMD_TYPE_PRINT_HELP
      else if t = CLEAR_SCREEN_CMD then CMD_TYPE_CLEAR_SCREEN
      else CMD_TYPE_MAX_CMD)"

definition takes_argument :: "cmd_type_t \<Rightarrow> bool" where
  "takes_argument i \<longleftrightarrow> i = CMD_TYPE_SET_NAME \<or> i = CMD_TYPE_CONNECT"

lemma find_cmd_eq:
  assumes "terminated b" and "\<forall>(i, s) \<in> set tbl. NUL \<notin> set s"
  shows "find_cmd b tbl = Some
     (case find (\<lambda>(i, s). cstr b = s \<or> takes_argument i \<and> begins_with s (cstr b)) tbl of
        None \<Rightarrow> CMD_TYPE_MAX_CMD | Some (i, _) \<Rightarrow> i)"
  using assms(2)
proof (induction tbl)
  case (Cons p tbl)
  obtain i s where p: "p = (i, s)" by fastforce
  with Cons.prems have s: "NUL \<notin> set s" by simp
  obtain r where r: "strcmp b (lit s) = Some r" "r = 0 \<longleftrightarrow> cstr b = s"
    using strcmp_total_left [OF assms(1), of "lit s"] s
    by (auto simp: lit_def cstr_append_text)
  obtain r' where "strncmp b (lit s) (length s) = Some r'" "r' = 0 \<longleftrightarrow> begins_with s (cstr b)"
    using strncmp_front [OF assms(1) s] by (auto simp: lit_def begins_with_def)
  with Cons r p show ?case by (auto simp: takes_argument_def)
qed simp

lemmas cmd_words = GET_LIST_CMD_def CONNECT_CMD_def DISCONNECT_CMD_def SET_NAME_CMD_def
  PRINT_HELP_CMD_def CLEAR_SCREEN_CMD_def

lemma get_cmd_eq:
  assumes "terminated b"
  shows "get_cmd_id_by_name (Some b) = Some (parse_cmd (cstr b))"
proof -
  have "find_cmd b (zip cmd_types cmd_list) = Some (parse_cmd (cstr b))"
    by (subst find_cmd_eq [OF assms])
      (auto simp: cmd_types_def cmd_list_def cmd_words parse_cmd_def begins_with_def takes_argument_def)
  then show ?thesis by (simp add: get_cmd_id_by_name_def)
qed

section \<open>The user's view\<close>

record view =
  talking :: bool
  asked :: bool
  partner :: string

type_synonym request = "msg_type_t \<times> string"

definition abs_client :: "client \<Rightarrow> view" where
  "abs_client c = \<lparr>talking = busy_in_chat c, asked = conn_request_rx c,
     partner = cstr (connected_client_name c)\<rparr>"

definition abs_request :: "msg_t \<Rightarrow> request" where
  "abs_request m = (msg_type m, cstr (msg_buf m))"

definition quiet :: view where
  "quiet = \<lparr>talking = False, asked = False, partner = UNDEF_NAME\<rparr>"

definition user_command :: "string \<Rightarrow> request list" where
  "user_command t =
     (case parse_cmd t of
        CMD_TYPE_GET_LIST \<Rightarrow> [(MSG_GET_CLIENT_LIST_TYPE, [])]
      | CMD_TYPE_CONNECT \<Rightarrow> if argument t = [] then [] else [(MSG_CONNECT_TO_CLIENT, argument t)]
      | CMD_TYPE_SET_NAME \<Rightarrow> if argument t = [] then [] else [(MSG_SET_NAME_REQ_TYPE, argument t)]
      | _ \<Rightarrow> [])"

definition user_line :: "view \<Rightarrow> string \<Rightarrow> view \<times> request list" where
  "user_line v t =
     (if talking v then
        (if t = DISCONNECT_CMD then v\<lparr>talking := False, partner := UNDEF_NAME\<rparr> else v,
         [(MSG_CLIENT_TX_TYPE, t)])
      else if asked v then
        (if t = REQ_ACCEPT_STR then (v\<lparr>asked := False\<rparr>, [(MSG_CLIENT_ACCEPT_CONNECTION, [])])
         else if t = REQ_DECLINE_STR then (v\<lparr>asked := False\<rparr>, [(MSG_CLIENT_DECLINE_CONNECTION, [])])
         else (v, []))
      else (v, user_command t))"

definition hear :: "view \<Rightarrow> request \<Rightarrow> view" where
  "hear v m =
     (case m of (ty, t) \<Rightarrow>
        (case ty of
           MSG_CONNECTION_REQ_RX \<Rightarrow> v\<lparr>asked := True\<rparr>
         | MSG_CLIENT_ACCEPT_CONNECTION_ACK \<Rightarrow> \<lparr>talking = True, asked = False, partner = t\<rparr>
         | MSG_CLIENT_CHAT_READY \<Rightarrow> v\<lparr>talking := True, partner := t\<rparr>
         | MSG_CLIENT_NO_MORE_FREE \<Rightarrow> quiet
         | MSG_CLIENT_TERMINATION \<Rightarrow> quiet
         | MSG_CLIENT_DISCONNECTED \<Rightarrow> quiet
         | _ \<Rightarrow> v))"

section \<open>Well-formed clients\<close>

text \<open>
  The application has set its parameters, and the array for the partner's name holds a text.
  \<open>online\<close>: and it has a socket.
\<close>

definition wf_client :: "client \<Rightarrow> bool" where
  "wf_client c \<longleftrightarrow> check_lib_params c = CLIENT_SUCCESS \<and>
     length (connected_client_name c) = MAX_CLIENT_NAME_LEN \<and> terminated (connected_client_name c)"

definition online :: "client \<Rightarrow> bool" where
  "online c \<longleftrightarrow> wf_client c \<and> sock c \<noteq> INVALID_FD"

lemma params_ok:
  assumes "wf_client c"
  shows "through has_client_shut_down_flag c = Some ()" "through has_server_shut_down_flag c = Some ()"
    "through has_busy_in_chat c = Some ()" "through has_connected_client_name c = Some ()"
    "\<exists>p. cb_parameters c = Some p \<and> has_msg_handle_cb p \<and> has_client_shut_down_flag p"
  using assms
  by (auto simp: wf_client_def check_lib_params_def through_def split: option.splits if_splits)

lemma check_lib_params_cong:
  "cb_parameters c = cb_parameters d \<Longrightarrow> check_lib_params c = check_lib_params d"
  by (simp add: check_lib_params_def)

lemma wf_client_cong:
  "cb_parameters c = cb_parameters d \<Longrightarrow> connected_client_name c = connected_client_name d \<Longrightarrow>
     wf_client c = wf_client d"
  using check_lib_params_cong [of c d] by (simp add: wf_client_def)

text \<open>Updates that leave the parameters and the name alone.\<close>

lemma wf_client_updates [simp]:
  "wf_client (c\<lparr>outbox := ms\<rparr>) = wf_client c" "wf_client (c\<lparr>terminal := ts\<rparr>) = wf_client c"
  "wf_client (c\<lparr>overread := n\<rparr>) = wf_client c" "wf_client (c\<lparr>busy_in_chat := x\<rparr>) = wf_client c"
  "wf_client (c\<lparr>conn_request_rx := x\<rparr>) = wf_client c" "wf_client (c\<lparr>sock := f\<rparr>) = wf_client c"
  "wf_client (c\<lparr>client_shut_down_flag := x\<rparr>) = wf_client c"
  "wf_client (c\<lparr>server_shut_down_flag := x\<rparr>) = wf_client c" "wf_client (puts s c) = wf_client c"
  by (auto intro!: wf_client_cong simp: puts_def)

lemma online_updates [simp]:
  "online (c\<lparr>outbox := ms\<rparr>) = online c" "online (c\<lparr>terminal := ts\<rparr>) = online c"
  "online (c\<lparr>overread := n\<rparr>) = online c" "online (c\<lparr>busy_in_chat := x\<rparr>) = online c"
  "online (c\<lparr>conn_request_rx := x\<rparr>) = online c"
  "online (c\<lparr>client_shut_down_flag := x\<rparr>) = online c"
  "online (c\<lparr>server_shut_down_flag := x\<rparr>) = online c" "online (puts s c) = online c"
  by (simp_all add: online_def) (simp add: puts_def)

lemma puts_simps [simp]:
  "outbox (puts s c) = outbox c" "abs_client (puts s c) = abs_client c" "sock (puts s c) = sock c"
  "connected_client_name (puts s c) = connected_client_name c" "overread (puts s c) = overread c"
  "cb_parameters (puts s c) = cb_parameters c" "busy_in_chat (puts s c) = busy_in_chat c"
  "conn_request_rx (puts s c) = conn_request_rx c"
  "client_shut_down_flag (puts s c) = client_shut_down_flag c"
  "server_shut_down_flag (puts s c) = server_shut_down_flag c"
  "terminal (puts s c) = terminal c @ [Printed s]"
  by (simp_all add: puts_def abs_client_def)

lemma abs_client_updates [simp]:
  "abs_client (c\<lparr>outbox := ms\<rparr>) = abs_client c" "abs_client (c\<lparr>terminal := ts\<rparr>) = abs_client c"
  "abs_client (c\<lparr>overread := n\<rparr>) = abs_client c" "abs_client (c\<lparr>sock := f\<rparr>) = abs_client c"
  "abs_client (c\<lparr>busy_in_chat := x\<rparr>) = (abs_client c)\<lparr>talking := x\<rparr>"
  "abs_client (c\<lparr>conn_request_rx := x\<rparr>) = (abs_client c)\<lparr>asked := x\<rparr>"
  "abs_client (c\<lparr>connected_client_name := b\<rparr>) = (abs_client c)\<lparr>partner := cstr b\<rparr>"
  "abs_client (c\<lparr>client_shut_down_flag := x\<rparr>) = abs_client c"
  "abs_client (c\<lparr>server_shut_down_flag := x\<rparr>) = abs_client c"
  by (simp_all add: abs_client_def)

lemma abs_client_fields [simp]:
  "talking (abs_client c) = busy_in_chat c" "asked (abs_client c) = conn_request_rx c"
  "partner (abs_client c) = cstr (connected_client_name c)"
  by (simp_all add: abs_client_def)

lemma printf_s_eq: "terminated b \<Longrightarrow> printf_s pre b post c = Some (puts (pre @ cstr b @ post) c)"
  by (simp add: printf_s_def strlen_eq)

lemma set_busy_eq: "wf_client c \<Longrightarrow> set_busy x c = Some (c\<lparr>busy_in_chat := x\<rparr>)"
  by (simp add: set_busy_def params_ok)

lemma set_connected_name_eq:
  assumes "wf_client c" and "terminated b" and "length (cstr b) < MAX_CLIENT_NAME_LEN"
  shows "\<exists>nm. set_connected_name b c = Some (c\<lparr>connected_client_name := nm\<rparr>) \<and>
     length nm = MAX_CLIENT_NAME_LEN \<and> terminated nm \<and> cstr nm = cstr b"
proof -
  have "length (connected_client_name c) = MAX_CLIENT_NAME_LEN" using assms(1) by (simp add: wf_client_def)
  then show ?thesis
    using strcpy_ok [OF assms(2), of "connected_client_name c"] assms(3) params_ok(4) [OF assms(1)]
    by (auto simp: set_connected_name_def)
qed

lemma wf_client_name:
  "wf_client c \<Longrightarrow> length nm = MAX_CLIENT_NAME_LEN \<Longrightarrow> terminated nm \<Longrightarrow> wf_client (c\<lparr>connected_client_name := nm\<rparr>)"
  using check_lib_params_cong [of "c\<lparr>connected_client_name := nm\<rparr>" c] by (simp add: wf_client_def)

lemma send_online:
  "online c \<Longrightarrow> snd (send_msg_to_server ret m c) = c\<lparr>outbox := outbox c @ [m]\<rparr>"
  by (simp add: send_msg_to_server_def online_def Let_def)

lemma undef_text [simp]: "NUL \<notin> set UNDEF_NAME" "length UNDEF_NAME = 16" "terminated (lit s)"
  "cstr (lit UNDEF_NAME) = UNDEF_NAME"
  by (simp_all add: UNDEF_NAME_def lit_def)

end
