(* ===== verification/Client_Lines.thy ===== *)
theory Client_Lines
  imports Client_Spec
begin

text \<open>
  What a line of input does: the array the line is read into, the commands it can hold, and that
  \<^verbatim>\<open>process_send_msg\<close> implements \<open>user_line\<close>.
\<close>

section \<open>From the terminal to the line\<close>

definition chomp :: "string \<Rightarrow> string" where
  "chomp bs = (if bs \<noteq> [] \<and> last bs = NEWLINE then butlast bs else bs)"

text \<open>The line the bytes hold: up to a NUL, without the newline, without blanks at the front.\<close>

definition line_text :: "string \<Rightarrow> string" where
  "line_text bs = dropWhile is_blank (cstr (chomp bs))"

lemma chomp_terminated: "cstr (chomp bs @ NUL # r) = cstr (chomp bs)"
  by (cases "terminated (chomp bs)") (simp_all add: terminated_def cstr_append_text)

lemma input_line_eq:
  assumes "bs \<noteq> []" and "length bs < MAX_MSG_LEN" and "length junk = MAX_MSG_LEN"
  shows "\<exists>b. input_line junk bs = Some b \<and> length b = MAX_MSG_LEN \<and> terminated b \<and>
     cstr b = line_text bs"
proof -
  obtain us u where bs: "bs = us @ [u]" using assms(1) by (metis rev_exhaust)
  let ?b1 = "bs @ NUL # drop (Suc (length bs)) junk"
  have s1: "store_byte (bs @ drop (length bs) junk) (length bs) NUL = Some ?b1"
    using assms by (simp add: store_byte_def list_update_append Cons_nth_drop_Suc [symmetric])
  define b2 where "b2 = (if u = NEWLINE then us @ NUL # NUL # drop (Suc (length bs)) junk else ?b1)"
  have len2: "length b2 = MAX_MSG_LEN" using assms(2,3) bs by (simp add: b2_def)
  have at: "?b1 ! (length bs - 1) = u" by (simp add: bs nth_append)
  have b2: "(if u = NEWLINE then store_byte ?b1 (length bs - 1) NUL else Some ?b1) = Some b2"
    by (simp add: b2_def store_byte_def bs list_update_append)
  have "\<exists>r. b2 = chomp bs @ NUL # r" by (cases "u = NEWLINE") (simp_all add: b2_def bs chomp_def)
  then obtain r where r: "b2 = chomp bs @ NUL # r" ..
  then have c: "cstr b2 = cstr (chomp bs)" and t: "terminated b2" by (simp_all add: chomp_terminated)
  from t obtain r' where "b2 = cstr (chomp bs) @ NUL # r'" using terminated_split [of b2] c by auto
  then obtain r2 where "trim_front b2 = Some (line_text bs @ NUL # r2)"
    "length (line_text bs @ NUL # r2) = MAX_MSG_LEN"
    using trim_front_eq [of "cstr (chomp bs)" r'] len2 by (auto simp: line_text_def)
  moreover have "NUL \<notin> set (line_text bs)"
    using cstr_no_NUL [of "chomp bs"] by (auto simp: line_text_def dest: set_dropWhileD)
  ultimately show ?thesis using s1 b2 at assms by (simp add: input_line_def cstr_append_text)
qed

text \<open>
  C21: The bytes one read of the terminal delivers, at most 511 of them, always become a text inside
  the 512-byte array: every access of the newline and trimming code is in bounds, and the text is
  the bytes before a NUL without the newline at the end and without blanks at the front.
\<close>

theorem terminal_input_in_bounds:
  assumes "bs \<noteq> []" and "length bs \<le> 511" and "length junk = MAX_MSG_LEN"
  shows "\<exists>b. input_line junk bs = Some b \<and> length b = MAX_MSG_LEN \<and> terminated b \<and>
     cstr b = dropWhile is_blank (cstr (chomp bs))"
  using input_line_eq [of bs junk] assms by (simp add: line_text_def)

theorem terminal_input_in_bounds_witness:
  "\<exists>b. input_line (replicate MAX_MSG_LEN (CHR ''?'')) (SPACE # TAB # ''help'' @ [NEWLINE]) = Some b \<and>
     cstr b = ''help''"
proof -
  let ?bs = "SPACE # TAB # ''help'' @ [NEWLINE]"
  have "dropWhile is_blank (cstr (chomp ?bs)) = ''help''" by (simp add: chomp_def is_blank_def)
  moreover have "?bs \<noteq> []" "length ?bs \<le> 511" by simp_all
  ultimately show ?thesis
    using terminal_input_in_bounds [of ?bs "replicate MAX_MSG_LEN (CHR ''?'')"] by auto
qed

section \<open>From the line to the command\<close>

text \<open>
  C22: Command recognition, a loop over the table with two kinds of comparison, is equivalent to
  a decision on the text of the line alone: \<open>connect\<close> and \<open>set_name\<close> are recognised by the front of the
  line, whatever follows it, every other command only as the whole line, and the order of the
  table does not matter.
\<close>

theorem command_lookup_equivalent:
  assumes "terminated b"
  shows "get_cmd_id_by_name (Some b) = Some (parse_cmd (cstr b)) \<and>
     (parse_cmd (cstr b) = CMD_TYPE_CONNECT \<longleftrightarrow> (\<exists>t. cstr b = CONNECT_CMD @ t)) \<and>
     (parse_cmd (cstr b) = CMD_TYPE_SET_NAME \<longleftrightarrow> (\<exists>t. cstr b = SET_NAME_CMD @ t)) \<and>
     (parse_cmd (cstr b) = CMD_TYPE_DISCONNECT \<longleftrightarrow> cstr b = DISCONNECT_CMD) \<and>
     (parse_cmd (cstr b) = CMD_TYPE_GET_LIST \<longleftrightarrow> cstr b = GET_LIST_CMD)"
proof -
  have front: "begins_with s t \<longleftrightarrow> (\<exists>t'. t = s @ t')" for s t
    unfolding begins_with_def by (metis append_eq_conv_conj)
  have "parse_cmd (cstr b) = CMD_TYPE_CONNECT \<longleftrightarrow> (\<exists>t. cstr b = CONNECT_CMD @ t)"
    by (simp add: parse_cmd_def front)
  moreover have "parse_cmd (cstr b) = CMD_TYPE_SET_NAME \<longleftrightarrow> (\<exists>t. cstr b = SET_NAME_CMD @ t)"
    by (auto simp: parse_cmd_def front cmd_words)
  moreover have "parse_cmd (cstr b) = CMD_TYPE_DISCONNECT \<longleftrightarrow> cstr b = DISCONNECT_CMD"
    "parse_cmd (cstr b) = CMD_TYPE_GET_LIST \<longleftrightarrow> cstr b = GET_LIST_CMD"
    by (auto simp: parse_cmd_def begins_with_def cmd_words)
  ultimately show ?thesis using get_cmd_eq [OF assms] by simp
qed

theorem command_lookup_equivalent_witness:
  "get_cmd_id_by_name (Some (lit ''connections bob'')) = Some CMD_TYPE_CONNECT"
  using command_lookup_equivalent [of "lit ''connections bob''"]
  by (simp add: lit_def CONNECT_CMD_def)

section \<open>One line\<close>

text \<open>
  \<open>obeys c t c'\<close>: from \<open>c\<close> the client has come to \<open>c'\<close> as \<open>user_line\<close> says for the line \<open>t\<close>, and the
  messages it has sent are those of \<open>user_line\<close>, each with its text ending inside it.
\<close>

definition obeys :: "client \<Rightarrow> string \<Rightarrow> client \<Rightarrow> bool" where
  "obeys c t c' \<longleftrightarrow> online c' \<and> abs_client c' = fst (user_line (abs_client c) t) \<and>
     (\<exists>ms. outbox c' = outbox c @ ms \<and> list_all fine_msg ms \<and>
           map abs_request ms = snd (user_line (abs_client c) t))"

lemma obeysI:
  assumes "user_line (abs_client c) t = (abs_client c', map abs_request ms)"
    and "online c'" and "outbox c' = outbox c @ ms" and "list_all fine_msg ms"
  shows "obeys c t c'"
  using assms by (auto simp: obeys_def)

lemma abs_text_request: "NUL \<notin> set t \<Longrightarrow> abs_request (text_msg ty t) = (ty, t)"
  by (simp add: abs_request_def)

lemma abs_plain_request: "abs_request (set_type ty zero_msg) = (ty, [])"
  by (simp add: abs_request_def)

lemma fine_plain: "msg_type_code ty < 2 ^ 32 \<Longrightarrow> fine_msg (set_type ty zero_msg)"
  by (rule fine_set_type) simp_all

lemma chat_line:
  assumes "online c" and "busy_in_chat c" and "length b = MAX_MSG_LEN" and "terminated b"
  shows "\<exists>c'. handle_send_msg_to_client ret (Some b) c = Some c' \<and> obeys c (cstr b) c'"
proof -
  let ?m = "text_msg MSG_CLIENT_TX_TYPE (cstr b)"
  let ?c1 = "c\<lparr>outbox := outbox c @ [?m]\<rparr>"
  have len: "length (cstr b) < MAX_MSG_LEN" using length_cstr_less [OF assms(4)] assms(3) by simp
  have copy: "strcpy (replicate MAX_MSG_LEN NUL) b = Some (mk_buf MAX_MSG_LEN (cstr b))"
    using strcpy_zero_buf [OF assms(4) len] .
  have m: "set_buf (mk_buf MAX_MSG_LEN (cstr b)) (set_type MSG_CLIENT_TX_TYPE zero_msg) = ?m"
    by (simp add: text_msg_def)
  have fine: "fine_msg ?m" using len by (simp add: fine_text_msg)
  have req: "(MSG_CLIENT_TX_TYPE, cstr b) = abs_request ?m" by (simp add: abs_text_request)
  obtain r where r: "strcmp b (lit DISCONNECT_CMD) = Some r" "r = 0 \<longleftrightarrow> cstr b = DISCONNECT_CMD"
    using strcmp_total_left [OF assms(4), of "lit DISCONNECT_CMD"]
    by (auto simp: lit_def DISCONNECT_CMD_def)
  show ?thesis
  proof (cases "r = 0")
    case False
    then have "handle_send_msg_to_client ret (Some b) c = Some ?c1"
      using copy r(1) m by (simp add: handle_send_msg_to_client_def send_online assms(1))
    moreover have "obeys c (cstr b) ?c1"
      by (rule obeysI [where ms = "[?m]"]) (use assms False r fine in \<open>simp_all add: user_line_def abs_text_request\<close>)
    ultimately show ?thesis by blast
  next
    case True
    define c2 where "c2 = (puts ''You are quittig the chat.\<newline>'' ?c1)\<lparr>busy_in_chat := False\<rparr>"
    have w2: "online c2" "wf_client c2" using assms(1) by (simp_all add: c2_def online_def)
    obtain nm where nm: "set_connected_name (lit UNDEF_NAME) c2 = Some (c2\<lparr>connected_client_name := nm\<rparr>)"
      "length nm = MAX_CLIENT_NAME_LEN" "terminated nm" "cstr nm = UNDEF_NAME"
      using set_connected_name_eq [OF w2(2), of "lit UNDEF_NAME"] by auto
    have "set_busy False (puts ''You are quittig the chat.\<newline>'' ?c1) = Some c2"
      using assms(1) by (simp add: set_busy_eq online_def c2_def)
    then have "handle_send_msg_to_client ret (Some b) c = Some (c2\<lparr>connected_client_name := nm\<rparr>)"
      using copy r(1) True m nm(1) by (simp add: handle_send_msg_to_client_def send_online assms(1))
    moreover have "obeys c (cstr b) (c2\<lparr>connected_client_name := nm\<rparr>)"
      by (rule obeysI [where ms = "[?m]"])
        (use assms True r(2) fine req nm w2 in \<open>auto simp: user_line_def abs_text_request c2_def
          online_def wf_client_name\<close>)
    ultimately show ?thesis by blast
  qed
qed

lemma set_my_name_eq:
  assumes "online c" and "terminated nm" and "length (cstr nm) < MAX_MSG_LEN"
  shows "\<exists>m. set_my_name ret (Some nm) c = Some (c\<lparr>outbox := outbox c @ [m]\<rparr>) \<and>
     fine_msg m \<and> abs_request m = (MSG_SET_NAME_REQ_TYPE, cstr nm)"
proof -
  let ?m = "set_type MSG_SET_NAME_REQ_TYPE (set_buf (mk_buf MAX_MSG_LEN (cstr nm))
      (zero_msg\<lparr>to_client_id := of_nat (msg_type_code MSG_SERVER)\<rparr>))"
  have buf: "msg_buf ?m = mk_buf MAX_MSG_LEN (cstr nm)" "msg_type ?m = MSG_SET_NAME_REQ_TYPE"
    by simp_all
  have "set_my_name ret (Some nm) c = Some (c\<lparr>outbox := outbox c @ [?m]\<rparr>)"
    using strcpy_zero_buf [OF assms(2,3)] by (simp add: set_my_name_def send_online assms(1))
  moreover have "fine_msg ?m" "abs_request ?m = (MSG_SET_NAME_REQ_TYPE, cstr nm)"
    using assms(3) unfolding fine_msg_def wf_msg_def abs_request_def buf by simp_all
  ultimately show ?thesis by blast
qed

text \<open>
  The message of a connection request carries the 512 bytes from the name on: the name, the rest
  of the line behind it, and then what lies behind the array.
\<close>

lemma connect_with_client_eq:
  assumes "online c" and "terminated nm" and "length nm \<le> MAX_MSG_LEN"
    and "MAX_MSG_LEN \<le> length nm + length behind"
  shows "connect_with_client ret behind (Some nm) c =
     Some (puts (''Connection request to '' @ cstr nm @ '' send.\<newline>'')
       (c\<lparr>overread := overread c + (MAX_MSG_LEN - length nm),
          outbox := outbox c @ [set_buf (nm @ take (MAX_MSG_LEN - length nm) behind)
            (set_type MSG_CONNECT_TO_CLIENT zero_msg)]\<rparr>))"
proof -
  have "memcpy (replicate MAX_MSG_LEN NUL) (nm @ behind) MAX_MSG_LEN =
      Some (nm @ take (MAX_MSG_LEN - length nm) behind)"
    using assms(3,4) by (simp add: memcpy_def)
  then show ?thesis
    using assms(1,2) by (simp add: connect_with_client_def send_online printf_s_eq)
qed

lemma fine_connect:
  assumes "terminated nm" and "length nm \<le> MAX_MSG_LEN" and "MAX_MSG_LEN \<le> length nm + length behind"
  shows "fine_msg (set_buf (nm @ take (MAX_MSG_LEN - length nm) behind) (set_type MSG_CONNECT_TO_CLIENT zero_msg))"
    "abs_request (set_buf (nm @ take (MAX_MSG_LEN - length nm) behind) (set_type MSG_CONNECT_TO_CLIENT zero_msg))
      = (MSG_CONNECT_TO_CLIENT, cstr nm)"
  using assms by (simp_all add: fine_msg_def wf_msg_def abs_request_def)

text \<open>The word behind the command, as \<^verbatim>\<open>strtok\<close> leaves it.\<close>

lemma second_word:
  assumes "length b = MAX_MSG_LEN" and "terminated b"
  shows "\<exists>b2. second_token b = Some (b2,
       if argument (cstr b) = [] then None else Some (length (cstr b) - length (after_command (cstr b)))) \<and>
     length b2 = MAX_MSG_LEN \<and>
     (argument (cstr b) \<noteq> [] \<longrightarrow>
        terminated (drop (length (cstr b) - length (after_command (cstr b))) b2) \<and>
        cstr (drop (length (cstr b) - length (after_command (cstr b))) b2) = argument (cstr b))"
proof -
  obtain r where r: "b = cstr b @ NUL # r" using terminated_split [OF assms(2)] ..
  have "length (cstr b @ NUL # r) = MAX_MSG_LEN" using r assms(1) by metis
  then show ?thesis
    using second_token_eq [of "cstr b" r] r by auto
qed

lemma argument_offset:
  assumes "begins_with w t" and "w \<noteq> []" and "SPACE \<notin> set w" and "argument t \<noteq> []"
  shows "length w < length t - length (after_command t)"
proof -
  define t' where "t' = drop (length w) t"
  have t: "t = w @ t'" using assms(1) unfolding begins_with_def t'_def by (metis append_take_drop_id)
  have "hd w \<noteq> SPACE" using assms(2,3) by (metis hd_in_set)
  then have "dropWhile (\<lambda>c. c = SPACE) t = t" using assms(2) t by (cases w) auto
  moreover have "dropWhile (\<lambda>c. c \<noteq> SPACE) t = dropWhile (\<lambda>c. c \<noteq> SPACE) t'"
    unfolding t using assms(3) by (intro dropWhile_append2) auto
  ultimately have a: "after_command t = dropWhile (\<lambda>c. c = SPACE) (dropWhile (\<lambda>c. c \<noteq> SPACE) t')"
    by (simp add: after_command_def)
  obtain x xs where x: "dropWhile (\<lambda>c. c \<noteq> SPACE) t' = x # xs"
    using a assms(4) by (cases "dropWhile (\<lambda>c. c \<noteq> SPACE) t'") (auto simp: argument_def)
  then have "x = SPACE" by (metis (mono_tags) hd_dropWhile list.distinct(1) list.sel(1))
  then have "length (after_command t) \<le> length xs" using a x by (simp add: length_dropWhile_le)
  also have "\<dots> < length t'" using length_dropWhile_le [of "\<lambda>c. c \<noteq> SPACE" t'] x by simp
  finally show ?thesis using t by simp
qed

lemma process_command_eq:
  assumes "online c" and "\<not> busy_in_chat c" and "\<not> conn_request_rx c"
    and "length b = MAX_MSG_LEN" and "terminated b" and "MAX_MSG_LEN \<le> length behind"
  shows "\<exists>c'. process_command ret behind b c = Some c' \<and> obeys c (cstr b) c'"
proof -
  let ?t = "cstr b" and ?j = "length (cstr b) - length (after_command (cstr b))"
  have line: "user_line (abs_client c) ?t = (abs_client c, user_command ?t)"
    using assms(2,3) by (simp add: user_line_def)
  have silent: "obeys c ?t c'"
    if "user_command ?t = []" "online c'" "abs_client c' = abs_client c" "outbox c' = outbox c" for c'
    by (rule obeysI [where ms = "[]"]) (use that line in simp_all)
  have loud: "obeys c ?t c'"
    if "user_command ?t = [abs_request m]" "online c'" "abs_client c' = abs_client c"
      "outbox c' = outbox c @ [m]" "fine_msg m" for c' m
    by (rule obeysI [where ms = "[m]"]) (use that line in simp_all)
  obtain b2 where b2: "second_token b = Some (b2, if argument ?t = [] then None else Some ?j)"
    and l2: "length b2 = MAX_MSG_LEN"
    and a2: "argument ?t \<noteq> [] \<Longrightarrow> terminated (drop ?j b2) \<and> cstr (drop ?j b2) = argument ?t"
    using second_word [OF assms(4,5)] by blast
  have lenarg: "length (argument ?t) < MAX_MSG_LEN" if "argument ?t \<noteq> []"
    using a2 [OF that] length_cstr_less [of "drop ?j b2"] l2 by auto
  note pc = process_command_def get_cmd_eq [OF assms(5)]
  show ?thesis
  proof (cases "parse_cmd ?t")
    case CMD_TYPE_GET_LIST
    then show ?thesis
      using assms(1) by (intro exI [of _ "request_client_list ret c"])
        (simp add: pc request_client_list_def send_online loud [of "set_type MSG_GET_CLIENT_LIST_TYPE zero_msg"]
          user_command_def abs_plain_request fine_plain)
  next
    case CMD_TYPE_CONNECT
    show ?thesis
    proof (cases "argument ?t = []")
      case True
      with CMD_TYPE_CONNECT assms(1) b2 show ?thesis by (simp add: pc silent user_command_def)
    next
      case False
      from a2 [OF False] have t: "terminated (drop ?j b2)" and e: "cstr (drop ?j b2) = argument ?t"
        by simp_all
      have le: "length (drop ?j b2) \<le> MAX_MSG_LEN" using l2 by simp
      have room: "MAX_MSG_LEN \<le> length (drop ?j b2) + length behind" using assms(6) by simp
      note fine = fine_connect [OF t le room]
      from CMD_TYPE_CONNECT False b2 connect_with_client_eq [OF assms(1) t le room] fine e assms(1)
      show ?thesis by (auto simp: pc user_command_def intro!: loud)
    qed
  next
    case CMD_TYPE_SET_NAME
    show ?thesis
    proof (cases "argument ?t = []")
      case True
      with CMD_TYPE_SET_NAME assms(1) b2 show ?thesis by (simp add: pc silent user_command_def)
    next
      case False
      from a2 [OF False] have t: "terminated (drop ?j b2)" and e: "cstr (drop ?j b2) = argument ?t"
        by simp_all
      obtain m where "set_my_name ret (Some (drop ?j b2)) c = Some (c\<lparr>outbox := outbox c @ [m]\<rparr>)"
        "fine_msg m" "abs_request m = (MSG_SET_NAME_REQ_TYPE, argument ?t)"
        using set_my_name_eq [OF assms(1) t] lenarg [OF False] e by auto
      with CMD_TYPE_SET_NAME False b2 assms(1) show ?thesis
        by (auto simp: pc user_command_def intro!: loud)
    qed
  next
    case CMD_TYPE_DISCONNECT
    then show ?thesis using assms(1) by (simp add: pc silent user_command_def)
  next
    case CMD_TYPE_PRINT_HELP
    then show ?thesis using assms(1) by (simp add: pc silent user_command_def show_help_def)
  next
    case CMD_TYPE_CLEAR_SCREEN
    then show ?thesis using assms(1) by (simp add: pc silent user_command_def show_help_def)
  next
    case CMD_TYPE_MAX_CMD
    then show ?thesis using assms(1,5) by (simp add: pc silent user_command_def printf_s_eq)
  qed
qed

text \<open>While a request is open.\<close>

lemma answer_line:
  assumes "online c" and "\<not> busy_in_chat c" and "conn_request_rx c"
    and "length b = MAX_MSG_LEN" and "terminated b"
  shows "\<exists>c'. process_send_msg ret behind (Some b) c = Some c' \<and> obeys c (cstr b) c'"
proof -
  obtain r where r: "strcmp b (lit REQ_ACCEPT_STR) = Some r" "r = 0 \<longleftrightarrow> cstr b = REQ_ACCEPT_STR"
    using strcmp_total_left [OF assms(5), of "lit REQ_ACCEPT_STR"]
    by (auto simp: lit_def REQ_ACCEPT_STR_def)
  obtain r' where r': "strcmp b (lit REQ_DECLINE_STR) = Some r'" "r' = 0 \<longleftrightarrow> cstr b = REQ_DECLINE_STR"
    using strcmp_total_left [OF assms(5), of "lit REQ_DECLINE_STR"]
    by (auto simp: lit_def REQ_DECLINE_STR_def)
  have reply: "obeys c (cstr b) (c\<lparr>conn_request_rx := False, outbox := outbox c @ [set_type ty zero_msg]\<rparr>)"
    if "user_line (abs_client c) (cstr b) = ((abs_client c)\<lparr>asked := False\<rparr>, [(ty, [])])"
      "msg_type_code ty < 2 ^ 32" for ty
    by (rule obeysI [where ms = "[set_type ty zero_msg]"])
      (use that assms(1) in \<open>simp_all add: abs_plain_request fine_plain\<close>)
  have words: "REQ_ACCEPT_STR \<noteq> REQ_DECLINE_STR" by (simp add: REQ_ACCEPT_STR_def REQ_DECLINE_STR_def)
  have ps: "process_send_msg ret behind (Some b) c = (if r = 0 then
        Some (c\<lparr>conn_request_rx := False, outbox := outbox c @ [set_type MSG_CLIENT_ACCEPT_CONNECTION zero_msg]\<rparr>)
      else if r' = 0 then
        Some (c\<lparr>conn_request_rx := False, outbox := outbox c @ [set_type MSG_CLIENT_DECLINE_CONNECTION zero_msg]\<rparr>)
      else Some (puts (''Please enter '' @ [CHR 0x22] @ ''yes'' @ [CHR 0x22] @ '' or '' @
        [CHR 0x22] @ ''no'' @ [CHR 0x22] @ '' to accept or decline connection request.\<newline>'') c))"
    using assms(1-3) r(1) r'(1)
    by (simp add: process_send_msg_def params_ok online_def) (simp add: send_online online_def)
  have other: "obeys c (cstr b) (puts s c)" if "r \<noteq> 0" "r' \<noteq> 0" for s
    by (rule obeysI [where ms = "[]"]) (use that assms r r' in \<open>simp_all add: user_line_def\<close>)
  show ?thesis
    unfolding ps using reply [of MSG_CLIENT_ACCEPT_CONNECTION] reply [of MSG_CLIENT_DECLINE_CONNECTION]
      other r(2) r'(2) assms(2,3) words by (auto simp: user_line_def)
qed

lemma line_obeys:
  assumes "online c" and "length b = MAX_MSG_LEN" and "terminated b" and "MAX_MSG_LEN \<le> length behind"
  shows "\<exists>c'. process_send_msg ret behind (Some b) c = Some c' \<and> obeys c (cstr b) c'"
proof -
  have has: "through has_busy_in_chat c = Some ()" using assms(1) by (simp add: params_ok online_def)
  consider (chat) "busy_in_chat c" | (answer) "\<not> busy_in_chat c" "conn_request_rx c"
    | (cmd) "\<not> busy_in_chat c" "\<not> conn_request_rx c" by blast
  then show ?thesis
  proof cases
    case chat
    with chat_line [OF assms(1) chat assms(2,3), of ret] has show ?thesis
      by (simp add: process_send_msg_def)
  next
    case answer
    then show ?thesis using answer_line [OF assms(1) answer assms(2,3)] by blast
  next
    case cmd
    with process_command_eq [OF assms(1) cmd assms(2-4), of ret] has show ?thesis
      by (simp add: process_send_msg_def)
  qed
qed

section \<open>Properties\<close>

text \<open>A client after its connection has been set up, and arrays that hold a line.\<close>

definition example_client :: client where
  "example_client = init_client\<lparr>sock := 3, cb_parameters := Some params_send_to_lib\<rparr>"

lemma online_example: "online example_client"
  by (simp add: online_def wf_client_def example_client_def init_client_def check_lib_params_def
      params_send_to_lib_def)

definition example_line :: "string \<Rightarrow> char list" where
  "example_line t = mk_buf MAX_MSG_LEN t"

text \<open>
  C23: A line of input implements the user's intention: for every line, the client changes the
  user's view of the chat (talking or not, asked or not, the partner's name) and sends messages
  exactly as \<open>user_line\<close> says, whatever \<^verbatim>\<open>send\<close> answers, and without undefined behaviour
  as long as there are 512 readable bytes behind the array of the line. Every message it sends ends
  its text inside the message.
\<close>

theorem line_implements_user_line:
  assumes "online c" and "length b = MAX_MSG_LEN" and "terminated b" and "MAX_MSG_LEN \<le> length behind"
  shows "\<exists>c' ms. process_send_msg ret behind (Some b) c = Some c' \<and> online c' \<and>
     outbox c' = outbox c @ ms \<and> list_all fine_msg ms \<and>
     (abs_client c', map abs_request ms) = user_line (abs_client c) (cstr b)"
  using line_obeys [OF assms, of ret] by (auto simp: obeys_def)

theorem line_implements_user_line_witness:
  "\<exists>c' m. process_send_msg 520 (replicate MAX_MSG_LEN (CHR ''?'')) (Some (example_line ''connect bob'')) example_client
       = Some c' \<and> outbox c' = [m] \<and> fine_msg m \<and> abs_request m = (MSG_CONNECT_TO_CLIENT, ''bob'')"
proof -
  let ?b = "example_line ''connect bob''" and ?k = "replicate MAX_MSG_LEN (CHR ''?'')"
  have b: "length ?b = MAX_MSG_LEN" "terminated ?b" "cstr ?b = ''connect bob''"
    "MAX_MSG_LEN \<le> length ?k" by (simp_all add: example_line_def)
  have l: "user_line (abs_client example_client) ''connect bob'' =
      (abs_client example_client, [(MSG_CONNECT_TO_CLIENT, ''bob'')])"
    by (simp add: user_line_def user_command_def example_client_def init_client_def parse_cmd_def
        begins_with_def cmd_words argument_def after_command_def)
  have o: "outbox example_client = []" by (simp add: example_client_def init_client_def)
  show ?thesis
    using line_implements_user_line [OF online_example b(1,2,4), of 520] unfolding b(3) l o
    by auto
qed

text \<open>
  C24: In a chat a client sends only chat messages: it never asks for another connection and
  never accepts one, and outside a chat it accepts or declines only what it was asked. Together with
  the agreement of the client's view with the server's record (C33), this is the courtesy that
  C3 needs of the clients.
\<close>

theorem client_sends_by_state:
  assumes "online c" and "length b = MAX_MSG_LEN" and "terminated b" and "MAX_MSG_LEN \<le> length behind"
  shows "\<exists>c' ms. process_send_msg ret behind (Some b) c = Some c' \<and> outbox c' = outbox c @ ms \<and>
     length ms \<le> 1 \<and>
     list_all (\<lambda>m. (msg_type m = MSG_CLIENT_TX_TYPE \<longleftrightarrow> busy_in_chat c) \<and>
       (msg_type m \<in> {MSG_CLIENT_ACCEPT_CONNECTION, MSG_CLIENT_DECLINE_CONNECTION} \<longleftrightarrow>
          \<not> busy_in_chat c \<and> conn_request_rx c)) ms"
proof -
  obtain c' ms where p: "process_send_msg ret behind (Some b) c = Some c'" "outbox c' = outbox c @ ms"
    and r: "map abs_request ms = snd (user_line (abs_client c) (cstr b))"
    using line_obeys [OF assms, of ret] by (auto simp: obeys_def)
  let ?t = "map msg_type ms"
  have "?t = map fst (map abs_request ms)" by (simp add: abs_request_def)
  then have t: "?t = map fst (snd (user_line (abs_client c) (cstr b)))" by (simp only: r)
  have one: "length ?t \<le> 1" unfolding t
    by (auto simp: user_line_def user_command_def split: cmd_type_t.split)
  have "list_all (\<lambda>ty. (ty = MSG_CLIENT_TX_TYPE \<longleftrightarrow> busy_in_chat c) \<and>
      (ty \<in> {MSG_CLIENT_ACCEPT_CONNECTION, MSG_CLIENT_DECLINE_CONNECTION} \<longleftrightarrow>
        \<not> busy_in_chat c \<and> conn_request_rx c)) ?t"
    unfolding t by (auto simp: user_line_def user_command_def split: cmd_type_t.split)
  then show ?thesis using p one by (auto simp: list_all_iff)
qed

theorem client_sends_by_state_witness:
  "\<exists>c' ms. process_send_msg 520 (replicate MAX_MSG_LEN NUL) (Some (example_line ''yes''))
       (example_client\<lparr>busy_in_chat := True, conn_request_rx := True\<rparr>) = Some c' \<and> outbox c' = ms \<and>
     length ms \<le> 1 \<and> list_all (\<lambda>m. msg_type m = MSG_CLIENT_TX_TYPE) ms"
proof -
  let ?c = "example_client\<lparr>busy_in_chat := True, conn_request_rx := True\<rparr>" and ?b = "example_line ''yes''"
  have "online ?c" "length ?b = MAX_MSG_LEN" "terminated ?b" "MAX_MSG_LEN \<le> length (replicate MAX_MSG_LEN NUL)"
    by (simp_all add: online_example example_line_def)
  from client_sends_by_state [OF this, of 520]
  show ?thesis by (auto simp: list_all_iff example_client_def init_client_def)
qed

text \<open>
  C25: A connection request reads past the array of the line and sends what it finds there: for
  every \<open>connect\<close> with a name, the last bytes of the message are bytes from behind the array, as
  many as the name is away from the front of the line, which is at least eight. If fewer are
  readable, the copy is undefined behaviour.
\<close>

theorem connect_sends_bytes_behind_line:
  assumes "online c" and "\<not> busy_in_chat c" and "\<not> conn_request_rx c"
    and "length b = MAX_MSG_LEN" and "terminated b"
    and "parse_cmd (cstr b) = CMD_TYPE_CONNECT" and "argument (cstr b) \<noteq> []"
    and "j = length (cstr b) - length (after_command (cstr b))"
  shows "8 \<le> j \<and>
     (if length behind < j then process_send_msg ret behind (Some b) c = None
      else \<exists>c' m. process_send_msg ret behind (Some b) c = Some c' \<and> overread c' = overread c + j \<and>
             outbox c' = outbox c @ [m] \<and> msg_type m = MSG_CONNECT_TO_CLIENT \<and>
             drop (MAX_MSG_LEN - j) (msg_buf m) = take j behind)"
proof -
  let ?t = "cstr b"
  have "begins_with CONNECT_CMD ?t" using assms(6) by (auto simp: parse_cmd_def split: if_splits)
  then have "length CONNECT_CMD < j"
    unfolding assms(8) using assms(7) by (intro argument_offset) (simp_all add: CONNECT_CMD_def)
  then have j8: "8 \<le> j" by (simp add: CONNECT_CMD_def)
  have j512: "j \<le> MAX_MSG_LEN" using assms(4,8) length_cstr_le [of b] by simp
  obtain b2 where b2: "second_token b = Some (b2, Some j)" "length b2 = MAX_MSG_LEN"
    and nm: "terminated (drop j b2)"
    using second_word [OF assms(4,5)] assms(7,8) by auto
  have len: "length (drop j b2) = MAX_MSG_LEN - j" using b2(2) by simp
  have run: "process_send_msg ret behind (Some b) c = connect_with_client ret behind (Some (drop j b2)) c"
    using assms(1-3,6) b2(1)
    by (simp add: process_send_msg_def process_command_def get_cmd_eq [OF assms(5)] params_ok online_def)
  show ?thesis
  proof (cases "length behind < j")
    case True
    then have "\<not> MAX_MSG_LEN \<le> length (drop j b2 @ behind)" unfolding length_append len using j512 by linarith
    then have "memcpy (msg_buf zero_msg) (drop j b2 @ behind) MAX_MSG_LEN = None" by (simp only: memcpy_def simp_thms if_False)
    then have "connect_with_client ret behind (Some (drop j b2)) c = None"
      by (simp only: connect_with_client_def option.case Option.bind.simps)
    with True j8 run show ?thesis by simp
  next
    case False
    then have "connect_with_client ret behind (Some (drop j b2)) c =
        Some (puts (''Connection request to '' @ cstr (drop j b2) @ '' send.\<newline>'')
          (c\<lparr>overread := overread c + j, outbox := outbox c @ [set_buf (drop j b2 @ take j behind)
            (set_type MSG_CONNECT_TO_CLIENT zero_msg)]\<rparr>))"
      using connect_with_client_eq [OF assms(1) nm, of behind ret] j512 len by simp
    with False j8 run len show ?thesis by simp
  qed
qed

theorem connect_sends_bytes_behind_line_witness:
  "\<exists>c' m. process_send_msg 520 (''topsecret'' @ replicate MAX_MSG_LEN NUL) (Some (example_line ''connect bob''))
       example_client = Some c' \<and> outbox c' = [m] \<and> drop (MAX_MSG_LEN - 8) (msg_buf m) = ''topsecre''"
proof -
  let ?b = "example_line ''connect bob''" and ?k = "''topsecret'' @ replicate MAX_MSG_LEN NUL"
  have b: "length ?b = MAX_MSG_LEN" "terminated ?b" "cstr ?b = ''connect bob''"
    by (simp_all add: example_line_def)
  have "\<not> busy_in_chat example_client" "\<not> conn_request_rx example_client" and o: "outbox example_client = []"
    by (simp_all add: example_client_def init_client_def)
  moreover have "parse_cmd (cstr ?b) = CMD_TYPE_CONNECT" "argument (cstr ?b) \<noteq> []"
    and "8 = length (cstr ?b) - length (after_command (cstr ?b))"
    unfolding b(3) by (simp_all add: parse_cmd_def begins_with_def cmd_words argument_def after_command_def)
  ultimately show ?thesis
    using connect_sends_bytes_behind_line [OF online_example _ _ b(1,2), of 8 ?k 520] by auto
qed

end
