(* ===== verification/Client_Loop.thy ===== *)
theory Client_Loop
  imports Client_Lines
begin

text \<open>
  What the client does over a whole session: received messages, rounds of the loop, and the loop,
  each as a refinement of the user's view.
\<close>

section \<open>One received message\<close>

text \<open>The types whose text the client copies into the 64-byte array of the partner's name.\<close>

definition names_partner :: "msg_type_t \<Rightarrow> bool" where
  "names_partner ty \<longleftrightarrow> ty = MSG_CLIENT_ACCEPT_CONNECTION_ACK \<or> ty = MSG_CLIENT_CHAT_READY"

text \<open>The types the client answers with a fixed text.\<close>

definition prints_no_text :: "msg_type_t \<Rightarrow> bool" where
  "prints_no_text ty \<longleftrightarrow> ty = MSG_SET_NAME_ACK_TYPE \<or> ty = MSG_SET_NAME_NACK_TYPE \<or>
     ty = MSG_CLIENT_FREE \<or> ty = MSG_ATTEMPT_TO_CONNECT_TO_SELF"

definition deliverable :: "msg_t \<Rightarrow> bool" where
  "deliverable m \<longleftrightarrow> fine_msg m \<and>
     (names_partner (msg_type m) \<longrightarrow> length (cstr (msg_buf m)) < MAX_CLIENT_NAME_LEN)"

lemma cb_Some:
  assumes "wf_client c" and "terminated (msg_buf m) \<or> prints_no_text (msg_type m)"
  shows "\<exists>ts. msg_handle_cb m c = Some (c\<lparr>terminal := terminal c @ ts\<rparr>)"
proof -
  obtain ty where ty: "msgTypeToStr (msg_type m) = Some ty"
    using msg_type_str.in_bounds [of "msg_type m"] by blast
  have nm: "terminated (connected_client_name c)" using assms(1) by (simp add: wf_client_def)
  show ?thesis
    using assms(2) nm ty
    by (cases "msg_type m")
      (auto simp: msg_handle_cb_def Let_def printf_s_eq strlen_eq prints_no_text_def puts_def)
qed

lemma cb_None:
  assumes "\<not> terminated (msg_buf m)" and "\<not> prints_no_text (msg_type m)"
  shows "msg_handle_cb m c = None"
proof -
  have p: "printf_s pre (msg_buf m) post c = None" for pre post c
    using assms(1) by (simp add: printf_s_def strlen_eq)
  show ?thesis
    using assms(2) by (cases "msg_type m") (simp_all add: msg_handle_cb_def Let_def p prints_no_text_def)
qed

lemma lib_Some:
  assumes "wf_client c" and "names_partner (msg_type m) \<Longrightarrow>
      terminated (msg_buf m) \<and> length (cstr (msg_buf m)) < MAX_CLIENT_NAME_LEN"
  shows "\<exists>b a nm. handle_rx_msg_lib m c =
       Some (c\<lparr>conn_request_rx := a, busy_in_chat := b, connected_client_name := nm\<rparr>) \<and>
     length nm = MAX_CLIENT_NAME_LEN \<and> terminated nm \<and>
     \<lparr>talking = b, asked = a, partner = cstr nm\<rparr> = hear (abs_client c) (abs_request m)"
proof -
  have w: "wf_client (c\<lparr>conn_request_rx := x\<rparr>)" "wf_client (c\<lparr>busy_in_chat := y, conn_request_rx := x\<rparr>)"
    "wf_client (c\<lparr>conn_request_rx := x, busy_in_chat := y\<rparr>)" for x y
    using assms(1) by simp_all
  note nm = set_connected_name_eq [OF w(3), of "lit UNDEF_NAME" False False]
  have keep: "c = c\<lparr>conn_request_rx := conn_request_rx c, busy_in_chat := busy_in_chat c,
        connected_client_name := connected_client_name c\<rparr>"
    "c\<lparr>conn_request_rx := x\<rparr> = c\<lparr>conn_request_rx := x, busy_in_chat := busy_in_chat c,
        connected_client_name := connected_client_name c\<rparr>" for x
    by (cases c, simp)+
  have self: "length (connected_client_name c) = MAX_CLIENT_NAME_LEN" "terminated (connected_client_name c)"
    using assms(1) by (simp_all add: wf_client_def)
  consider (ack) "msg_type m = MSG_CLIENT_ACCEPT_CONNECTION_ACK" | (ready) "msg_type m = MSG_CLIENT_CHAT_READY"
    | (reset) "msg_type m \<in> {MSG_CLIENT_NO_MORE_FREE, MSG_CLIENT_TERMINATION, MSG_CLIENT_DISCONNECTED}"
    | (req) "msg_type m = MSG_CONNECTION_REQ_RX"
    | (other) "msg_type m \<notin> {MSG_CLIENT_ACCEPT_CONNECTION_ACK, MSG_CLIENT_CHAT_READY, MSG_CLIENT_NO_MORE_FREE,
        MSG_CLIENT_TERMINATION, MSG_CLIENT_DISCONNECTED, MSG_CONNECTION_REQ_RX}"
    by blast
  then show ?thesis
  proof cases
    case ack
    with assms(2) have m: "terminated (msg_buf m)" "length (cstr (msg_buf m)) < MAX_CLIENT_NAME_LEN"
      by (simp_all add: names_partner_def)
    from ack set_connected_name_eq [OF w(3) m, of True False] show ?thesis
      by (auto simp: handle_rx_msg_lib_def set_busy_eq assms(1) hear_def abs_request_def)
  next
    case ready
    with assms(2) have m: "terminated (msg_buf m)" "length (cstr (msg_buf m)) < MAX_CLIENT_NAME_LEN"
      by (simp_all add: names_partner_def)
    obtain nm where "set_connected_name (msg_buf m) c = Some (c\<lparr>connected_client_name := nm\<rparr>)"
      and n: "length nm = MAX_CLIENT_NAME_LEN" "terminated nm" "cstr nm = cstr (msg_buf m)"
      using set_connected_name_eq [OF assms(1) m] by auto
    with ready have "handle_rx_msg_lib m c = Some (c\<lparr>connected_client_name := nm, busy_in_chat := True\<rparr>)"
      by (simp add: handle_rx_msg_lib_def set_busy_eq wf_client_name [OF assms(1)])
    moreover have "c\<lparr>connected_client_name := nm, busy_in_chat := True\<rparr> =
        c\<lparr>conn_request_rx := conn_request_rx c, busy_in_chat := True, connected_client_name := nm\<rparr>"
      by (cases c) simp
    ultimately show ?thesis
      using ready n by (intro exI [of _ True] exI [of _ "conn_request_rx c"] exI [of _ nm])
        (simp add: hear_def abs_request_def abs_client_def)
  next
    case reset
    obtain nm' where nm': "set_connected_name (lit UNDEF_NAME) (c\<lparr>conn_request_rx := False, busy_in_chat := False\<rparr>) =
        Some (c\<lparr>conn_request_rx := False, busy_in_chat := False, connected_client_name := nm'\<rparr>)"
      and n: "length nm' = MAX_CLIENT_NAME_LEN" "terminated nm'" "cstr nm' = UNDEF_NAME"
      using nm by auto
    have "handle_rx_msg_lib m c =
        Some (c\<lparr>conn_request_rx := False, busy_in_chat := False, connected_client_name := nm'\<rparr>)"
      using reset nm' assms(1) by (auto simp: handle_rx_msg_lib_def set_busy_eq)
    moreover have "hear (abs_client c) (abs_request m) = quiet"
      using reset by (auto simp: hear_def abs_request_def)
    ultimately show ?thesis using n by (auto simp: quiet_def)
  next
    case req
    with self keep(2) [of True] show ?thesis
      by (intro exI [of _ "busy_in_chat c"] exI [of _ True] exI [of _ "connected_client_name c"])
        (simp add: handle_rx_msg_lib_def hear_def abs_request_def abs_client_def)
  next
    case other
    with self keep(1) show ?thesis
      by (intro exI [of _ "busy_in_chat c"] exI [of _ "conn_request_rx c"] exI [of _ "connected_client_name c"])
        (cases "msg_type m"; simp add: handle_rx_msg_lib_def hear_def abs_request_def abs_client_def)
  qed
qed

lemma lib_None:
  assumes "wf_client c" and "names_partner (msg_type m)" and "terminated (msg_buf m)"
    and "MAX_CLIENT_NAME_LEN \<le> length (cstr (msg_buf m))"
  shows "handle_rx_msg_lib m c = None"
proof -
  have "strcpy nm (msg_buf m) = None" if "length nm = MAX_CLIENT_NAME_LEN" for nm
    using assms(3,4) that by (simp add: strcpy_def strlen_eq)
  with assms(1,2) show ?thesis
    by (auto simp: names_partner_def handle_rx_msg_lib_def set_connected_name_def set_busy_def
        params_ok wf_client_def)
qed

lemma terminal_update_simps [simp]:
  "abs_client (c\<lparr>terminal := ts\<rparr>) = abs_client c" "outbox (c\<lparr>terminal := ts\<rparr>) = outbox c"
  by simp_all

text \<open>
  \<open>hears c m c'\<close>: the client has taken notice of \<open>m\<close>; nothing is sent, and the flags of the loop
  are as before.
\<close>

definition hears :: "client \<Rightarrow> msg_t \<Rightarrow> client \<Rightarrow> bool" where
  "hears c m c' \<longleftrightarrow> online c' \<and> abs_client c' = hear (abs_client c) (abs_request m) \<and>
     outbox c' = outbox c \<and> client_shut_down_flag c' = client_shut_down_flag c \<and>
     server_shut_down_flag c' = server_shut_down_flag c"

lemma serve_socket_hears:
  assumes "online c" and "deliverable (recv_into rx bs)"
  shows "\<exists>c'. serve_socket (Recv_Bytes bs) (rx, c) = Some (Continue, recv_into rx bs, c') \<and>
     hears c (recv_into rx bs) c'"
proof -
  let ?m = "recv_into rx bs"
  have w: "wf_client c" and s: "sock c \<noteq> INVALID_FD" using assms(1) by (simp_all add: online_def)
  have t: "terminated (msg_buf ?m)" using assms(2) by (simp add: deliverable_def fine_msg_def)
  obtain p where p: "cb_parameters c = Some p" "has_msg_handle_cb p" using params_ok(5) [OF w] by blast
  obtain ts where ts: "msg_handle_cb ?m c = Some (c\<lparr>terminal := terminal c @ ts\<rparr>)"
    using cb_Some [OF w] t by blast
  let ?c1 = "c\<lparr>terminal := terminal c @ ts\<rparr>"
  have w1: "wf_client ?c1" using w by simp
  obtain b a nm where lib: "handle_rx_msg_lib ?m ?c1 =
      Some (?c1\<lparr>conn_request_rx := a, busy_in_chat := b, connected_client_name := nm\<rparr>)"
    and n: "length nm = MAX_CLIENT_NAME_LEN" "terminated nm"
    and v: "\<lparr>talking = b, asked = a, partner = cstr nm\<rparr> = hear (abs_client c) (abs_request ?m)"
    using lib_Some [OF w1, of ?m] assms(2) t by (auto simp: deliverable_def)
  let ?c2 = "?c1\<lparr>conn_request_rx := a, busy_in_chat := b, connected_client_name := nm\<rparr>"
  have "wf_client ?c2" by (rule wf_client_name [OF _ n]) (simp add: w)
  then have "hears c ?m ?c2"
    using s v by (simp add: hears_def online_def) (simp add: abs_client_def)
  moreover have "serve_socket (Recv_Bytes bs) (rx, c) = Some (Continue, ?m, ?c2)"
    using p ts lib by (simp add: serve_socket_def Let_def)
  ultimately show ?thesis by blast
qed

text \<open>
  C26: Whatever bytes arrive from the server, handling them is undefined behaviour exactly in
  two cases: the text of the message does not end inside the message and the message is one of those
  whose text is printed (all but four), or the message names a partner and the name does not fit
  into the 64 bytes of \<^verbatim>\<open>connected_client_name\<close>.
\<close>

theorem receive_undefined_iff:
  assumes "online c" and "wf_msg rx" and "length bs \<le> sizeof_msg" and "m = recv_into rx bs"
  shows "serve_socket (Recv_Bytes bs) (rx, c) = None \<longleftrightarrow>
     \<not> terminated (msg_buf m) \<and> \<not> prints_no_text (msg_type m) \<or>
     names_partner (msg_type m) \<and> MAX_CLIENT_NAME_LEN \<le> length (cstr (msg_buf m))"
proof -
  have w: "wf_client c" using assms(1) by (simp add: online_def)
  obtain p where p: "cb_parameters c = Some p" "has_msg_handle_cb p" using params_ok(5) [OF w] by blast
  have run: "serve_socket (Recv_Bytes bs) (rx, c) = None \<longleftrightarrow>
      (case msg_handle_cb m c of None \<Rightarrow> True | Some c1 \<Rightarrow> handle_rx_msg_lib m c1 = None)"
    using p assms(4) by (auto simp: serve_socket_def Let_def split: option.splits Option.bind_splits)
  show ?thesis
  proof (cases "terminated (msg_buf m) \<or> prints_no_text (msg_type m)")
    case False
    then show ?thesis unfolding run using cb_None [of m c] by simp
  next
    case True
    then obtain ts where ts: "msg_handle_cb m c = Some (c\<lparr>terminal := terminal c @ ts\<rparr>)"
      using cb_Some [OF w] by blast
    have quiet: "names_partner (msg_type m) \<Longrightarrow> terminated (msg_buf m)"
      using True by (auto simp: names_partner_def prints_no_text_def)
    have w1: "wf_client (c\<lparr>terminal := terminal c @ ts\<rparr>)" using w by simp
    show ?thesis
      unfolding run ts
      using True quiet lib_None [OF w1, of m] lib_Some [OF w1, of m]
      by (cases "names_partner (msg_type m) \<and> MAX_CLIENT_NAME_LEN \<le> length (cstr (msg_buf m))") auto
  qed
qed

theorem receive_undefined_iff_witness:
  "serve_socket (Recv_Bytes (encode_msg (text_msg MSG_CLIENT_CHAT_READY (replicate 64 (CHR ''x'')))))
     (zero_msg, example_client) = None"
proof -
  let ?t = "replicate 64 (CHR ''x'')" and ?m = "text_msg MSG_CLIENT_CHAT_READY (replicate 64 (CHR ''x''))"
  have f: "fine_msg ?m" by (rule fine_text_msg) simp_all
  then have len: "length (encode_msg ?m) \<le> sizeof_msg" by (simp add: length_encode_msg fine_msg_def)
  show ?thesis
    using receive_undefined_iff [OF online_example wf_zero_msg len refl]
    by (simp add: recv_fine f names_partner_def)
qed

end
