(* ===== verification/Client_Session.thy ===== *)
theory Client_Session
  imports Client_Loop
begin

text \<open>
  A whole session of the client: connecting, the loop as a refinement of the user's view over the
  events of its rounds, and the program from its start to its exit status.
\<close>

section \<open>Connecting\<close>

text \<open>The greeting of the server is a whole message with its identification.\<close>

definition greeted :: "recv_result \<Rightarrow> bool" where
  "greeted r \<longleftrightarrow> (case r of
     Recv_Bytes bs \<Rightarrow> msg_type (recv_into zero_msg bs) = MSG_CONN_ESTABLISH_REQ \<and>
       cstr (msg_buf (recv_into zero_msg bs)) = SERVER_UNIQUEUE_ID
   | _ \<Rightarrow> False)"

definition short :: "recv_result \<Rightarrow> bool" where
  "short r \<longleftrightarrow> (case r of Recv_Bytes bs \<Rightarrow> length bs \<le> sizeof_msg | _ \<Rightarrow> True)"

lemma compare_id:
  assumes "wf_msg m"
  shows "\<exists>r. strcmp (msg_buf m) (lit SERVER_UNIQUEUE_ID) = Some r \<and>
     (r = 0 \<longleftrightarrow> cstr (msg_buf m) = SERVER_UNIQUEUE_ID)"
proof -
  have "length (lit SERVER_UNIQUEUE_ID) \<le> length (msg_buf m)"
    using assms by (simp add: lit_def SERVER_UNIQUEUE_ID_def wf_msg_def)
  moreover have "cstr (lit SERVER_UNIQUEUE_ID) = SERVER_UNIQUEUE_ID"
    by (simp add: lit_def SERVER_UNIQUEUE_ID_def)
  ultimately show ?thesis using strcmp_total [of "lit SERVER_UNIQUEUE_ID" "msg_buf m"] by simp
qed

lemma id_nonempty: "SERVER_UNIQUEUE_ID \<noteq> []"
  by (simp add: SERVER_UNIQUEUE_ID_def)

lemma connect_eq:
  assumes "wf_client c" and "short (recv_ret e)"
  shows "\<exists>ok ts ms. connect_to_server e c = Some (if ok then CLIENT_SUCCESS else CONNECTION_FAILED,
       c\<lparr>sock := socket_ret e, terminal := terminal c @ ts, outbox := outbox c @ ms\<rparr>) \<and>
     (ok \<longleftrightarrow> connect_ret e = 0 \<and> select_ret e \<noteq> - 1 \<and> select_ret e \<noteq> 0 \<and> greeted (recv_ret e) \<and>
        socket_ret e \<noteq> INVALID_FD \<and> send_ret e = 520) \<and>
     (ok \<longrightarrow> ms = [set_type MSG_CONN_ESTABLISH_ACK zero_msg])"
proof -
  define m where "m = snd (recv_with_timeout (select_ret e) (recv_ret e) zero_msg)"
  let ?c1 = "c\<lparr>sock := socket_ret e\<rparr>" and ?ack = "set_type MSG_CONN_ESTABLISH_ACK zero_msg"
  have keep: "?c1 = c\<lparr>sock := socket_ret e, terminal := terminal c @ [], outbox := outbox c @ []\<rparr>"
    by (cases c) simp
  have puts: "puts s ?c1 = c\<lparr>sock := socket_ret e, terminal := terminal c @ [Printed s],
      outbox := outbox c @ []\<rparr>" for s
    by (cases c) (simp add: puts_def)
  have send: "?c1\<lparr>outbox := outbox c @ [?ack]\<rparr> =
      c\<lparr>sock := socket_ret e, terminal := terminal c @ [], outbox := outbox c @ [?ack]\<rparr>"
    by (cases c) simp
  have fail: ?thesis if "connect_to_server e c = Some (CONNECTION_FAILED, c')"
    and "\<not> (connect_ret e = 0 \<and> select_ret e \<noteq> - 1 \<and> select_ret e \<noteq> 0 \<and> greeted (recv_ret e) \<and>
        socket_ret e \<noteq> INVALID_FD \<and> send_ret e = 520)"
    and "c' = c\<lparr>sock := socket_ret e, terminal := terminal c @ ts, outbox := outbox c @ ms\<rparr>" for c' ts ms
    using that by (intro exI [of _ False] exI [of _ ts] exI [of _ ms]) auto
  have ok: "check_lib_params c = CLIENT_SUCCESS" using assms(1) by (simp add: wf_client_def)
  have wm: "wf_msg m"
    using assms(2) by (auto simp: m_def recv_with_timeout_def short_def wf_recv_into split: recv_result.split)
  obtain r where r: "strcmp (msg_buf m) (lit SERVER_UNIQUEUE_ID) = Some r"
    "r = 0 \<longleftrightarrow> cstr (msg_buf m) = SERVER_UNIQUEUE_ID"
    using compare_id [OF wm] by blast
  show ?thesis
  proof (cases "connect_ret e = 0 \<and> select_ret e \<noteq> - 1 \<and> select_ret e \<noteq> 0")
    case False
    then have "connect_to_server e c = Some (CONNECTION_FAILED, ?c1)"
      using ok by (auto simp: connect_to_server_def recv_with_timeout_def Let_def)
    from fail [OF this _ keep] False show ?thesis by blast
  next
    case True
    then have rx: "recv_with_timeout (select_ret e) (recv_ret e) zero_msg = (CLIENT_SUCCESS, m)"
      by (simp add: m_def recv_with_timeout_def)
    have g: "greeted (recv_ret e) \<longleftrightarrow> msg_type m = MSG_CONN_ESTABLISH_REQ \<and> r = 0"
      using True r(2) id_nonempty
      by (auto simp: greeted_def m_def recv_with_timeout_def zero_msg_def split: recv_result.split)
    have run: "connect_to_server e c = Some (
        if greeted (recv_ret e) then
          (let (err, c2) = send_msg_to_server (send_ret e) ?ack ?c1
           in (if err \<noteq> CLIENT_SUCCESS then CONNECTION_FAILED else CLIENT_SUCCESS, c2))
        else if MSG_MAX_CLIENT_REACHED = msg_type m then
          (CONNECTION_FAILED,
           puts ''Server is on its limit, no more client connection allowed.\<newline>'' ?c1)
        else (CONNECTION_FAILED, ?c1))"
      using ok True r(1) g rx
      by (cases "MSG_CONN_ESTABLISH_REQ = msg_type m")
        (simp_all add: connect_to_server_def Let_def split_def)
    show ?thesis
    proof (cases "greeted (recv_ret e)")
      case False
      show ?thesis
      proof (cases "MSG_MAX_CLIENT_REACHED = msg_type m")
        case True
        with run False have "connect_to_server e c = Some (CONNECTION_FAILED,
           puts ''Server is on its limit, no more client connection allowed.\<newline>'' ?c1)"
          by (simp only: if_False if_True simp_thms)
        from fail [OF this _ puts] False show ?thesis by blast
      next
        case full: False
        with run False have "connect_to_server e c = Some (CONNECTION_FAILED, ?c1)"
          by (simp only: if_False simp_thms)
        from fail [OF this _ keep] False show ?thesis by blast
      qed
    next
      case gr: True
      show ?thesis
      proof (cases "socket_ret e \<noteq> INVALID_FD \<and> send_ret e = 520")
        case ok: True
        have "connect_to_server e c = Some (CLIENT_SUCCESS, ?c1\<lparr>outbox := outbox c @ [?ack]\<rparr>)"
          using run gr ok by (simp add: send_msg_to_server_def sizeof_msg_def)
        with send True gr ok show ?thesis
          by (intro exI [of _ True] exI [of _ "[]"] exI [of _ "[?ack]"]) simp
      next
        case bad: False
        have "\<exists>ms. connect_to_server e c =
            Some (CONNECTION_FAILED, c\<lparr>sock := socket_ret e, terminal := terminal c @ [], outbox := outbox c @ ms\<rparr>)"
        proof (cases "socket_ret e = INVALID_FD")
          case True
          then have "connect_to_server e c = Some (CONNECTION_FAILED, ?c1)"
            using run gr by (simp add: send_msg_to_server_def)
          with keep show ?thesis by metis
        next
          case False
          with bad have "connect_to_server e c = Some (CONNECTION_FAILED, ?c1\<lparr>outbox := outbox c @ [?ack]\<rparr>)"
            using run gr by (simp add: send_msg_to_server_def sizeof_msg_def)
          with send show ?thesis by metis
        qed
        then show ?thesis using fail bad by blast
      qed
    qed
  qed
qed


definition example_conn :: conn_env where
  "example_conn = \<lparr>socket_ret = 3, connect_ret = 0, select_ret = 1,
     recv_ret = Recv_Bytes (encode_msg (text_msg MSG_CONN_ESTABLISH_REQ SERVER_UNIQUEUE_ID)),
     send_ret = 520\<rparr>"

lemma greeting_fine: "fine_msg (text_msg MSG_CONN_ESTABLISH_REQ SERVER_UNIQUEUE_ID)"
  by (rule fine_text_msg) (simp_all add: SERVER_UNIQUEUE_ID_def)

lemma greeted_greeting:
  "greeted (Recv_Bytes (encode_msg (text_msg MSG_CONN_ESTABLISH_REQ SERVER_UNIQUEUE_ID)))"
  by (simp add: greeted_def recv_fine [OF greeting_fine]) (simp add: SERVER_UNIQUEUE_ID_def)

lemma short_encoded: "fine_msg m \<Longrightarrow> short (Recv_Bytes (encode_msg m))"
  by (simp add: short_def length_encode_msg fine_msg_def)


section \<open>The loop\<close>

text \<open>The events of a session, and the user's view and the client's messages after them.\<close>

datatype event = Heard request | Typed string

definition react :: "view \<Rightarrow> event \<Rightarrow> view \<times> request list" where
  "react v ev = (case ev of Heard m \<Rightarrow> (hear v m, []) | Typed t \<Rightarrow> user_line v t)"

primrec react_all :: "view \<Rightarrow> event list \<Rightarrow> view \<times> request list" where
  "react_all v [] = (v, [])"
| "react_all v (ev # evs) =
     (let (v1, out1) = react v ev; (v2, out2) = react_all v1 evs in (v2, out1 @ out2))"

text \<open>
  The events of one round. A closed or failing socket ends the loop before the terminal is looked
  at; an empty line and the end of the input are no events.
\<close>

definition hung_up :: "io_round \<Rightarrow> bool" where
  "hung_up r \<longleftrightarrow> (case r_poll r of
     Io_Error \<Rightarrow> True
   | Io_Timeout \<Rightarrow> False
   | Io_Ready sk tty \<Rightarrow> sk \<and> (r_recv r = Recv_Eof \<or> r_recv r = Recv_Error))"

definition ends :: "io_round \<Rightarrow> bool" where
  "ends r \<longleftrightarrow> hung_up r \<or> (case r_poll r of Io_Ready sk tty \<Rightarrow> tty \<and> r_read r = Read_Error | _ \<Rightarrow> False)"

definition heard_in :: "io_round \<Rightarrow> event list" where
  "heard_in r =
     (case r_poll r of
        Io_Ready sk tty \<Rightarrow>
          (case r_recv r of
             Recv_Bytes bs \<Rightarrow> if sk then [Heard (abs_request (decode_msg bs))] else []
           | _ \<Rightarrow> [])
      | _ \<Rightarrow> [])"

definition typed_in :: "io_round \<Rightarrow> event list" where
  "typed_in r =
     (if hung_up r then []
      else
        (case r_poll r of
           Io_Ready sk tty \<Rightarrow>
             (case r_read r of
                Read_Bytes bs \<Rightarrow> if tty \<and> bs \<noteq> [NEWLINE] then [Typed (line_text bs)] else []
              | _ \<Rightarrow> [])
         | _ \<Rightarrow> []))"

primrec session_events :: "io_round list \<Rightarrow> event list" where
  "session_events [] = []"
| "session_events (r # rs) =
     heard_in r @ typed_in r @ (if ends r \<or> r_sigint r then [] else session_events rs)"

text \<open>
  What is asked of a round: the server's bytes are one whole deliverable message, a read of the
  terminal gives 1 to 511 bytes, and the array of the line has 512 readable bytes behind it.
\<close>

definition regular :: "io_round \<Rightarrow> bool" where
  "regular r \<longleftrightarrow>
     (case r_recv r of Recv_Bytes bs \<Rightarrow> \<exists>m. deliverable m \<and> bs = encode_msg m | _ \<Rightarrow> True) \<and>
     (case r_read r of Read_Bytes bs \<Rightarrow> bs \<noteq> [] \<and> length bs \<le> 511 | _ \<Rightarrow> True) \<and>
     length (fst (stack r)) = MAX_MSG_LEN \<and> MAX_MSG_LEN \<le> length (snd (stack r))"

text \<open>\<open>follows c evs c'\<close>: from \<open>c\<close> to \<open>c'\<close> the client has reacted to \<open>evs\<close>.\<close>

definition follows :: "client \<Rightarrow> event list \<Rightarrow> client \<Rightarrow> bool" where
  "follows c evs c' \<longleftrightarrow> online c' \<and> abs_client c' = fst (react_all (abs_client c) evs) \<and>
     (\<exists>ms. outbox c' = outbox c @ ms \<and> list_all fine_msg ms \<and>
           map abs_request ms = snd (react_all (abs_client c) evs))"

lemma react_all_append:
  "react_all v (as @ bs) =
     (let (v1, o1) = react_all v as; (v2, o2) = react_all v1 bs in (v2, o1 @ o2))"
  by (induction as arbitrary: v) (simp_all add: Let_def split_def)

lemma follows_trans: "follows c as c1 \<Longrightarrow> follows c1 bs c2 \<Longrightarrow> follows c (as @ bs) c2"
  by (auto simp: follows_def react_all_append Let_def split_def)

lemma follows_refl: "online c \<Longrightarrow> abs_client c' = abs_client c \<Longrightarrow> outbox c' = outbox c \<Longrightarrow>
    online c' \<Longrightarrow> follows c [] c'"
  by (simp add: follows_def)

lemma hears_follows: "hears c m c' \<Longrightarrow> follows c [Heard (abs_request m)] c'"
  by (simp add: hears_def follows_def react_def Let_def)

lemma obeys_follows: "obeys c t c' \<Longrightarrow> follows c [Typed t] c'"
  by (simp add: obeys_def follows_def react_def Let_def split_def)

definition flags_of :: "client \<Rightarrow> bool \<times> bool" where
  "flags_of c = (client_shut_down_flag c, server_shut_down_flag c)"

lemma send_flags: "flags_of (snd (send_msg_to_server ret m c)) = flags_of c"
  by (simp add: send_msg_to_server_def Let_def flags_of_def)

lemma flags_simps [simp]:
  "flags_of (puts s c) = flags_of c" "flags_of (c\<lparr>outbox := ms\<rparr>) = flags_of c"
  "flags_of (c\<lparr>conn_request_rx := x\<rparr>) = flags_of c" "flags_of (c\<lparr>busy_in_chat := x\<rparr>) = flags_of c"
  "flags_of (c\<lparr>connected_client_name := nm\<rparr>) = flags_of c" "flags_of (c\<lparr>overread := n\<rparr>) = flags_of c"
  "flags_of (c\<lparr>terminal := ts\<rparr>) = flags_of c" "flags_of (show_help c) = flags_of c"
  by (simp_all add: flags_of_def puts_def show_help_def)

lemma printf_s_flags: "printf_s pre b post c = Some c' \<Longrightarrow> flags_of c' = flags_of c"
  by (auto simp: printf_s_def split: option.splits)

lemma connect_flags: "connect_with_client ret behind nm c = Some c' \<Longrightarrow> flags_of c' = flags_of c"
  by (auto simp: connect_with_client_def send_flags dest!: printf_s_flags
      split: option.splits Option.bind_splits)

lemma set_my_name_flags: "set_my_name ret nm c = Some c' \<Longrightarrow> flags_of c' = flags_of c"
  by (auto simp: set_my_name_def send_flags split: option.splits Option.bind_splits)

lemma chat_flags: "handle_send_msg_to_client ret b c = Some c' \<Longrightarrow> flags_of c' = flags_of c"
  by (auto simp: handle_send_msg_to_client_def set_busy_def set_connected_name_def send_flags Let_def
      split: option.splits Option.bind_splits if_splits)

lemma command_flags: "process_command ret behind b c = Some c' \<Longrightarrow> flags_of c' = flags_of c"
  by (auto simp: process_command_def request_client_list_def send_flags
      dest!: connect_flags set_my_name_flags printf_s_flags
      split: option.splits Option.bind_splits cmd_type_t.splits prod.splits)

lemma line_flags: "process_send_msg ret behind b c = Some c' \<Longrightarrow> flags_of c' = flags_of c"
  by (auto simp: process_send_msg_def send_flags dest!: chat_flags command_flags
      split: option.splits Option.bind_splits if_splits)

text \<open>One round.\<close>

lemma socket_round:
  assumes "online c" and "regular r" and "r_poll r = Io_Ready sk tty"
  shows "\<exists>rx' c'. (if sk then serve_socket (r_recv r) (rx, c) else Some (Continue, rx, c)) =
       Some (if hung_up r then Break else Continue, rx', c') \<and>
     follows c (heard_in r) c' \<and> (\<not> hung_up r \<longrightarrow> flags_of c' = flags_of c)"
proof (cases sk)
  case False
  with assms follows_refl [OF assms(1) refl refl assms(1)] show ?thesis
    by (auto simp: hung_up_def heard_in_def split: recv_result.split)
next
  case sk: True
  show ?thesis
  proof (cases "r_recv r")
    case (Recv_Bytes bs)
    with assms(2) obtain m where m: "deliverable m" "bs = encode_msg m" by (auto simp: regular_def)
    then have f: "fine_msg m" by (simp add: deliverable_def)
    then have d: "decode_msg bs = m" using m(2) decode_encode_msg by (simp add: fine_msg_def)
    obtain c' where "serve_socket (Recv_Bytes bs) (rx, c) = Some (Continue, m, c')" "hears c m c'"
      using serve_socket_hears [OF assms(1), of rx bs] m recv_fine [OF f, of rx] by auto
    then show ?thesis
      using sk Recv_Bytes assms(3) d hears_follows
      by (auto simp: hung_up_def heard_in_def hears_def flags_of_def)
  next
    case Recv_Eof
    have "wf_client c" using assms(1) by (simp add: online_def)
    with Recv_Eof sk assms(1,3) show ?thesis
      by (auto simp: serve_socket_def params_ok hung_up_def heard_in_def intro!: follows_refl)
  next
    case Recv_Error
    with sk assms(1,3) show ?thesis
      by (auto simp: serve_socket_def hung_up_def heard_in_def intro!: follows_refl)
  qed
qed

lemma terminal_round:
  assumes "online c" and "regular r"
  shows "\<exists>c'. serve_terminal (r_read r) (r_send r) (stack r) c =
       Some (if r_read r = Read_Error then Break else Continue, c') \<and>
     follows c (case r_read r of Read_Bytes bs \<Rightarrow> if bs = [NEWLINE] then [] else [Typed (line_text bs)] | _ \<Rightarrow> []) c' \<and>
     flags_of c' = flags_of c"
proof (cases "r_read r")
  case (Read_Bytes bs)
  with assms(2) have bs: "bs \<noteq> []" "length bs < MAX_MSG_LEN"
    and st: "length (fst (stack r)) = MAX_MSG_LEN" "MAX_MSG_LEN \<le> length (snd (stack r))"
    by (simp_all add: regular_def)
  show ?thesis
  proof (cases "bs = [NEWLINE]")
    case True
    with Read_Bytes assms(1) show ?thesis by (auto simp: serve_terminal_def intro!: follows_refl)
  next
    case False
    obtain b where b: "input_line (fst (stack r)) bs = Some b" "length b = MAX_MSG_LEN"
      "terminated b" "cstr b = line_text bs"
      using input_line_eq [OF bs st(1)] by blast
    obtain c' where c': "process_send_msg (r_send r) (snd (stack r)) (Some b) c = Some c'"
      "obeys c (line_text bs) c'"
      using line_obeys [OF assms(1) b(2,3) st(2), of "r_send r"] b(4) by auto
    with False Read_Bytes b(1) show ?thesis
      by (auto simp: serve_terminal_def line_flags obeys_follows)
  qed
qed (use assms(1) in \<open>auto simp: serve_terminal_def intro!: follows_refl\<close>)

lemma io_step_follows:
  assumes "online c" and "regular r"
  shows "\<exists>rx' c'. io_step r (rx, c) = Some (if ends r then Break else Continue, rx', c') \<and>
     follows c (heard_in r @ typed_in r) c' \<and> (\<not> ends r \<longrightarrow> flags_of c' = flags_of c)"
proof (cases "r_poll r")
  case (Io_Ready sk tty)
  obtain rx1 c1 where s: "(if sk then serve_socket (r_recv r) (rx, c) else Some (Continue, rx, c)) =
       Some (if hung_up r then Break else Continue, rx1, c1)"
    and f1: "follows c (heard_in r) c1" "\<not> hung_up r \<longrightarrow> flags_of c1 = flags_of c"
    using socket_round [OF assms Io_Ready, of rx] by blast
  show ?thesis
  proof (cases "hung_up r \<or> \<not> tty")
    case True
    then have "typed_in r = []"
      using Io_Ready by (auto simp: typed_in_def split: read_result.split)
    moreover have "ends r \<longleftrightarrow> hung_up r" using True Io_Ready by (auto simp: ends_def)
    ultimately show ?thesis
      using s f1 True Io_Ready by (auto simp: io_step_def)
  next
    case False
    have on: "online c1" using f1(1) by (simp add: follows_def)
    obtain c2 where t: "serve_terminal (r_read r) (r_send r) (stack r) c1 =
        Some (if r_read r = Read_Error then Break else Continue, c2)"
      and f2: "follows c1 (case r_read r of Read_Bytes bs \<Rightarrow>
          if bs = [NEWLINE] then [] else [Typed (line_text bs)] | _ \<Rightarrow> []) c2" "flags_of c2 = flags_of c1"
      using terminal_round [OF on assms(2)] by blast
    have "typed_in r = (case r_read r of Read_Bytes bs \<Rightarrow>
        if bs = [NEWLINE] then [] else [Typed (line_text bs)] | _ \<Rightarrow> [])"
      using False Io_Ready by (simp add: typed_in_def split: read_result.split)
    then have "follows c (heard_in r @ typed_in r) c2"
      using follows_trans [OF f1(1) f2(1)] by simp
    moreover have "ends r \<longleftrightarrow> r_read r = Read_Error" using False Io_Ready by (simp add: ends_def)
    ultimately show ?thesis
      using s t f1(2) f2(2) False Io_Ready by (auto simp: io_step_def)
  qed
qed (use assms(1) in \<open>auto simp: io_step_def ends_def hung_up_def heard_in_def typed_in_def
      intro!: follows_refl\<close>)

text \<open>The loop.\<close>

lemma stop_eq: "online c \<Longrightarrow> stop_requested c = Some (client_shut_down_flag c \<or> server_shut_down_flag c)"
  by (simp add: stop_requested_def params_ok online_def)

lemma io_thread_stopped:
  "online c \<Longrightarrow> client_shut_down_flag c \<Longrightarrow> io_thread rs (rx, c) = Some (True, rx, c)"
  by (cases rs) (simp_all add: stop_eq)

lemma interrupted_eq: "online c \<Longrightarrow> interrupted True c = Some (c\<lparr>client_shut_down_flag := True\<rparr>)"
  using params_ok(5) [of c] by (auto simp: interrupted_def client_sig_int_handler_def online_def)

lemma io_thread_follows:
  assumes "online c" and "flags_of c = (False, False)" and "list_all regular rs"
  shows "\<exists>rx' c'. io_thread rs (rx, c) = Some (\<exists>r \<in> set rs. ends r \<or> r_sigint r, rx', c') \<and>
     follows c (session_events rs) c'"
  using assms
proof (induction rs arbitrary: rx c)
  case Nil
  then show ?case by (auto simp: stop_eq flags_of_def intro!: follows_refl)
next
  case (Cons r rs)
  have go: "stop_requested c = Some False" using Cons.prems(1,2) by (simp add: stop_eq flags_of_def)
  define c1 where "c1 = (if r_sigint r then c\<lparr>client_shut_down_flag := True\<rparr> else c)"
  have i: "interrupted (r_sigint r) c = Some c1"
    using interrupted_eq [OF Cons.prems(1)] by (auto simp: c1_def interrupted_def)
  have on1: "online c1" and f1: "follows c [] c1"
    using Cons.prems(1) by (auto simp: c1_def intro!: follows_refl)
  have reg: "regular r" "list_all regular rs" using Cons.prems(3) by simp_all
  obtain rx2 c2 where s: "io_step r (rx, c1) = Some (if ends r then Break else Continue, rx2, c2)"
    and f2: "follows c1 (heard_in r @ typed_in r) c2" and fl: "\<not> ends r \<Longrightarrow> flags_of c2 = flags_of c1"
    using io_step_follows [OF on1 reg(1), of rx] by blast
  have f: "follows c (heard_in r @ typed_in r) c2" using follows_trans [OF f1 f2] by simp
  have on2: "online c2" using f by (simp add: follows_def)
  consider (ends) "ends r" | (int) "\<not> ends r" "r_sigint r" | (on) "\<not> ends r" "\<not> r_sigint r" by blast
  then show ?case
  proof cases
    case ends
    then show ?thesis using go i s f by auto
  next
    case int
    then have "client_shut_down_flag c2" using fl by (simp add: flags_of_def c1_def)
    then show ?thesis using int go i s f io_thread_stopped [OF on2] by auto
  next
    case on
    then have "flags_of c2 = (False, False)" using fl Cons.prems(2) by (simp add: c1_def)
    then obtain rx3 c3 where "io_thread rs (rx2, c2) = Some (\<exists>r \<in> set rs. ends r \<or> r_sigint r, rx3, c3)"
      and f3: "follows c2 (session_events rs) c3"
      using Cons.IH [OF on2 _ reg(2), of rx2] by blast
    moreover have "follows c (session_events (r # rs)) c3"
      using follows_trans [OF f f3] on by simp
    ultimately show ?thesis using on go i s by auto
  qed
qed

end
