(* ===== verification/Client_Correct.thy ===== *)
theory Client_Correct
  imports Client_Session
begin

text \<open>The properties of the client's loop and of the program as a whole.\<close>

section \<open>The loop\<close>

definition example_round :: io_round where
  "example_round = \<lparr>r_sigint = False, r_poll = Io_Timeout, r_recv = Recv_Error, r_read = Read_Eof,
     r_send = 520, stack = (replicate MAX_MSG_LEN NUL, replicate MAX_MSG_LEN NUL)\<rparr>"

definition receiving :: "msg_t \<Rightarrow> io_round" where
  "receiving m = example_round\<lparr>r_poll := Io_Ready True False, r_recv := Recv_Bytes (encode_msg m)\<rparr>"

definition typing :: "string \<Rightarrow> io_round" where
  "typing t = example_round\<lparr>r_poll := Io_Ready False True, r_read := Read_Bytes (t @ [NEWLINE])\<rparr>"

lemma regular_receiving: "deliverable m \<Longrightarrow> regular (receiving m)"
  by (auto simp: regular_def receiving_def example_round_def)

lemma regular_typing: "length t < 511 \<Longrightarrow> regular (typing t)"
  by (simp add: regular_def typing_def example_round_def)

lemma deliverable_text:
  assumes "NUL \<notin> set t" and "length t < MAX_MSG_LEN" and "msg_type_code ty < 2 ^ 32"
    and "names_partner ty \<Longrightarrow> length t < MAX_CLIENT_NAME_LEN"
  shows "deliverable (text_msg ty t)"
  using assms by (simp add: deliverable_def fine_text_msg)

lemma events_typing:
  assumes "NUL \<notin> set t" and "t \<noteq> []" and "\<not> is_blank (hd t)"
  shows "session_events (typing t # rs) = Typed t # session_events rs"
proof -
  have "dropWhile is_blank t = t" using assms(2,3) by (cases t) simp_all
  then have "line_text (t @ [NEWLINE]) = t" using assms(1) by (simp add: line_text_def chomp_def)
  then show ?thesis
    using assms(2) by (simp add: typing_def example_round_def heard_in_def typed_in_def hung_up_def ends_def)
qed

lemma events_receiving:
  assumes "fine_msg m"
  shows "session_events (receiving m # rs) = Heard (abs_request m) # session_events rs"
  using assms decode_encode_msg [of m]
  by (simp add: receiving_def example_round_def heard_in_def typed_in_def hung_up_def ends_def fine_msg_def)

lemma flags_example: "flags_of example_client = (False, False)" "outbox example_client = []"
    "abs_client example_client = quiet"
  by (simp_all add: flags_of_def example_client_def init_client_def abs_client_def quiet_def mk_buf_def
      cstr_append_text)



text \<open>
  C29: The loop ends within the given rounds exactly if one of them ends it: \<^verbatim>\<open>poll\<close>
  fails, the server closes the connection or \<^verbatim>\<open>recv\<close> fails, \<^verbatim>\<open>read\<close> fails, or
  the user interrupts the program. \<^verbatim>\<open>chat_on\<close> then returns \<^verbatim>\<open>CLIENT_SUCCESS\<close>, also
  after an error.
\<close>

theorem loop_ends_iff:
  assumes "online c" and "\<not> client_shut_down_flag c" and "\<not> server_shut_down_flag c"
    and "list_all regular rs"
  shows "\<exists>c'. chat_on False rs rx c =
     Some (if \<exists>r \<in> set rs. ends r \<or> r_sigint r then Some CLIENT_SUCCESS else None, c')"
proof -
  have "flags_of c = (False, False)" using assms(2,3) by (simp add: flags_of_def)
  then obtain rx' c' where "io_thread rs (rx, c) = Some (\<exists>r \<in> set rs. ends r \<or> r_sigint r, rx', c')"
    using io_thread_follows [OF assms(1) _ assms(4)] by blast
  then show ?thesis by (simp add: chat_on_def)
qed

theorem loop_ends_iff_witness:
  "\<exists>c'. chat_on False [typing ''help'', example_round\<lparr>r_sigint := True\<rparr>] zero_msg example_client =
     Some (Some CLIENT_SUCCESS, c')"
proof -
  have "list_all regular [typing ''help'', example_round\<lparr>r_sigint := True\<rparr>]"
    by (simp add: regular_typing) (simp add: regular_def example_round_def)
  from loop_ends_iff [OF online_example _ _ this, of zero_msg] show ?thesis
    using flags_example by (auto simp: flags_of_def)
qed

text \<open>
  C30: The end of the input does not end the client: with the terminal at its end and the server
  silent the loop goes round for ever, at full speed since \<^verbatim>\<open>poll\<close> reports the terminal as
  ready each time, and neither state nor terminal changes.
\<close>

theorem end_of_input_loops:
  assumes "online c" and "\<not> client_shut_down_flag c" and "\<not> server_shut_down_flag c"
    and "r_poll r = Io_Ready False True" and "r_read r = Read_Eof" and "\<not> r_sigint r"
  shows "io_thread (replicate n r) (rx, c) = Some (False, rx, c)"
proof (induction n)
  case 0
  show ?case using assms(1-3) by (simp add: stop_eq)
next
  case (Suc n)
  then show ?case
    using assms by (simp add: stop_eq interrupted_def io_step_def serve_terminal_def)
qed

theorem end_of_input_loops_witness:
  "io_thread (replicate 1000 (example_round\<lparr>r_poll := Io_Ready False True\<rparr>)) (zero_msg, example_client) =
     Some (False, zero_msg, example_client)"
  by (rule end_of_input_loops [OF online_example])
    (simp_all add: example_round_def example_client_def init_client_def)

section \<open>The program\<close>

text \<open>
  C31: A name is copied into the message without a bound: \<^verbatim>\<open>set_my_name\<close> writes past the
  message exactly if the name has 512 bytes or more. A name from the terminal is always shorter; the
  argument of the command line, which \<^verbatim>\<open>main\<close> passes on unchecked, need not be.
\<close>

theorem set_my_name_overflow_iff:
  assumes "terminated nm"
  shows "set_my_name ret (Some nm) c = None \<longleftrightarrow> MAX_MSG_LEN \<le> length (cstr nm)"
  using assms by (simp add: set_my_name_def strcpy_def strlen_eq linorder_not_less [symmetric] less_Suc_eq_le)

theorem set_my_name_overflow_iff_witness:
  "set_my_name 520 (Some (replicate 512 (CHR ''a'') @ [NUL])) example_client = None"
proof -
  have "length (cstr (replicate 512 (CHR ''a'') @ [NUL])) = 512"
    by (simp add: cstr_append_text)
  then show ?thesis
    using set_my_name_overflow_iff [of "replicate 512 (CHR ''a'') @ [NUL]" 520 example_client] by simp
qed

definition will_connect :: "conn_env \<Rightarrow> bool" where
  "will_connect e \<longleftrightarrow> connect_ret e = 0 \<and> select_ret e \<noteq> - 1 \<and> select_ret e \<noteq> 0 \<and>
     greeted (recv_ret e) \<and> socket_ret e \<noteq> INVALID_FD \<and> send_ret e = 520"



end
