(* ===== verification/Chat_Views.thy ===== *)
theory Chat_Views
  imports Server_Correct Client_Correct
begin

text \<open>
  The registry of the server and the views of the users side by side: what a line typed, a closed
  connection and a new connection do to both when the messages they lead to are delivered, and that
  the two sides keep agreeing on who talks and who has been asked.
\<close>

section \<open>Delivery\<close>

type_synonym views = "c_int \<Rightarrow> view"

definition deliver1 :: "reply \<Rightarrow> views \<Rightarrow> views" where
  "deliver1 m V = V(fst m := hear (V (fst m)) (snd m))"

definition deliver :: "reply list \<Rightarrow> views \<Rightarrow> views" where
  "deliver ms V = fold deliver1 ms V"

lemma deliver_simps [simp]:
  "deliver [] V = V" "deliver (m # ms) V = deliver ms (deliver1 m V)"
  "deliver1 (g, ty, t) V = V(g := hear (V g) (ty, t))"
  by (simp_all add: deliver_def deliver1_def)

lemma upd_unchanged [simp]: "f \<noteq> g \<Longrightarrow> V(g := a, f := V f) = V(g := a)"
  by (simp add: fun_eq_iff)

text \<open>The messages that change the receiver's view.\<close>

lemma hear_other:
  "ty \<notin> {MSG_CONNECTION_REQ_RX, MSG_CLIENT_ACCEPT_CONNECTION_ACK, MSG_CLIENT_CHAT_READY,
     MSG_CLIENT_NO_MORE_FREE, MSG_CLIENT_TERMINATION, MSG_CLIENT_DISCONNECTED} \<Longrightarrow> hear v (ty, t) = v"
  by (cases ty) (simp_all add: hear_def)

lemma hear_simps [simp]:
  "hear v (MSG_CONNECTION_REQ_RX, t) = v\<lparr>asked := True\<rparr>"
  "hear v (MSG_CLIENT_ACCEPT_CONNECTION_ACK, t) = \<lparr>talking = True, asked = False, partner = t\<rparr>"
  "hear v (MSG_CLIENT_CHAT_READY, t) = v\<lparr>talking := True, partner := t\<rparr>"
  "hear v (MSG_CLIENT_NO_MORE_FREE, t) = quiet" "hear v (MSG_CLIENT_TERMINATION, t) = quiet"
  "hear v (MSG_CLIENT_DISCONNECTED, t) = quiet" "hear v (MSG_CLIENT_RX_TYPE, t) = v"
  "hear v (MSG_CLIENT_NO_MORE_EXIST, t) = v" "hear v (MSG_CLIENT_FREE, t) = v"
  "hear v (MSG_CLIENT_DECLINE_CONNECTION_ACK, t) = v" "hear v (MSG_CLIENT_NOT_EXIST, t) = v"
  "hear v (MSG_ATTEMPT_TO_CONNECT_TO_SELF, t) = v" "hear v (MSG_CLIENT_BUSY, t) = v"
  "hear v (MSG_CLIENT_STATUS_REQ_PENDING, t) = v" "hear v (MSG_SET_NAME_ACK_TYPE, t) = v"
  "hear v (MSG_SET_NAME_NACK_TYPE, t) = v" "hear v (MSG_GET_CLIENT_LIST_TYPE, t) = v"
  by (simp_all add: hear_def)

lemma quiet_simps [simp]: "\<not> talking quiet" "\<not> asked quiet" "partner quiet = UNDEF_NAME"
  by (simp_all add: quiet_def)

section \<open>Agreement\<close>

text \<open>
  The server's entry \<open>x\<close> and the user's view \<open>v\<close> of the same client. The entry of a client that
  talks or has been asked names a partner, and nobody has the name that stands for no name.
\<close>

definition agree1 :: "entry \<Rightarrow> view \<Rightarrow> bool" where
  "agree1 x v \<longleftrightarrow> talking v = (e_status x = CHAT_STATUS_BUSY) \<and>
     asked v = (e_status x = CHAT_STATUS_REQ_PENDING) \<and>
     (e_status x \<noteq> CHAT_STATUS_FREE \<longrightarrow> e_partner x \<noteq> INVALID_FD) \<and>
     valid_status (e_status x) \<and> e_name x \<noteq> UNDEF_NAME"

definition agree :: "registry \<Rightarrow> views \<Rightarrow> bool" where
  "agree r V \<longleftrightarrow> wf_registry r \<and> (\<forall>f x. map_of r f = Some x \<longrightarrow> agree1 x (V f))"

lemma agreeD: "agree r V \<Longrightarrow> map_of r f = Some x \<Longrightarrow> agree1 x (V f)"
  by (simp add: agree_def)

lemma agree_map:
  assumes "agree r V" and "\<And>x. map_of r f = Some x \<Longrightarrow> agree1 (g x) (V' f)"
    and "\<And>h. h \<noteq> f \<Longrightarrow> V' h = V h"
  shows "agree (reg_map f g r) V'"
  using assms by (auto simp: agree_def wf_reg_map map_of_reg_map)

lemma agree_absent: "agree r V \<Longrightarrow> f \<notin> reg_fds r \<Longrightarrow> agree r (V(f := v))"
  using map_of_None_fds [of r f] by (auto simp: agree_def)

lemma agree_remove: "agree r V \<Longrightarrow> agree (reg_remove f r) V"
  by (auto simp: agree_def wf_reg_remove map_of_reg_remove split: if_splits)

lemma agree_add:
  assumes "agree r V" and "f \<notin> reg_fds r" and "f \<noteq> INVALID_FD" and "nm \<noteq> UNDEF_NAME"
  shows "agree (r @ [(f, \<lparr>e_name = nm, e_status = CHAT_STATUS_FREE, e_partner = INVALID_FD\<rparr>)]) (V(f := quiet))"
proof -
  have "map_of r f = None" using assms(2) by (simp add: map_of_None_fds)
  then show ?thesis
    using assms by (auto simp: agree_def wf_registry_def reg_fds_def agree1_def map_add_def
        split: option.splits)
qed

text \<open>Setting a client free on both sides; the other writes of the handlers on one client.\<close>

lemma agree_free:
  assumes "agree r V" and "\<And>x. map_of r f = Some x \<Longrightarrow> \<not> talking v \<and> \<not> asked v"
  shows "agree (reg_set f CHAT_STATUS_FREE r) (V(f := v))"
  unfolding reg_set_def
  by (rule agree_map [OF assms(1)]) (use assms agreeD [OF assms(1)] in \<open>auto simp: agree1_def\<close>)

lemma agree_unlink:
  assumes "agree r V" and "reg_status r f \<noteq> CHAT_STATUS_BUSY" and "reg_status r f \<noteq> CHAT_STATUS_REQ_PENDING"
  shows "agree (reg_link f t r) V"
  unfolding reg_link_def
  by (rule agree_map [OF assms(1)])
    (use assms agreeD [OF assms(1)] in \<open>auto simp: agree1_def reg_status_def valid_status_def\<close>)

lemma agree_link:
  assumes "agree r V" and "t \<noteq> INVALID_FD"
  shows "agree (reg_link f t r) V"
  unfolding reg_link_def
  by (rule agree_map [OF assms(1)]) (use assms agreeD [OF assms(1)] in \<open>auto simp: agree1_def\<close>)

section \<open>Requests\<close>

lemma agree_entry:
  assumes "agree r V" and "f \<in> reg_fds r"
  shows "talking (V f) = (reg_status r f = CHAT_STATUS_BUSY)"
    "asked (V f) = (reg_status r f = CHAT_STATUS_REQ_PENDING)"
    "reg_status r f \<noteq> CHAT_STATUS_FREE \<Longrightarrow> reg_partner r f \<noteq> INVALID_FD"
    "valid_status (reg_status r f)" "reg_name r f \<noteq> UNDEF_NAME" "f \<noteq> INVALID_FD"
proof -
  obtain x where x: "map_of r f = Some x" using map_of_None_fds [of r f] assms(2) by blast
  with agreeD [OF assms(1) x] show "talking (V f) = (reg_status r f = CHAT_STATUS_BUSY)"
    "asked (V f) = (reg_status r f = CHAT_STATUS_REQ_PENDING)"
    "reg_status r f \<noteq> CHAT_STATUS_FREE \<Longrightarrow> reg_partner r f \<noteq> INVALID_FD"
    "valid_status (reg_status r f)" "reg_name r f \<noteq> UNDEF_NAME"
    by (simp_all add: reg_status_def reg_partner_def reg_name_def agree1_def)
  show "f \<noteq> INVALID_FD" using assms unfolding agree_def wf_registry_def reg_fds_def by blast
qed

text \<open>Both ends set busy, and both told; both set free, and both told.\<close>

lemma agree_join:
  assumes "agree r V" and "f \<noteq> INVALID_FD" and "g \<noteq> INVALID_FD"
    and "\<And>h. h \<in> {f, g} \<Longrightarrow> talking (V' h) \<and> \<not> asked (V' h)" and "\<And>h. h \<notin> {f, g} \<Longrightarrow> V' h = V h"
  shows "agree (reg_link g f (reg_link f g (reg_set g CHAT_STATUS_BUSY (reg_set f CHAT_STATUS_BUSY r)))) V'"
proof -
  have "agree1 x (V h) \<Longrightarrow> h \<in> {f, g} \<Longrightarrow> agree1 (x\<lparr>e_status := CHAT_STATUS_BUSY, e_partner := t\<rparr>) (V' h)"
    if "t \<noteq> INVALID_FD" for x h t
    using assms(4) [of h] that by (auto simp: agree1_def valid_status_def)
  then show ?thesis
    using assms unfolding agree_def reg_link_def reg_set_def
    by (auto simp: wf_reg_map map_of_reg_map)
qed

lemma agree_part:
  assumes "agree r V" and "\<And>h. h \<in> {f, g} \<Longrightarrow> \<not> talking (V' h) \<and> \<not> asked (V' h)"
    and "\<And>h. h \<notin> {f, g} \<Longrightarrow> V' h = V h"
  shows "agree (reg_link g INVALID_FD (reg_link f INVALID_FD
      (reg_set g CHAT_STATUS_FREE (reg_set f CHAT_STATUS_FREE r)))) V'"
proof -
  have "agree1 x (V h) \<Longrightarrow> h \<in> {f, g} \<Longrightarrow> agree1 (x\<lparr>e_status := CHAT_STATUS_FREE, e_partner := t\<rparr>) (V' h)"
    for x h t
    using assms(2) [of h] by (auto simp: agree1_def valid_status_def)
  then show ?thesis
    using assms unfolding agree_def reg_link_def reg_set_def
    by (auto simp: wf_reg_map map_of_reg_map)
qed

lemma agree_propose:
  assumes "agree r V" and "f \<noteq> g" and "f \<noteq> INVALID_FD" and "g \<noteq> INVALID_FD"
    and "reg_status r g = CHAT_STATUS_FREE"
  shows "agree (reg_link g f (reg_link f g (reg_set g CHAT_STATUS_REQ_PENDING r)))
    (V(g := (V g)\<lparr>asked := True\<rparr>))"
proof -
  have "agree1 x (V g) \<Longrightarrow> map_of r g = Some x \<Longrightarrow>
      agree1 (x\<lparr>e_status := CHAT_STATUS_REQ_PENDING, e_partner := f\<rparr>) ((V g)\<lparr>asked := True\<rparr>)" for x
    using assms(3,5) by (auto simp: agree1_def valid_status_def reg_status_def)
  moreover have "agree1 x (V h) \<Longrightarrow> agree1 (x\<lparr>e_partner := g\<rparr>) (V h)" for x h
    using assms(4) by (simp add: agree1_def)
  ultimately show ?thesis
    using assms(1,2) unfolding agree_def reg_link_def reg_set_def
    by (auto simp: wf_reg_map map_of_reg_map)
qed

lemma undef_length: "length UNDEF_NAME = 16"
  by (simp add: UNDEF_NAME_def)

lemma agree_command:
  assumes "agree r V" and "f \<in> reg_fds r" and "\<not> talking (V f)" and "\<not> asked (V f)"
    and "(ty, s) \<in> set (user_command t)" and "(ty, s) \<noteq> (MSG_SET_NAME_REQ_TYPE, UNDEF_NAME)"
    and "serve r f ty s = Some (r', out)"
  shows "agree r' (deliver out V)"
proof -
  note e = agree_entry [OF assms(1,2)]
  have ty: "ty \<in> {MSG_GET_CLIENT_LIST_TYPE, MSG_CONNECT_TO_CLIENT, MSG_SET_NAME_REQ_TYPE}"
    using assms(5) by (auto simp: user_command_def split: cmd_type_t.splits if_splits)
  have wf: "wf_registry r" using assms(1) by (simp add: agree_def)
  have rename: "agree (reg_map f (\<lambda>x. x\<lparr>e_name := take 63 s\<rparr>) r) V" if "s \<noteq> UNDEF_NAME"
  proof (rule agree_map [OF assms(1)])
    have "take 63 s \<noteq> UNDEF_NAME"
    proof
      assume u: "take 63 s = UNDEF_NAME"
      then have "length (take 63 s) = 16" using undef_length by simp
      then have "take 63 s = s" by (simp add: min_def split: if_splits)
      with u that show False by simp
    qed
    then show "agree1 (x\<lparr>e_name := take 63 s\<rparr>) (V f)" if "map_of r f = Some x" for x
      using agreeD [OF assms(1) that] by (simp add: agree1_def)
  qed simp
  have connect: "agree r' (deliver out V)" if "serve_connect r f s = (r', out)"
  proof (cases "reg_find r s")
    case None
    with that assms(1) show ?thesis by (auto simp: serve_connect_def)
  next
    case (Some g)
    note g = reg_find_Some [OF wf Some]
    have "g \<noteq> INVALID_FD" using agree_entry(6) [OF assms(1) g(1)] .
    with that Some assms(1) g(2) e(6) show ?thesis
      by (auto simp: serve_connect_def agree_propose split: if_splits)
  qed
  show ?thesis
    using ty assms(1,6,7) rename connect
    by (auto simp: serve_def serve_set_name_def split: if_splits)
qed

lemma agree_accept:
  assumes "agree r V" and "f \<in> reg_fds r" and "\<not> talking (V f)" and "asked (V f)"
  shows "\<exists>r' out. serve_accept r f = Some (r', out) \<and> agree r' (deliver out (V(f := (V f)\<lparr>asked := False\<rparr>)))"
proof -
  let ?g = "reg_partner r f" and ?V = "V(f := (V f)\<lparr>asked := False\<rparr>)"
  note e = agree_entry [OF assms(1,2)]
  have st: "reg_status r f = CHAT_STATUS_REQ_PENDING" using e(2) assms(4) by simp
  with e(3) have g: "?g \<noteq> INVALID_FD" by simp
  have free: "agree (reg_set f CHAT_STATUS_FREE r) (V(f := v))" if "\<not> talking v" "\<not> asked v" for v
    using that by (intro agree_free [OF assms(1)]) simp
  consider (gone) "reg_name r ?g = UNDEF_NAME" | (busy) "reg_name r ?g \<noteq> UNDEF_NAME" "reg_status r ?g = CHAT_STATUS_BUSY"
    | (join) "reg_name r ?g \<noteq> UNDEF_NAME" "reg_status r ?g \<noteq> CHAT_STATUS_BUSY" by blast
  then show ?thesis
  proof cases
    case gone
    have fr: "agree (reg_set f CHAT_STATUS_FREE r) ?V" using free assms(3) by simp
    have "reg_status (reg_set f CHAT_STATUS_FREE r) f = CHAT_STATUS_FREE"
      using assms(2) map_of_None_fds [of r f] by (auto simp: reg_status_def reg_set_def map_of_reg_map)
    then have "agree (reg_link f INVALID_FD (reg_set f CHAT_STATUS_FREE r)) ?V"
      by (intro agree_unlink [OF fr]) simp_all
    with gone g show ?thesis by (simp add: serve_accept_def Let_def)
  next
    case busy
    with g free show ?thesis by (simp add: serve_accept_def Let_def)
  next
    case join
    have gin: "?g \<in> reg_fds r" using join(1) by (rule reg_name_in)
    have "agree (reg_link ?g f (reg_link f ?g (reg_set ?g CHAT_STATUS_BUSY (reg_set f CHAT_STATUS_BUSY r))))
        (deliver [(f, MSG_CLIENT_CHAT_READY, reg_name r ?g), (?g, MSG_CLIENT_ACCEPT_CONNECTION_ACK, reg_name r f)] ?V)"
      by (rule agree_join [OF assms(1) e(6) g]) auto
    with join g st e(5) show ?thesis by (simp add: serve_accept_def Let_def)
  qed
qed

text \<open>
  A line typed: the request it leads to is carried out, and after the delivery of the messages both
  sides agree again. In particular the accept without a partner, at which the server would stop, is
  not sent.
\<close>

lemma agree_line:
  assumes "agree r V" and "f \<in> reg_fds r" and "user_line (V f) t = (v, reqs)"
    and "(MSG_SET_NAME_REQ_TYPE, UNDEF_NAME) \<notin> set reqs" and "(ty, s) \<in> set reqs"
  shows "\<exists>r' out. serve r f ty s = Some (r', out) \<and> agree r' (deliver out (V(f := v)))"
proof -
  note e = agree_entry [OF assms(1,2)]
  consider (chat) "talking (V f)" | (answer) "\<not> talking (V f)" "asked (V f)"
    | (cmd) "\<not> talking (V f)" "\<not> asked (V f)" by blast
  then show ?thesis
  proof cases
    case chat
    then have st: "reg_status r f = CHAT_STATUS_BUSY" "\<not> asked (V f)" using e(1,2) by auto
    with e(3) have g: "reg_partner r f \<noteq> INVALID_FD" by simp
    from chat assms(3,5) have l: "ty = MSG_CLIENT_TX_TYPE" "s = t"
      "v = (if t = DISCONNECT_CMD then (V f)\<lparr>talking := False, partner := UNDEF_NAME\<rparr> else V f)"
      by (auto simp: user_line_def split: if_splits)
    have "agree (reg_link (reg_partner r f) INVALID_FD (reg_link f INVALID_FD
        (reg_set (reg_partner r f) CHAT_STATUS_FREE (reg_set f CHAT_STATUS_FREE r))))
      (deliver [(reg_partner r f, MSG_CLIENT_DISCONNECTED, reg_name r f)] (V(f := v)))"
      if "t = DISCONNECT_CMD"
      by (rule agree_part [OF assms(1)]) (use that l(3) st(2) in auto)
    then show ?thesis
      using l st(1) g assms(1) by (auto simp: serve_def serve_tx_def Let_def)
  next
    case answer
    then have st: "reg_status r f = CHAT_STATUS_REQ_PENDING" using e(2) by simp
    have "agree (reg_set f CHAT_STATUS_FREE r) (V(f := (V f)\<lparr>asked := False\<rparr>))"
      using answer(1) by (intro agree_free [OF assms(1)]) simp
    with agree_accept [OF assms(1,2) answer] st e(3) answer assms(3,5) show ?thesis
      by (auto simp: user_line_def serve_def serve_decline_def split: if_splits)
  next
    case cmd
    then have l: "v = V f" "reqs = user_command t" using assms(3) by (auto simp: user_line_def)
    have "\<exists>r' out. serve r f ty s = Some (r', out)"
      using assms(5) l(2) by (auto simp: user_command_def serve_def split: cmd_type_t.splits if_splits)
    then show ?thesis
      using agree_command [OF assms(1,2) cmd] assms(4,5) l by fastforce
  qed
qed

lemma agree_close:
  assumes "agree r V" and "serve_close r f = (r', out)"
  shows "agree r' (deliver out V)"
proof (cases "reg_partner r f = INVALID_FD \<or> reg_status r (reg_partner r f) = CHAT_STATUS_FREE")
  case True
  with assms show ?thesis by (auto simp: serve_close_def Let_def agree_remove)
next
  case False
  have "agree (reg_set (reg_partner r f) CHAT_STATUS_FREE r) (V(reg_partner r f := quiet))"
    by (rule agree_free [OF assms(1)]) simp
  with False assms(2) show ?thesis by (auto simp: serve_close_def Let_def intro!: agree_remove)
qed

end
