(* ===== verification/Chat_System.thy ===== *)
theory Chat_System
  imports Chat_Views Server_Life
begin

text \<open>
  The server and its clients together, one event at a time: a client connects, a line is typed, a
  connection is closed; the messages an event leads to are received before the next. The code of
  both sides runs on the states and bytes of their own theories.
\<close>

section \<open>The two sides\<close>

record world =
  server :: srv
  apps :: "c_int \<Rightarrow> client"

text \<open>The bytes the server sends reach the clients whose connection is open.\<close>

primrec deliver_msgs ::
  "c_int set \<Rightarrow> (c_int \<times> msg_t) list \<Rightarrow> (c_int \<Rightarrow> client) \<Rightarrow> (c_int \<Rightarrow> client) option" where
  "deliver_msgs L [] A = Some A"
| "deliver_msgs L (fm # fms) A =
     (if fst fm \<in> L then
        (case serve_socket (Recv_Bytes (encode_msg (snd fm))) (zero_msg, A (fst fm)) of
           None \<Rightarrow> None
         | Some (_, _, c) \<Rightarrow> deliver_msgs L fms (A(fst fm := c)))
      else deliver_msgs L fms A)"

text \<open>The next round of the client's thread in the server gets \<open>r\<close> from its socket.\<close>

definition loop_receives :: "env \<Rightarrow> srv \<Rightarrow> recv_result \<Rightarrow> bool" where
  "loop_receives e s r \<longleftrightarrow> \<not> env_terminate e (clock s) \<and>
     env_poll e (Suc (clock s)) = Poll_Ready True \<and> env_recv e (Suc (Suc (clock s))) = r"

text \<open>
  A read of the terminal. Nobody takes the name that the code uses for having no name.
\<close>

definition readable :: "string \<Rightarrow> char list \<times> char list \<Rightarrow> bool" where
  "readable bs stk \<longleftrightarrow> bs \<noteq> [] \<and> length bs \<le> 511 \<and>
     length (fst stk) = MAX_MSG_LEN \<and> MAX_MSG_LEN \<le> length (snd stk)"

definition reserved_name :: "string \<Rightarrow> bool" where
  "reserved_name t \<longleftrightarrow> parse_cmd t = CMD_TYPE_SET_NAME \<and> argument t = UNDEF_NAME"

inductive chat_step :: "world \<Rightarrow> world \<Rightarrow> bool" where
  joins: "chat_step w \<lparr>server = s', apps = (apps w)(f := c)\<rparr>"
    if "f \<notin> live_fds (queue (server w))" and "f \<noteq> INVALID_FD"
      and "total_available_clients (queue (server w)) < MAX_CLIENT"
      and "env_malloc e (clock (server w)) = Some a" and "a \<notin> node_addrs (queue (server w))"
      and "run e (client_thread_start f) (server w) = Done Again s'" and "short (recv_ret ce)"
      and "connect_to_server ce (set_lib_params (Some params_send_to_lib) init_client) = Some (CLIENT_SUCCESS, c)"
| silent: "chat_step w (w\<lparr>apps := (apps w)(f := c)\<rparr>)"
    if "f \<in> live_fds (queue (server w))" and "readable bs stk"
      and "serve_terminal (Read_Bytes bs) ret stk (apps w f) = Some (Continue, c)"
      and "outbox c = outbox (apps w f)"
| speaks: "chat_step w \<lparr>server = s', apps = A\<rparr>"
    if "f \<in> live_fds (queue (server w))" and "readable bs stk" and "\<not> reserved_name (line_text bs)"
      and "serve_terminal (Read_Bytes bs) ret stk (apps w f) = Some (Continue, c)"
      and "outbox c = outbox (apps w f) @ [m]"
      and "loop_receives e (server w) (Recv_Bytes (encode_msg m))"
      and "run e (client_thread_loop f) (server w) = Done ctl s'"
      and "sent s' = sent (server w) @ out"
      and "deliver_msgs (live_fds (queue s')) out ((apps w)(f := c)) = Some A"
| closes: "chat_step w \<lparr>server = s', apps = A\<rparr>"
    if "f \<in> live_fds (queue (server w))"
      and "loop_receives e (server w) Recv_Eof"
      and "run e (client_thread_loop f) (server w) = Done ctl s'"
      and "sent s' = sent (server w) @ out"
      and "deliver_msgs (live_fds (queue s')) out (apps w) = Some A"

inductive chat_reach :: "world \<Rightarrow> bool" where
  start: "chat_reach \<lparr>server = init_srv_state, apps = (\<lambda>_. init_client)\<rparr>"
| step: "chat_reach w \<Longrightarrow> chat_step w w' \<Longrightarrow> chat_reach w'"

inductive_cases chat_stepE: "chat_step w w'"

section \<open>Delivery implements delivery\<close>

lemma agree_cong: "agree r V \<Longrightarrow> (\<And>f. f \<in> reg_fds r \<Longrightarrow> V' f = V f) \<Longrightarrow> agree r V'"
  using map_of_None_fds [of r] by (metis agree_def option.distinct(1))

lemma deliver_msgs_ok:
  assumes "\<forall>(g, m) \<in> set out. deliverable m" and "\<forall>g \<in> L. online (A g) \<and> abs_client (A g) = V g"
  shows "\<exists>A'. deliver_msgs L out A = Some A' \<and>
     (\<forall>g \<in> L. online (A' g) \<and> abs_client (A' g) = deliver (map abs_msg out) V g)"
  using assms
proof (induction out arbitrary: A V)
  case (Cons fm out)
  obtain g m where fm: "fm = (g, m)" by fastforce
  with Cons.prems have m: "deliverable m" "fine_msg m" by (auto simp: deliverable_def)
  have out: "\<forall>(g, m) \<in> set out. deliverable m" using Cons.prems(1) by simp
  have next_V: "deliver (map abs_msg (fm # out)) V = deliver (map abs_msg out) (V(g := hear (V g) (abs_request m)))"
    by (simp add: fm abs_msg_def abs_request_def)
  show ?case
  proof (cases "g \<in> L")
    case True
    with Cons.prems(2) have on: "online (A g)" and v: "abs_client (A g) = V g" by auto
    obtain c where c: "serve_socket (Recv_Bytes (encode_msg m)) (zero_msg, A g) = Some (Continue, m, c)"
      "hears (A g) m c"
      using serve_socket_hears [OF on, of zero_msg "encode_msg m"] m recv_fine by auto
    have "\<forall>h \<in> L. online ((A(g := c)) h) \<and> abs_client ((A(g := c)) h) = (V(g := hear (V g) (abs_request m))) h"
      using Cons.prems(2) c(2) v by (auto simp: hears_def)
    from Cons.IH [OF out this] obtain A' where "deliver_msgs L out (A(g := c)) = Some A'"
      and "\<forall>h \<in> L. online (A' h) \<and>
        abs_client (A' h) = deliver (map abs_msg out) (V(g := hear (V g) (abs_request m))) h"
      by blast
    with c(1) True fm show ?thesis unfolding next_V by (intro exI [of _ A']) simp
  next
    case False
    then have "\<forall>h \<in> L. online (A h) \<and> abs_client (A h) = (V(g := hear (V g) (abs_request m))) h"
      using Cons.prems(2) by auto
    from Cons.IH [OF out this] obtain A' where "deliver_msgs L out A = Some A'"
      and "\<forall>h \<in> L. online (A' h) \<and>
        abs_client (A' h) = deliver (map abs_msg out) (V(g := hear (V g) (abs_request m))) h"
      by blast
    with False fm show ?thesis unfolding next_V by (intro exI [of _ A']) simp
  qed
qed simp

text \<open>Every message of the server can be delivered.\<close>

lemma names_partner_simps [simp]:
  "names_partner ty \<longleftrightarrow> ty \<in> {MSG_CLIENT_ACCEPT_CONNECTION_ACK, MSG_CLIENT_CHAT_READY}"
  by (auto simp: names_partner_def)

lemma serve_names_short:
  assumes "wf_queue q" and "serve (abs_queue q) f ty t = Some (r', out)"
  shows "\<forall>(g, ty', s) \<in> set out. names_partner ty' \<longrightarrow> length s < MAX_CLIENT_NAME_LEN"
proof -
  have n: "length (reg_name (abs_queue q) h) < MAX_CLIENT_NAME_LEN" for h
    using client_name_props(2) [OF assms(1)] by (simp add: reg_name_abs)
  have accept: "\<forall>(g, ty', s) \<in> set out. names_partner ty' \<longrightarrow> length s < MAX_CLIENT_NAME_LEN"
    if "serve_accept (abs_queue q) f = Some (r', out)"
    using that n by (auto simp: serve_accept_def Let_def split: if_splits)
  show ?thesis
    using assms(2) accept
    by (cases ty) (auto simp: serve_def serve_set_name_def serve_connect_def serve_decline_def
        serve_tx_def Let_def split: if_splits option.splits)
qed

lemma serve_close_names: "serve_close r f = (r', out) \<Longrightarrow> \<forall>(g, ty', s) \<in> set out. \<not> names_partner ty'"
  by (auto simp: serve_close_def Let_def split: if_splits)

lemma all_deliverable:
  assumes "list_all (\<lambda>fm. fine_msg (snd fm)) ms"
    and "\<forall>(g, ty', s) \<in> set (map abs_msg ms). names_partner ty' \<longrightarrow> length s < MAX_CLIENT_NAME_LEN"
  shows "\<forall>(g, m) \<in> set ms. deliverable m"
  using assms by (auto simp: deliverable_def list_all_iff abs_msg_def)

section \<open>One round of a client's thread\<close>

lemma run_loop_bytes:
  assumes "loop_receives e s (Recv_Bytes (encode_msg m))" and "fine_msg m"
  shows "run e (client_thread_loop f) s =
     run e (handle_rx_msg m f (Ret Again)) (tick (tick (tick s)))"
  using assms by (simp add: client_thread_loop_def wait_to_recv_something_def loop_receives_def recv_fine)

lemma run_loop_eof:
  assumes "loop_receives e s Recv_Eof"
  shows "run e (client_thread_loop f) s =
     run e (client_closed_conn f (Ret (Leave ERR_CLIENT_CLOSED_CONN))) (tick (tick (tick s)))"
  using assms by (simp add: client_thread_loop_def wait_to_recv_something_def loop_receives_def)

lemma idle_tick [simp]: "idle (s\<lparr>clock := t\<rparr>) = idle s"
  by (simp add: idle_def)

section \<open>The invariant\<close>

definition good :: "world \<Rightarrow> bool" where
  "good w \<longleftrightarrow> idle (server w) \<and> (\<forall>f \<in> live_fds (queue (server w)). online (apps w f)) \<and>
     agree (abs_queue (queue (server w))) (\<lambda>f. abs_client (apps w f))"

text \<open>After a request or a closed connection.\<close>

lemma good_after:
  assumes "serves e h k s (r, out)" and "\<forall>f \<in> reg_fds r. online (A f)"
    and "agree r (deliver out (\<lambda>f. abs_client (A f)))"
    and "\<forall>(g, ty', s) \<in> set out. names_partner ty' \<longrightarrow> length s < MAX_CLIENT_NAME_LEN"
  shows "\<exists>s' ms A'. run e (h k) s = run e k s' \<and> sent s' = sent s @ ms \<and> map abs_msg ms = out \<and>
     deliver_msgs (live_fds (queue s')) ms A = Some A' \<and> good \<lparr>server = s', apps = A'\<rparr> \<and>
     abs_queue (queue s') = r \<and>
     (\<forall>g \<in> reg_fds r. abs_client (A' g) = deliver out (\<lambda>f. abs_client (A f)) g)"
proof -
  obtain s' ms where s': "run e (h k) s = run e k s'" "idle s'" "abs_queue (queue s') = r"
    and ms: "sent s' = sent s @ ms" "list_all (\<lambda>fm. fine_msg (snd fm)) ms" "map abs_msg ms = out"
    using assms(1) by (auto simp: serves_def)
  have live: "live_fds (queue s') = reg_fds r" using s'(3) reg_fds_abs by metis
  have "\<forall>(g, m) \<in> set ms. deliverable m"
    by (rule all_deliverable [OF ms(2)]) (use assms(4) ms(3) in simp)
  then obtain A' where A': "deliver_msgs (live_fds (queue s')) ms A = Some A'"
    and all: "\<forall>g \<in> live_fds (queue s'). online (A' g) \<and>
      abs_client (A' g) = deliver (map abs_msg ms) (\<lambda>f. abs_client (A f)) g"
    using deliver_msgs_ok [of ms "live_fds (queue s')" A "\<lambda>f. abs_client (A f)"] assms(2) live by auto
  have "agree r (\<lambda>f. abs_client (A' f))"
    by (rule agree_cong [OF assms(3)]) (use all ms(3) live in simp)
  then have "good \<lparr>server = s', apps = A'\<rparr>" using s'(2,3) all by (simp add: good_def)
  with s'(1,3) ms A' all live show ?thesis by auto
qed

lemma good_close:
  assumes "good w" and "f \<in> live_fds (queue (server w))" and "loop_receives e (server w) Recv_Eof"
  shows "\<exists>s' out A. run e (client_thread_loop f) (server w) = Done (Leave ERR_CLIENT_CLOSED_CONN) s' \<and>
     sent s' = sent (server w) @ out \<and> deliver_msgs (live_fds (queue s')) out (apps w) = Some A \<and>
     good \<lparr>server = s', apps = A\<rparr>"
proof -
  let ?s = "tick (tick (tick (server w)))" and ?k = "Ret (Leave ERR_CLIENT_CLOSED_CONN)"
  let ?r = "abs_queue (queue (server w))"
  have i: "idle ?s" using assms(1) by (simp add: good_def)
  obtain r out where ro: "serve_close ?r f = (r, out)" by fastforce
  have "reg_fds r \<subseteq> reg_fds ?r"
    using ro by (auto simp: serve_close_def Let_def reg_fds_remove reg_links.a.live_put split: if_splits)
  then have on: "\<forall>f \<in> reg_fds r. online (apps w f)"
    using assms(1) by (auto simp: good_def reg_fds_abs)
  have "serves e (client_closed_conn f) ?k ?s (r, out)"
    using serves_close [OF i, of e f ?k] ro by simp
  from good_after [OF this on agree_close [OF _ ro]] serve_close_names [OF ro] assms(1)
  show ?thesis unfolding run_loop_eof [OF assms(3)] by (fastforce simp: good_def)
qed

text \<open>
  A line typed: the client, and if it sends something the server, run on in defined behaviour.
  \<open>mirrors\<close>: registry and views after the request are those of \<open>serve\<close> and \<open>deliver\<close>.
\<close>

definition mirrors :: "world \<Rightarrow> c_int \<Rightarrow> request \<Rightarrow> view \<Rightarrow> world \<Rightarrow> bool" where
  "mirrors w f rq v w' \<longleftrightarrow>
     (\<exists>out. serve (abs_queue (queue (server w))) f (fst rq) (snd rq) = Some (abs_queue (queue (server w')), out) \<and>
        (\<forall>g \<in> live_fds (queue (server w')).
           abs_client (apps w' g) = deliver out ((\<lambda>g. abs_client (apps w g))(f := v)) g))"

lemma user_line_one: "length (snd (user_line v t)) \<le> 1"
  by (auto simp: user_line_def user_command_def split: cmd_type_t.split)

lemma reserved_not_sent:
  assumes "\<not> reserved_name t"
  shows "(MSG_SET_NAME_REQ_TYPE, UNDEF_NAME) \<notin> set (snd (user_line v t))"
  using assms by (auto simp: reserved_name_def user_line_def user_command_def UNDEF_NAME_def split: cmd_type_t.splits)

lemma serve_fds:
  assumes "wf_queue q" and "serve (abs_queue q) f ty t = Some (r', out)"
  shows "reg_fds r' = live_fds q"
proof -
  have accept: "reg_fds r' = reg_fds (abs_queue q)" if "serve_accept (abs_queue q) f = Some (r', out)"
    using that by (auto simp: serve_accept_def Let_def reg_link_def reg_set_def reg_fds_reg_map split: if_splits)
  then have "reg_fds r' = reg_fds (abs_queue q)"
    using assms(2)
    by (cases ty) (auto simp: serve_def serve_set_name_def serve_connect_def serve_decline_def serve_tx_def
        Let_def reg_link_def reg_set_def reg_fds_reg_map split: if_splits option.splits)
  then show ?thesis by (simp add: reg_fds_abs)
qed

lemma answerable_served:
  assumes "wf_queue q" and "serve (abs_queue q) f (msg_type m) t = Some ro"
  shows "answerable q f m"
  using assms
  by (auto simp: answerable_def serve_def serve_accept_def reg_partner_abs Let_def split: if_splits)

lemma good_line:
  assumes "good w" and "f \<in> live_fds (queue (server w))" and "readable bs stk"
  shows "\<exists>c. serve_terminal (Read_Bytes bs) ret stk (apps w f) = Some (Continue, c) \<and>
     (outbox c = outbox (apps w f) \<and> abs_client c = abs_client (apps w f) \<and> online c \<and>
        (bs = [NEWLINE] \<or> snd (user_line (abs_client (apps w f)) (line_text bs)) = []) \<or>
      (\<exists>m. outbox c = outbox (apps w f) @ [m] \<and> fine_msg m \<and>
        user_line (abs_client (apps w f)) (line_text bs) = (abs_client c, [abs_request m]) \<and>
        (\<forall>e. loop_receives e (server w) (Recv_Bytes (encode_msg m)) \<and> \<not> reserved_name (line_text bs) \<longrightarrow>
          (\<exists>s' out A. run e (client_thread_loop f) (server w) = Done Again s' \<and>
             sent s' = sent (server w) @ out \<and>
             deliver_msgs (live_fds (queue s')) out ((apps w)(f := c)) = Some A \<and>
             good \<lparr>server = s', apps = A\<rparr> \<and>
             mirrors w f (abs_request m) (abs_client c) \<lparr>server = s', apps = A\<rparr>))))"
proof -
  let ?q = "queue (server w)" and ?V = "\<lambda>f. abs_client (apps w f)"
  have on: "online (apps w f)" and ag: "agree (abs_queue ?q) ?V" and i: "idle (server w)"
    and fin: "f \<in> reg_fds (abs_queue ?q)"
    using assms(1,2) by (simp_all add: good_def reg_fds_abs)
  note wf = idle_wf [OF i]
  show ?thesis
  proof (cases "bs = [NEWLINE]")
    case True
    with on show ?thesis by (simp add: serve_terminal_def)
  next
    case False
    obtain b where b: "input_line (fst stk) bs = Some b" "length b = MAX_MSG_LEN" "terminated b"
      "cstr b = line_text bs"
      using input_line_eq [of bs "fst stk"] assms(3) by (auto simp: readable_def)
    obtain c where c: "process_send_msg ret (snd stk) (Some b) (apps w f) = Some c"
      and ob: "obeys (apps w f) (line_text bs) c"
      using line_obeys [OF on b(2,3), of "snd stk" ret] assms(3) b(4) by (auto simp: readable_def)
    have st: "serve_terminal (Read_Bytes bs) ret stk (apps w f) = Some (Continue, c)"
      using b(1) c False by (simp add: serve_terminal_def)
    obtain v reqs where ul: "user_line (?V f) (line_text bs) = (v, reqs)" by fastforce
    from ob ul obtain ms where ms: "outbox c = outbox (apps w f) @ ms" "list_all fine_msg ms"
      "map abs_request ms = reqs" and v: "abs_client c = v" "online c"
      by (auto simp: obeys_def)
    show ?thesis
    proof (cases ms)
      case Nil
      with ms(3) have "reqs = []" by simp
      with ul have "v = ?V f"
        by (auto simp: user_line_def user_command_def split: if_splits)
      with st ms(1) Nil v ul \<open>reqs = []\<close> show ?thesis by simp
    next
      case (Cons m ms')
      with ms(3) user_line_one [of "?V f" "line_text bs"] ul have one: "ms = [m]" "reqs = [abs_request m]"
        by (auto simp: Cons)
      have fine: "fine_msg m" using ms(2) Cons by simp
      have "\<exists>s' out A. run e (client_thread_loop f) (server w) = Done Again s' \<and>
           sent s' = sent (server w) @ out \<and>
           deliver_msgs (live_fds (queue s')) out ((apps w)(f := c)) = Some A \<and> good \<lparr>server = s', apps = A\<rparr> \<and>
           mirrors w f (abs_request m) (abs_client c) \<lparr>server = s', apps = A\<rparr>"
        if e: "loop_receives e (server w) (Recv_Bytes (encode_msg m))"
          and nr: "\<not> reserved_name (line_text bs)" for e
      proof -
        let ?s = "tick (tick (tick (server w)))"
        have nores: "(MSG_SET_NAME_REQ_TYPE, UNDEF_NAME) \<notin> set reqs"
          using reserved_not_sent [OF nr, of "?V f"] ul by simp
        obtain r out where sv: "serve (abs_queue ?q) f (msg_type m) (cstr (msg_buf m)) = Some (r, out)"
          and ag': "agree r (deliver out (?V(f := v)))"
          using agree_line [OF ag fin ul nores, of "msg_type m" "cstr (msg_buf m)"] one(2)
          by (auto simp: abs_request_def)
        have V': "(\<lambda>g. abs_client (((apps w)(f := c)) g)) = ?V(f := v)" using v(1) by auto
        have live: "\<forall>g \<in> reg_fds r. online (((apps w)(f := c)) g)"
          using serve_fds [OF wf sv] assms(1) v(2) by (simp add: good_def)
        have "serves e (handle_rx_msg m f) (Ret Again) ?s (r, out)"
          using serves_request [of ?s f m e "Ret Again"] i assms(2) fine sv answerable_served [OF wf sv]
          by (auto simp: fine_msg_def)
        from good_after [OF this live] ag' serve_names_short [OF wf sv]
        obtain s' ms' A' where "run e (handle_rx_msg m f (Ret Again)) ?s = run e (Ret Again) s'"
          "sent s' = sent ?s @ ms'" "deliver_msgs (live_fds (queue s')) ms' ((apps w)(f := c)) = Some A'"
          "good \<lparr>server = s', apps = A'\<rparr>" and r: "abs_queue (queue s') = r"
            "\<forall>g \<in> reg_fds r. abs_client (A' g) = deliver out (?V(f := v)) g"
          unfolding V' by blast
        moreover have "live_fds (queue s') = reg_fds r" using r(1) reg_fds_abs by metis
        then have "mirrors w f (abs_request m) (abs_client c) \<lparr>server = s', apps = A'\<rparr>"
          using sv r v(1) by (simp add: mirrors_def abs_request_def)
        ultimately show ?thesis unfolding run_loop_bytes [OF e fine] by auto
      qed
      moreover have "user_line (?V f) (line_text bs) = (abs_client c, [abs_request m])"
        using ul one(2) v(1) by simp
      ultimately show ?thesis using st ms(1) one(1) fine by blast
    qed
  qed
qed

end
