(* ===== verification/Chat_Correct.thy ===== *)
theory Chat_Correct
  imports Chat_System
begin

text \<open>The properties of server and clients together.\<close>

section \<open>Agreement\<close>

lemma good_start: "good \<lparr>server = init_srv_state, apps = (\<lambda>_. init_client)\<rparr>"
  using wf_init_queue
  by (simp add: good_def idle_def init_srv_state_def agree_def abs_queue_def init_queue_def
      wf_registry_def live_fds_def)

lemma abs_add_node:
  "abs_queue (add_node f self a q) =
     abs_queue q @ [(f, \<lparr>e_name = default_name f, e_status = CHAT_STATUS_FREE, e_partner = INVALID_FD\<rparr>)]"
  by (simp add: abs_queue_def add_node_def entry_of_def)

text \<open>The start of every client.\<close>

abbreviation fresh_client :: client where
  "fresh_client \<equiv> set_lib_params (Some params_send_to_lib) init_client"

lemma fresh: "wf_client fresh_client" "abs_client fresh_client = quiet"
  by (simp_all add: set_lib_params_def wf_client_def check_lib_params_def params_send_to_lib_def
      init_client_def abs_client_def quiet_def)

lemma connected_online:
  assumes "short (recv_ret ce)" and "connect_to_server ce fresh_client = Some (CLIENT_SUCCESS, c)"
  shows "online c" "abs_client c = quiet"
proof -
  obtain ok ts ms where "connect_to_server ce fresh_client =
       Some (if ok then CLIENT_SUCCESS else CONNECTION_FAILED,
         fresh_client\<lparr>sock := socket_ret ce, terminal := terminal fresh_client @ ts,
           outbox := outbox fresh_client @ ms\<rparr>)" "ok \<longrightarrow> socket_ret ce \<noteq> INVALID_FD"
    using connect_eq [OF fresh(1) assms(1)] by blast
  then have "socket_ret ce \<noteq> INVALID_FD" and c: "c = fresh_client\<lparr>sock := socket_ret ce,
      terminal := terminal fresh_client @ ts, outbox := outbox fresh_client @ ms\<rparr>"
    using assms(2) by (auto split: if_splits)
  then show "online c" "abs_client c = quiet" using fresh by (simp_all add: online_def)
qed

lemma good_join:
  assumes "good w" and "f \<notin> live_fds (queue (server w))" and "f \<noteq> INVALID_FD"
    and "total_available_clients (queue (server w)) < MAX_CLIENT"
    and "env_malloc e (clock (server w)) = Some a" and "a \<notin> node_addrs (queue (server w))"
    and "run e (client_thread_start f) (server w) = Done Again s'"
    and "online c" and "abs_client c = quiet"
  shows "good \<lparr>server = s', apps = (apps w)(f := c)\<rparr>"
proof -
  let ?q = "queue (server w)"
  have i: "idle (server w)" and ag: "agree (abs_queue ?q) (\<lambda>g. abs_client (apps w g))"
    using assms(1) by (simp_all add: good_def)
  obtain s2 where "run e (client_thread_start f) (server w) =
        Done (if handshake_ok e (Suc (clock (server w))) then Again else Leave ERR_CONN_EST) s2"
    and "\<not> mutex s2" and "queue s2 = add_node f (env_self e) a ?q"
    using run_thread_start [OF i assms(4,5)] by blast
  then have s': "\<not> mutex s'" "queue s' = add_node f (env_self e) a ?q" using assms(7) by auto
  have "wf_queue (queue s')"
    unfolding s'(2) by (rule wf_add_node [OF idle_wf [OF i] assms(3,2,6,4)])
  moreover have "default_name f \<noteq> UNDEF_NAME" by (simp add: default_name_def UNDEF_NAME_def)
  then have "agree (abs_queue (queue s')) (\<lambda>g. abs_client (((apps w)(f := c)) g))"
    using agree_add [OF ag, of f "default_name f"] assms(2,3,9)
    by (simp add: s'(2) abs_add_node reg_fds_abs fun_upd_def if_distrib cong: if_cong)
  ultimately show ?thesis using assms(1,8) s' by (simp add: good_def idle_def)
qed

lemma good_silent:
  assumes "good w" and "f \<in> live_fds (queue (server w))" and "readable bs stk"
    and "serve_terminal (Read_Bytes bs) ret stk (apps w f) = Some (Continue, c)"
    and "outbox c = outbox (apps w f)"
  shows "good (w\<lparr>apps := (apps w)(f := c)\<rparr>)"
proof -
  have "online c" "abs_client c = abs_client (apps w f)"
    using good_line [OF assms(1-3), of ret] assms(4,5) by auto
  moreover from this have "(\<lambda>g. abs_client (((apps w)(f := c)) g)) = (\<lambda>g. abs_client (apps w g))"
    by auto
  ultimately show ?thesis using assms(1) unfolding good_def by auto
qed

lemma good_speaks:
  assumes "good w" and "f \<in> live_fds (queue (server w))" and "readable bs stk"
    and "\<not> reserved_name (line_text bs)"
    and "serve_terminal (Read_Bytes bs) ret stk (apps w f) = Some (Continue, c)"
    and "outbox c = outbox (apps w f) @ [m]"
    and "loop_receives e (server w) (Recv_Bytes (encode_msg m))"
    and "run e (client_thread_loop f) (server w) = Done ctl s'"
    and "sent s' = sent (server w) @ out"
    and "deliver_msgs (live_fds (queue s')) out ((apps w)(f := c)) = Some A"
  shows "good \<lparr>server = s', apps = A\<rparr>"
  using good_line [OF assms(1-3), of ret] assms(4-10) by fastforce

lemma good_step: "good w \<Longrightarrow> chat_step w w' \<Longrightarrow> good w'"
proof (erule chat_stepE)
  fix f e a s' ce c
  assume "good w" "f \<notin> live_fds (queue (server w))" "f \<noteq> INVALID_FD"
    "total_available_clients (queue (server w)) < MAX_CLIENT"
    "env_malloc e (clock (server w)) = Some a" "a \<notin> node_addrs (queue (server w))"
    "run e (client_thread_start f) (server w) = Done Again s'" "short (recv_ret ce)"
    "connect_to_server ce fresh_client = Some (CLIENT_SUCCESS, c)"
    "w' = \<lparr>server = s', apps = (apps w)(f := c)\<rparr>"
  then show "good w'" using good_join [of w f e a s' c] connected_online [of ce c] by simp
next
  fix f bs stk ret c
  assume "good w" "f \<in> live_fds (queue (server w))" "readable bs stk"
    "serve_terminal (Read_Bytes bs) ret stk (apps w f) = Some (Continue, c)"
    "outbox c = outbox (apps w f)" "w' = w\<lparr>apps := (apps w)(f := c)\<rparr>"
  then show "good w'" using good_silent by simp
next
  fix f bs stk ret c m e ctl s' out A
  assume "good w" "f \<in> live_fds (queue (server w))" "readable bs stk" "\<not> reserved_name (line_text bs)"
    "serve_terminal (Read_Bytes bs) ret stk (apps w f) = Some (Continue, c)"
    "outbox c = outbox (apps w f) @ [m]"
    "loop_receives e (server w) (Recv_Bytes (encode_msg m))"
    "run e (client_thread_loop f) (server w) = Done ctl s'" "sent s' = sent (server w) @ out"
    "deliver_msgs (live_fds (queue s')) out ((apps w)(f := c)) = Some A"
    "w' = \<lparr>server = s', apps = A\<rparr>"
  then show "good w'" using good_speaks [of w f bs stk ret c m e ctl s' out A] by simp
next
  fix f e ctl s' out A
  assume a: "good w" "f \<in> live_fds (queue (server w))" "loop_receives e (server w) Recv_Eof"
    "run e (client_thread_loop f) (server w) = Done ctl s'" "sent s' = sent (server w) @ out"
    "deliver_msgs (live_fds (queue s')) out (apps w) = Some A" "w' = \<lparr>server = s', apps = A\<rparr>"
  from good_close [OF a(1-3)] a(4-7) show "good w'" by auto
qed

lemma reach_good: "chat_reach w \<Longrightarrow> good w"
  by (induction rule: chat_reach.induct) (auto intro: good_start good_step)


text \<open>A connection set up with nothing lost on the way.\<close>

definition joining_env :: env where
  "joining_env = example_env\<lparr>env_malloc := Some,
     env_recv := (\<lambda>_. Recv_Bytes (encode_msg (set_type MSG_CONN_ESTABLISH_ACK zero_msg)))\<rparr>"

lemma fine_ack: "fine_msg (set_type MSG_CONN_ESTABLISH_ACK zero_msg)"
  by (rule fine_plain) simp

lemma handshake_ok_whole:
  assumes "env_send e t = 520"
    and "env_recv e (Suc t) = Recv_Bytes (encode_msg (set_type MSG_CONN_ESTABLISH_ACK zero_msg))"
  shows "handshake_ok e t"
  using assms length_encode_msg [of "set_type MSG_CONN_ESTABLISH_ACK zero_msg"] fine_ack
  by (simp add: handshake_ok_def recv_fine fine_msg_def sizeof_msg_def)

lemma will_connect_ok:
  assumes "will_connect e" and "short (recv_ret e)" and "wf_client c"
  shows "\<exists>c'. connect_to_server e c = Some (CLIENT_SUCCESS, c') \<and>
     outbox c' = outbox c @ [set_type MSG_CONN_ESTABLISH_ACK zero_msg]"
proof -
  obtain ok ts ms where "connect_to_server e c = Some (if ok then CLIENT_SUCCESS else CONNECTION_FAILED,
       c\<lparr>sock := socket_ret e, terminal := terminal c @ ts, outbox := outbox c @ ms\<rparr>)"
    and "ok \<longleftrightarrow> will_connect e" and "ok \<longrightarrow> ms = [set_type MSG_CONN_ESTABLISH_ACK zero_msg]"
    using connect_eq [OF assms(3,2)] unfolding will_connect_def by blast
  then show ?thesis using assms(1) by simp
qed

lemma example_connects: "will_connect example_conn" "short (recv_ret example_conn)"
  using greeted_greeting short_encoded [OF greeting_fine] by (simp_all add: will_connect_def example_conn_def)

lemma can_join:
  assumes "chat_reach w" and "f \<notin> live_fds (queue (server w))" and "f \<noteq> INVALID_FD"
    and "total_available_clients (queue (server w)) < MAX_CLIENT"
    and "a \<notin> node_addrs (queue (server w))"
  shows "\<exists>w'. chat_reach w' \<and> queue (server w') = add_node f 0 a (queue (server w))"
proof -
  have i: "idle (server w)" using reach_good [OF assms(1)] by (simp add: good_def)
  let ?e = "joining_env\<lparr>env_malloc := \<lambda>_. Some a\<rparr>"
  have m: "env_malloc ?e (clock (server w)) = Some a" and self: "env_self ?e = 0" by (simp_all add: joining_env_def example_env_def)
  have "handshake_ok ?e (Suc (clock (server w)))"
    by (rule handshake_ok_whole) (simp_all add: joining_env_def example_env_def)
  then obtain s' where s': "run ?e (client_thread_start f) (server w) = Done Again s'"
    "queue s' = add_node f 0 a (queue (server w))"
    using run_thread_start [OF i assms(4) m, of f] self by auto
  obtain c where "connect_to_server example_conn fresh_client = Some (CLIENT_SUCCESS, c)"
    using will_connect_ok [OF example_connects fresh(1)] by blast
  then have "chat_step w \<lparr>server = s', apps = (apps w)(f := c)\<rparr>"
    using joins [OF assms(2,3,4) m assms(5) s'(1) example_connects(2)] by simp
  then have "chat_reach \<lparr>server = s', apps = (apps w)(f := c)\<rparr>"
    using assms(1) by (rule chat_reach.step [rotated])
  with s'(2) show ?thesis by auto
qed

lemma one_client: "\<exists>w. chat_reach w \<and> queue (server w) = add_node 4 0 0 init_queue"
proof -
  let ?w = "\<lparr>server = init_srv_state, apps = (\<lambda>_. init_client)\<rparr>"
  have "4 \<notin> live_fds (queue (server ?w))" "(4::c_int) \<noteq> INVALID_FD"
    "total_available_clients (queue (server ?w)) < MAX_CLIENT"
    "0 \<notin> node_addrs (queue (server ?w))"
    by (simp_all add: init_srv_state_def init_queue_def live_fds_def node_addrs_def)
  from can_join [OF chat_reach.start this] show ?thesis by (simp add: init_srv_state_def)
qed




section \<open>A line of a chat\<close>

definition said :: "string \<Rightarrow> string \<Rightarrow> string" where
  "said name t = ''[ '' @ name @ '' ] : [ '' @ t @ '' ]\<newline>''"

lemma receive_chat_line:
  assumes "online c" and "fine_msg m" and "msg_type m = MSG_CLIENT_RX_TYPE"
  shows "serve_socket (Recv_Bytes (encode_msg m)) (rx, c) = Some (Continue, m,
     puts (said (cstr (connected_client_name c)) (cstr (msg_buf m))) c)"
proof -
  have w: "wf_client c" using assms(1) by (simp add: online_def)
  obtain p where p: "cb_parameters c = Some p" "has_msg_handle_cb p" using params_ok(5) [OF w] by blast
  have t: "terminated (connected_client_name c)" "terminated (msg_buf m)"
    using w assms(2) by (simp_all add: wf_client_def fine_msg_def)
  show ?thesis
    using p t assms(3) by (simp add: serve_socket_def Let_def recv_fine [OF assms(2)] msg_handle_cb_def
        handle_rx_msg_lib_def printf_s_eq strlen_eq said_def)
qed

text \<open>
  C35: A line typed in a chat appears at the partner, whole and only there: the client sends it,
  the server relays it in one round without changing the list, and the partner's client prints it
  behind the name it knows its partner by; no other client receives anything.
\<close>

theorem chat_line_reaches_partner:
  assumes "chat_reach w" and "f \<in> live_fds (queue (server w))" and "readable bs stk" and "bs \<noteq> [NEWLINE]"
    and "busy_in_chat (apps w f)" and "line_text bs \<noteq> DISCONNECT_CMD"
    and "g = get_conn_fd_by_fd f (queue (server w))" and "g \<in> live_fds (queue (server w))" and "g \<noteq> f"
  shows "\<exists>c m. serve_terminal (Read_Bytes bs) ret stk (apps w f) = Some (Continue, c) \<and>
     outbox c = outbox (apps w f) @ [m] \<and>
     (\<forall>e. loop_receives e (server w) (Recv_Bytes (encode_msg m)) \<longrightarrow>
       (\<exists>s' out. run e (client_thread_loop f) (server w) = Done Again s' \<and>
          queue s' = queue (server w) \<and> sent s' = sent (server w) @ out \<and>
          deliver_msgs (live_fds (queue s')) out ((apps w)(f := c)) = Some ((apps w)(f := c,
            g := puts (said (cstr (connected_client_name (apps w g))) (line_text bs)) (apps w g)))))"
proof -
  let ?q = "queue (server w)"
  have gd: "good w" by (rule reach_good [OF assms(1)])
  then have i: "idle (server w)" and on: "online (apps w f)" "online (apps w g)"
    and ag: "agree (abs_queue ?q) (\<lambda>g. abs_client (apps w g))"
    using assms(2,8) by (simp_all add: good_def)
  note wf = idle_wf [OF i]
  have st: "get_client_chatting_status_by_fd f ?q = CHAT_STATUS_BUSY"
    using agree_entry(1) [OF ag, of f] assms(2,5) wf by (simp add: reg_fds_abs reg_status_abs)
  have gi: "g \<noteq> INVALID_FD" using invalid_not_live [OF wf] assms(8) by auto
  obtain b where b: "input_line (fst stk) bs = Some b" "length b = MAX_MSG_LEN" "terminated b"
    "cstr b = line_text bs"
    using input_line_eq [of bs "fst stk"] assms(3) by (auto simp: readable_def)
  obtain c where c: "process_send_msg ret (snd stk) (Some b) (apps w f) = Some c"
    and ob: "obeys (apps w f) (line_text bs) c"
    using line_obeys [OF on(1) b(2,3), of "snd stk" ret] assms(3) b(4) by (auto simp: readable_def)
  have serve: "serve_terminal (Read_Bytes bs) ret stk (apps w f) = Some (Continue, c)"
    using b(1) c assms(4) by (simp add: serve_terminal_def)
  have "user_line (abs_client (apps w f)) (line_text bs) =
      (abs_client (apps w f), [(MSG_CLIENT_TX_TYPE, line_text bs)])"
    using assms(5,6) by (simp add: user_line_def)
  then obtain m where m: "outbox c = outbox (apps w f) @ [m]" "fine_msg m"
    "msg_type m = MSG_CLIENT_TX_TYPE" "cstr (msg_buf m) = line_text bs"
    using ob by (auto simp: obeys_def abs_request_def)
  let ?rx = "set_type MSG_CLIENT_RX_TYPE m"
  have fine: "fine_msg ?rx" using m(2) by (simp add: fine_set_type)
  have "\<exists>s' out. run e (client_thread_loop f) (server w) = Done Again s' \<and>
      queue s' = ?q \<and> sent s' = sent (server w) @ out \<and>
      deliver_msgs (live_fds (queue s')) out ((apps w)(f := c)) = Some ((apps w)(f := c,
        g := puts (said (cstr (connected_client_name (apps w g))) (line_text bs)) (apps w g)))"
    if e: "loop_receives e (server w) (Recv_Bytes (encode_msg m))" for e
  proof -
    let ?s = "tick (tick (tick (server w)))"
    have "run e (client_thread_loop f) (server w) = run e (handle_tx_msg f m (Ret Again)) ?s"
      unfolding run_loop_bytes [OF e m(2)] by (simp add: handle_rx_msg_def m(3))
    also have "\<dots> = Done Again (emit [(g, ?rx)] ?s)"
      using run_tx_forward [of ?s f g m e "Ret Again"] i st assms(6,7) gi m(2,4)
      by (simp add: fine_msg_def)
    finally have "run e (client_thread_loop f) (server w) = Done Again (emit [(g, ?rx)] ?s)" .
    then show ?thesis
      using receive_chat_line [OF on(2) fine, of zero_msg] assms(8,9) m(4)
      by (intro exI [of _ "emit [(g, ?rx)] ?s"] exI [of _ "[(g, ?rx)]"]) simp
  qed
  with serve m(1) show ?thesis by blast
qed

text \<open>A line typed by a client of a reachable world, with nothing lost on the way.\<close>

lemma can_type:
  assumes "chat_reach w" and "f \<in> live_fds (queue (server w))" and "length t < 511" and "t \<noteq> []"
    and "NUL \<notin> set t" and "\<not> is_blank (hd t)" and "\<not> reserved_name t"
    and "user_line (abs_client (apps w f)) t = (v, [rq])"
  shows "\<exists>w'. chat_reach w' \<and> mirrors w f rq v w'"
proof -
  let ?bs = "t @ [NEWLINE]" and ?stk = "stack example_round"
  have rd: "readable ?bs ?stk" using assms(3) by (simp add: readable_def example_round_def)
  have "dropWhile is_blank t = t" using assms(4,6) by (cases t) simp_all
  then have lt: "line_text ?bs = t" using assms(5) by (simp add: line_text_def chomp_def)
  have loud: "\<not> (?bs = [NEWLINE] \<or> snd (user_line (abs_client (apps w f)) (line_text ?bs)) = [])"
    using assms(4,8) lt by simp
  obtain c m where c: "serve_terminal (Read_Bytes ?bs) 520 ?stk (apps w f) = Some (Continue, c)"
    and m: "outbox c = outbox (apps w f) @ [m]"
    and ul: "user_line (abs_client (apps w f)) (line_text ?bs) = (abs_client c, [abs_request m])"
    and run: "\<forall>e. loop_receives e (server w) (Recv_Bytes (encode_msg m)) \<and> \<not> reserved_name (line_text ?bs) \<longrightarrow>
        (\<exists>s' out A. run e (client_thread_loop f) (server w) = Done Again s' \<and>
           sent s' = sent (server w) @ out \<and>
           deliver_msgs (live_fds (queue s')) out ((apps w)(f := c)) = Some A \<and> good \<lparr>server = s', apps = A\<rparr> \<and>
           mirrors w f (abs_request m) (abs_client c) \<lparr>server = s', apps = A\<rparr>)"
    using good_line [OF reach_good [OF assms(1)] assms(2) rd, of 520] loud by blast
  have v: "abs_client c = v" "abs_request m = rq" using ul assms(8) lt by simp_all
  have nr: "\<not> reserved_name (line_text ?bs)" using assms(7) lt by simp
  define e where "e = example_env\<lparr>env_poll := (\<lambda>_. Poll_Ready True), env_recv := (\<lambda>_. Recv_Bytes (encode_msg m))\<rparr>"
  have e: "loop_receives e (server w) (Recv_Bytes (encode_msg m))"
    by (simp add: loop_receives_def e_def example_env_def)
  obtain s' out A where s': "run e (client_thread_loop f) (server w) = Done Again s'"
    "sent s' = sent (server w) @ out" "deliver_msgs (live_fds (queue s')) out ((apps w)(f := c)) = Some A"
    "mirrors w f (abs_request m) (abs_client c) \<lparr>server = s', apps = A\<rparr>"
    using run e nr by blast
  have "chat_step w \<lparr>server = s', apps = A\<rparr>"
    by (rule speaks [OF assms(2) rd nr c m e s'(1-3)])
  with assms(1) s'(4) [unfolded v] show ?thesis by (blast intro: chat_reach.step)
qed

text \<open>Two clients, 4 and 5, in a chat with each other.\<close>

lemma view_of_status:
  assumes "chat_reach w" and "f \<in> live_fds (queue (server w))"
  shows "talking (abs_client (apps w f)) = (reg_status (abs_queue (queue (server w))) f = CHAT_STATUS_BUSY)"
    "asked (abs_client (apps w f)) = (reg_status (abs_queue (queue (server w))) f = CHAT_STATUS_REQ_PENDING)"
    "wf_queue (queue (server w))"
proof -
  have "agree (abs_queue (queue (server w))) (\<lambda>f. abs_client (apps w f))" "idle (server w)"
    using reach_good [OF assms(1)] by (simp_all add: good_def)
  then show "talking (abs_client (apps w f)) = (reg_status (abs_queue (queue (server w))) f = CHAT_STATUS_BUSY)"
    "asked (abs_client (apps w f)) = (reg_status (abs_queue (queue (server w))) f = CHAT_STATUS_REQ_PENDING)"
    "wf_queue (queue (server w))"
    using agree_entry(1,2) assms(2) idle_wf reg_fds_abs by blast+
qed

lemma default_names: "default_name 4 = ''temp_client_name_4''" "default_name 5 = ''temp_client_name_5''"
  by code_simp+

lemma two_chatting:
  "\<exists>w. chat_reach w \<and> live_fds (queue (server w)) = {4, 5} \<and> busy_in_chat (apps w 4) \<and>
     get_conn_fd_by_fd 4 (queue (server w)) = 5"
proof -
  define x :: "string \<Rightarrow> client_chat_status_t \<Rightarrow> c_int \<Rightarrow> entry"
    where "x n s p = \<lparr>e_name = n, e_status = s, e_partner = p\<rparr>" for n s p
  obtain w1 where w1: "chat_reach w1" "queue (server w1) = add_node 4 0 0 init_queue"
    using one_client by blast
  have "5 \<notin> live_fds (queue (server w1))" "(5::c_int) \<noteq> INVALID_FD"
    "total_available_clients (queue (server w1)) < MAX_CLIENT" "1 \<notin> node_addrs (queue (server w1))"
    unfolding w1(2) by (simp_all add: add_node_def init_queue_def node_addrs_def new_node_def live_fds_def)
  from can_join [OF w1(1) this] obtain w2 where w2: "chat_reach w2"
    "queue (server w2) = add_node 5 0 1 (add_node 4 0 0 init_queue)"
    using w1(2) by auto
  have r2: "abs_queue (queue (server w2)) =
      [(4, x ''temp_client_name_4'' CHAT_STATUS_FREE INVALID_FD), (5, x ''temp_client_name_5'' CHAT_STATUS_FREE INVALID_FD)]"
    unfolding w2(2) abs_add_node by (simp add: abs_queue_def init_queue_def default_names x_def)
  have l2: "4 \<in> live_fds (queue (server w2))" by (simp add: w2(2))
  let ?t = "''connect temp_client_name_5''"
  have "user_line (abs_client (apps w2 4)) ?t = (abs_client (apps w2 4), [(MSG_CONNECT_TO_CLIENT, ''temp_client_name_5'')])"
    using view_of_status(1,2) [OF w2(1) l2]
    by (simp add: r2 reg_status_def x_def user_line_def user_command_def parse_cmd_def begins_with_def
        cmd_words argument_def after_command_def)
  moreover have "\<not> reserved_name ?t" by (simp add: reserved_name_def parse_cmd_def begins_with_def cmd_words)
  ultimately obtain w3 v3 where w3: "chat_reach w3"
    "mirrors w2 4 (MSG_CONNECT_TO_CLIENT, ''temp_client_name_5'') v3 w3"
    using can_type [OF w2(1) l2, of ?t] by (auto simp: is_blank_def)
  have r3: "abs_queue (queue (server w3)) =
      [(4, x ''temp_client_name_4'' CHAT_STATUS_FREE 5), (5, x ''temp_client_name_5'' CHAT_STATUS_REQ_PENDING 4)]"
    using w3(2)
    by (simp add: mirrors_def serve_def serve_connect_def r2 reg_find_def reg_name_def reg_status_def
        reg_link_def reg_set_def reg_map_def x_def split: if_splits)
  have l3: "5 \<in> live_fds (queue (server w3))" unfolding reg_fds_abs [symmetric] r3 by (simp add: reg_fds_def)
  have "user_line (abs_client (apps w3 5)) ''yes'' =
      ((abs_client (apps w3 5))\<lparr>asked := False\<rparr>, [(MSG_CLIENT_ACCEPT_CONNECTION, [])])"
    using view_of_status(1,2) [OF w3(1) l3]
    by (simp add: r3 reg_status_def x_def user_line_def REQ_ACCEPT_STR_def)
  moreover have "\<not> reserved_name ''yes''" by (simp add: reserved_name_def parse_cmd_def begins_with_def cmd_words)
  ultimately obtain w4 v4 where w4: "chat_reach w4" "mirrors w3 5 (MSG_CLIENT_ACCEPT_CONNECTION, []) v4 w4"
    using can_type [OF w3(1) l3, of "''yes''"] by (auto simp: is_blank_def)
  have r4: "abs_queue (queue (server w4)) =
      [(4, x ''temp_client_name_4'' CHAT_STATUS_BUSY 5), (5, x ''temp_client_name_5'' CHAT_STATUS_BUSY 4)]"
    using w4(2)
    by (simp add: mirrors_def serve_def serve_accept_def r3 reg_partner_def reg_name_def reg_status_def
        reg_link_def reg_set_def reg_map_def x_def UNDEF_NAME_def Let_def split: if_splits)
  have live: "live_fds (queue (server w4)) = {4, 5}"
    unfolding reg_fds_abs [symmetric] r4 by (auto simp: reg_fds_def)
  then have l4: "4 \<in> live_fds (queue (server w4))" by simp
  have "busy_in_chat (apps w4 4)"
    using view_of_status(1) [OF w4(1) l4] by (simp add: r4 reg_status_def x_def)
  moreover have "get_conn_fd_by_fd 4 (queue (server w4)) = 5"
    using reg_partner_abs [OF view_of_status(3) [OF w4(1) l4], of 4] by (simp add: r4 reg_partner_def x_def)
  ultimately show ?thesis using w4(1) live by blast
qed

theorem chat_line_reaches_partner_witness:
  "\<exists>w c m. chat_reach w \<and>
     serve_terminal (Read_Bytes (''hi'' @ [NEWLINE])) 520 (stack example_round) (apps w 4) = Some (Continue, c) \<and>
     outbox c = outbox (apps w 4) @ [m]"
proof -
  obtain w where w: "chat_reach w" "live_fds (queue (server w)) = {4, 5}" "busy_in_chat (apps w 4)"
    "get_conn_fd_by_fd 4 (queue (server w)) = 5"
    using two_chatting by blast
  have "readable (''hi'' @ [NEWLINE]) (stack example_round)" by (simp add: readable_def example_round_def)
  moreover have "line_text (''hi'' @ [NEWLINE]) \<noteq> DISCONNECT_CMD"
    by (simp add: line_text_def chomp_def is_blank_def DISCONNECT_CMD_def)
  moreover have "''hi'' @ [NEWLINE] \<noteq> [NEWLINE]" "(5::c_int) \<noteq> 4" by simp_all
  moreover have "4 \<in> live_fds (queue (server w))" "5 \<in> live_fds (queue (server w))" using w(2) by simp_all
  ultimately show ?thesis
    using chat_line_reaches_partner [OF w(1), of 4 "''hi'' @ [NEWLINE]" "stack example_round" 5 520]
      w(1,3) w(4) [symmetric] by blast
qed

end
