(* ===== verification/Chat_Wire.thy ===== *)
theory Chat_Wire
  imports Chat_Correct
begin

text \<open>
  What passes between the programs: the handshake, the types of the messages, the bytes on the
  wire, an answer that the two sides read differently, and the texts for status codes.
\<close>

section \<open>The handshake\<close>

text \<open>
  C36: The two halves of the handshake fit: if nothing is lost on the way, the server's thread
  and \<^verbatim>\<open>connect_to_server\<close> both succeed, the one on the acknowledgement the other sends, the
  other on the greeting the one sends.
\<close>

theorem handshake_succeeds_on_both_sides:
  assumes "idle s" and "total_available_clients (queue s) < MAX_CLIENT"
    and "env_malloc e (clock s) = Some a" and "env_send e (Suc (clock s)) = 520" and "wf_client c"
    and "connect_ret ce = 0" and "select_ret ce = 1" and "socket_ret ce \<noteq> INVALID_FD" and "send_ret ce = 520"
    and "recv_ret ce = Recv_Bytes (encode_msg greeting)"
    and "env_recv e (Suc (Suc (clock s))) = Recv_Bytes (encode_msg answer)"
    and "greeting = text_msg MSG_CONN_ESTABLISH_REQ SERVER_UNIQUEUE_ID"
    and "answer = set_type MSG_CONN_ESTABLISH_ACK zero_msg"
  shows "\<exists>s' c'. run e (client_thread_start f) s = Done Again s' \<and> sent s' = sent s @ [(f, greeting)] \<and>
     connect_to_server ce c = Some (CLIENT_SUCCESS, c') \<and> outbox c' = outbox c @ [answer]"
proof -
  have "handshake_ok e (Suc (clock s))" using handshake_ok_whole assms(4,11,13) by simp
  then obtain s' where "run e (client_thread_start f) s = Done Again s'" "sent s' = sent s @ [(f, greeting)]"
    using run_thread_start [OF assms(1-3), of f] assms(12) by auto
  moreover have "will_connect ce" "short (recv_ret ce)"
    using assms(6-10,12) greeted_greeting short_encoded [OF greeting_fine] by (simp_all add: will_connect_def)
  then obtain c' where "connect_to_server ce c = Some (CLIENT_SUCCESS, c')" "outbox c' = outbox c @ [answer]"
    using will_connect_ok [OF _ _ assms(5)] assms(13) by blast
  ultimately show ?thesis by blast
qed

theorem handshake_succeeds_on_both_sides_witness:
  "\<exists>s' c'. run joining_env (client_thread_start 7) init_srv_state = Done Again s' \<and>
     connect_to_server example_conn example_client = Some (CLIENT_SUCCESS, c')"
proof -
  have "idle init_srv_state" "total_available_clients (queue init_srv_state) < MAX_CLIENT"
    by (simp_all add: idle_def init_srv_state_def wf_init_queue) (simp add: init_queue_def)
  moreover have "env_malloc joining_env (clock init_srv_state) = Some (clock init_srv_state)"
    "env_send joining_env (Suc (clock init_srv_state)) = 520"
    "env_recv joining_env (Suc (Suc (clock init_srv_state))) =
      Recv_Bytes (encode_msg (set_type MSG_CONN_ESTABLISH_ACK zero_msg))"
    by (simp_all add: joining_env_def example_env_def)
  moreover have "wf_client example_client" using online_example by (simp add: online_def)
  moreover have "connect_ret example_conn = 0" "select_ret example_conn = 1"
    "socket_ret example_conn \<noteq> INVALID_FD" "send_ret example_conn = 520"
    "recv_ret example_conn = Recv_Bytes (encode_msg (text_msg MSG_CONN_ESTABLISH_REQ SERVER_UNIQUEUE_ID))"
    by (simp_all add: example_conn_def)
  ultimately show ?thesis
    using handshake_succeeds_on_both_sides [OF _ _ _ _ _ _ _ _ _ _ _ refl refl, of init_srv_state
        joining_env "clock init_srv_state" example_client example_conn 7] by blast
qed

section \<open>Messages\<close>



text \<open>
  C38: An accept of a client whose request is no longer open gets the answer that also means
  acceptance, which names \<open>SOMETHING_IS_WRONG\<close>. The client takes it for the start of a chat with a
  partner of that name, while the server changes nothing: as long as the server does not
  have the client as busy, it drops every line of that chat.
\<close>

theorem late_accept_starts_phantom_chat:
  assumes "idle s" and "g = get_conn_fd_by_fd f (queue s)" and "g \<noteq> INVALID_FD"
    and "client_name g (queue s) \<noteq> UNDEF_NAME"
    and "get_client_chatting_status_by_fd g (queue s) \<noteq> CHAT_STATUS_BUSY"
    and "get_client_chatting_status_by_fd f (queue s) = CHAT_STATUS_FREE" and "online c"
  shows "\<exists>m c'. run e (handle_conn_accept f msg (Ret ())) s = Done () (emit [(f, m)] s) \<and>
     serve_socket (Recv_Bytes (encode_msg m)) (rx, c) = Some (Continue, m, c') \<and>
     busy_in_chat c' \<and> cstr (connected_client_name c') = ''SOMETHING_IS_WRONG'' \<and>
     run e (handle_tx_msg f line (Ret ())) (emit [(f, m)] s) = Done () (emit [(f, m)] s)"
proof -
  let ?m = "text_msg MSG_CLIENT_ACCEPT_CONNECTION_ACK ''SOMETHING_IS_WRONG''"
  have d: "deliverable ?m" by (rule deliverable_text) simp_all
  then obtain c' where c': "serve_socket (Recv_Bytes (encode_msg ?m)) (rx, c) = Some (Continue, ?m, c')"
    "hears c ?m c'"
    using serve_socket_hears [OF assms(7), of rx "encode_msg ?m"] by (auto simp: deliverable_def recv_fine)
  have v: "abs_client c' = \<lparr>talking = True, asked = False, partner = ''SOMETHING_IS_WRONG''\<rparr>"
    using c'(2) by (simp add: hears_def abs_text_request)
  have "busy_in_chat c'" "cstr (connected_client_name c') = ''SOMETHING_IS_WRONG''"
    using arg_cong [OF v, of talking] arg_cong [OF v, of partner] by simp_all
  moreover have "run e (handle_conn_accept f msg (Ret ())) s = Done () (emit [(f, ?m)] s)"
    using run_accept_no_request [OF assms(1) assms(2) [symmetric] assms(3-5), of e msg "Ret ()"] assms(6) by simp
  moreover have "idle (emit [(f, ?m)] s)" using assms(1) by (simp add: idle_def)
  then have "run e (handle_tx_msg f line (Ret ())) (emit [(f, ?m)] s) = Done () (emit [(f, ?m)] s)"
    using run_tx_not_busy [of "emit [(f, ?m)] s" f e line "Ret ()"] assms(6) by simp
  ultimately show ?thesis using c'(1) by blast
qed

theorem late_accept_starts_phantom_chat_witness:
  "\<exists>m c'. run example_env (handle_conn_accept 5 zero_msg (Ret ()))
       (example_srv [(4, CHAT_STATUS_FREE, 5), (5, CHAT_STATUS_FREE, 4)]) =
     Done () (emit [(5, m)] (example_srv [(4, CHAT_STATUS_FREE, 5), (5, CHAT_STATUS_FREE, 4)])) \<and>
     serve_socket (Recv_Bytes (encode_msg m)) (zero_msg, example_client) = Some (Continue, m, c') \<and> busy_in_chat c'"
proof -
  let ?s = "example_srv [(4, CHAT_STATUS_FREE, 5), (5, CHAT_STATUS_FREE, 4)]"
  have i: "idle ?s" by (rule idle_example) simp_all
  have "client_name 4 (queue ?s) \<noteq> UNDEF_NAME"
    by (simp add: example_simps get_client_name_by_fd_def default_name_def UNDEF_NAME_def)
  moreover have "get_conn_fd_by_fd 5 (queue ?s) = 4" "get_client_chatting_status_by_fd 4 (queue ?s) \<noteq> CHAT_STATUS_BUSY"
    "get_client_chatting_status_by_fd 5 (queue ?s) = CHAT_STATUS_FREE"
    by (simp_all add: example_simps)
  ultimately show ?thesis
    using late_accept_starts_phantom_chat [OF i, of 4 5 example_client example_env zero_msg zero_msg]
      online_example by fastforce
qed

section \<open>Bytes\<close>

lemma take_encode:
  assumes "wf_msg m" and "8 \<le> k" and "k \<le> sizeof_msg"
  shows "take k (encode_msg m) = take 8 (encode_msg m) @ take (k - 8) (msg_buf m)"
    "drop k (encode_msg m) = drop (k - 8) (msg_buf m)" "length (take k (encode_msg m)) = k"
proof -
  have e: "encode_msg m = take 8 (encode_msg m) @ msg_buf m" "length (take 8 (encode_msg m)) = 8"
    using assms(1) by (simp_all add: encode_msg_def le32_def)
  show "take k (encode_msg m) = take 8 (encode_msg m) @ take (k - 8) (msg_buf m)"
    "drop k (encode_msg m) = drop (k - 8) (msg_buf m)"
    using assms(2) e by (metis take_append take_all_iff, metis drop_append drop_all append_Nil)
  show "length (take k (encode_msg m)) = k" using assms length_encode_msg by simp
qed

lemma recv_front:
  assumes "wf_msg m" and "8 \<le> k" and "k \<le> sizeof_msg"
  shows "recv_into zero_msg (take k (encode_msg m)) =
     set_buf (take (k - 8) (msg_buf m) @ replicate (sizeof_msg - k) NUL) m"
proof -
  let ?b = "take (k - 8) (msg_buf m) @ replicate (sizeof_msg - k) NUL"
  have z: "drop k (encode_msg zero_msg) = replicate (sizeof_msg - k) NUL"
    using take_encode(2) [OF wf_zero_msg assms(2,3)] assms(2,3) by (simp add: sizeof_msg_def)
  have w: "wf_msg (set_buf ?b m)" using assms by (simp add: wf_msg_def sizeof_msg_def)
  have "encode_msg (set_buf ?b m) = take 8 (encode_msg m) @ ?b"
    by (simp add: encode_msg_def le32_def)
  then have "take k (encode_msg m) @ drop k (encode_msg zero_msg) = encode_msg (set_buf ?b m)"
    unfolding z take_encode(1) [OF assms] by simp
  then show ?thesis
    using decode_encode_msg [OF w] length_encode_msg [OF w] take_encode(3) [OF assms]
    by (simp add: recv_into_def)
qed



section \<open>Texts for status codes\<close>

text \<open>
  The lookups of the texts for codes read inside their tables for every value of the enums,
  numbers that are no enumerator included. The client's table lacks the entry of
  \<^verbatim>\<open>CLIENT_ERR_NULL_PTR\<close>: that code, alone among the ten, gets the text of another one,
  of \<^verbatim>\<open>CLIENT_MAX_ERR\<close>, and that one gets the text for unknown codes.
\<close>

theorem status_texts:
  "(\<exists>t. errTostr err = Some t \<and> t \<in> set errStr) \<and>
   (\<exists>t. msgTypeToStr ty = Some t \<and> t \<in> set msgTypeStr) \<and>
   (\<exists>t. queueErrToStr qerr = Some t \<and> t \<in> set queueErrStr) \<and>
   (\<exists>t. chat_status_to_str st = Some t \<and> t \<in> set chat_status_str) \<and>
   map errTostr [CLIENT_SUCCESS, CONNECTION_FAILED, CLIENT_NOT_CONNECTED, CLIENT_MSG_SEND_ERR,
       CLIENT_ERR_THREAD_CREATE, CLIENT_READ_ERROR, CLIENT_READ_TIMEOUT, CLIENT_CB_PARAMS_NOT_SET,
       CLIENT_ERR_NULL_PTR, CLIENT_MAX_ERR] =
     map Some [''CLIENT_SUCCESS'', ''CONNECTION_FAILED'', ''CLIENT_NOT_CONNECTED'', ''CLIENT_MSG_SEND_ERR'',
       ''CLIENT_ERR_THREAD_CREATE'', ''CLIENT_READ_ERROR'', ''CLIENT_READ_TIMEOUT'', ''CLIENT_CB_PARAMS_NOT_SET'',
       ''CLIENT_MAX_ERR'', ''UNDEFINED_CLIENT_ERR'']"
proof (intro conjI)
  show "\<exists>t. errTostr err = Some t \<and> t \<in> set errStr" by (rule client_err_str.in_bounds)
  show "\<exists>t. msgTypeToStr ty = Some t \<and> t \<in> set msgTypeStr" by (rule msg_type_str.in_bounds)
  show "\<exists>t. queueErrToStr qerr = Some t \<and> t \<in> set queueErrStr" by (rule queue_err_str.in_bounds)
  show "\<exists>t. chat_status_to_str st = Some t \<and> t \<in> set chat_status_str" by (rule chat_status_strs.in_bounds)
qed code_simp

end
