(* ===== verification/Queue_Heap.thy ===== *)
theory Queue_Heap
  imports Queue_Facts
begin

text \<open>
  \<^verbatim>\<open>server/lib_src/server_queue.c\<close> once more, with its pointers: the nodes are cells of a
  heap linked by \<^verbatim>\<open>next\<close>, every loop follows the pointers, and \<^verbatim>\<open>free\<close> takes a cell
  away. \<open>None\<close> is an access to a cell that is not there, or a loop that does not end. The lemmas say
  that these functions do what those of \<open>Client_Queue\<close> do on the list of nodes.
\<close>

section \<open>Cells\<close>

type_synonym heap = "addr \<rightharpoonup> client_data_t \<times> addr option"

record heap_queue =
  cells :: heap
  head :: "addr option"
  count :: u8
  h_closed :: "c_int list"
  h_detached :: "tid list"
  h_freed :: "addr list"

text \<open>The loops of the file: to the node with a descriptor or a name, to the last node, and of removal.\<close>

partial_function (option) find_fd :: "c_int \<Rightarrow> heap \<Rightarrow> addr option \<Rightarrow> addr option option" where
  "find_fd f h p =
     (case p of
        None \<Rightarrow> Some None
      | Some a \<Rightarrow>
          (case h a of
             None \<Rightarrow> None
           | Some (d, nxt) \<Rightarrow> if f \<noteq> cl_fd d then find_fd f h nxt else Some (Some a)))"

partial_function (option) find_name :: "char list \<Rightarrow> heap \<Rightarrow> addr option \<Rightarrow> addr option option" where
  "find_name nm h p =
     (case p of
        None \<Rightarrow> Some None
      | Some a \<Rightarrow>
          (case h a of
             None \<Rightarrow> None
           | Some (d, nxt) \<Rightarrow>
               (case strcmp nm (cl_name d) of
                  None \<Rightarrow> None
                | Some r \<Rightarrow> if r \<noteq> 0 then find_name nm h nxt else Some (Some a))))"

partial_function (option) last_node :: "heap \<Rightarrow> addr \<Rightarrow> addr option" where
  "last_node h a =
     (case h a of
        None \<Rightarrow> None
      | Some (d, nxt) \<Rightarrow> (case nxt of None \<Rightarrow> Some a | Some b \<Rightarrow> last_node h b))"

partial_function (option) unlink_loop ::
  "c_int \<Rightarrow> heap \<Rightarrow> addr option \<Rightarrow> addr \<Rightarrow> (addr \<times> addr) option option" where
  "unlink_loop f h cur prev =
     (case cur of
        None \<Rightarrow> Some None
      | Some c \<Rightarrow>
          (case h c of
             None \<Rightarrow> None
           | Some (d, nxt) \<Rightarrow> if cl_fd d \<noteq> f then unlink_loop f h nxt c else Some (Some (prev, c))))"

section \<open>The operations\<close>

definition heap_add ::
  "addr option \<Rightarrow> tid \<Rightarrow> c_int option \<Rightarrow> heap_queue \<Rightarrow> (srv_queue_err_type_t \<times> heap_queue) option" where
  "heap_add m self fdp s =
     (case fdp of
        None \<Rightarrow> Some (ERR_NULL_PTR, s)
      | Some f \<Rightarrow>
          if MAX_CLIENT \<le> count s then Some (ERR_SERVER_QUEUE_FULL, s)
          else
            (case m of
               None \<Rightarrow> Some (ERR_MALLOC_FAILED, s)
             | Some a \<Rightarrow>
                 (case sprintf (replicate MAX_CLIENT_NAME_LEN NUL) (default_name f) of
                    None \<Rightarrow> None
                  | Some nm \<Rightarrow>
                      (let d = \<lparr>cl_chat_status = CHAT_STATUS_FREE, cl_fd = f, cl_to_fd = INVALID_FD,
                                cl_thread_id = self, cl_name = nm\<rparr>;
                           h = (cells s)(a \<mapsto> (d, None))
                       in
                       (case head s of
                          None \<Rightarrow> Some (SERVER_QUEUE_SUCC, s\<lparr>cells := h, head := Some a, count := count s + 1\<rparr>)
                        | Some p \<Rightarrow>
                            (case last_node h p of
                               None \<Rightarrow> None
                             | Some l \<Rightarrow>
                                 (case h l of
                                    None \<Rightarrow> None
                                  | Some (dl, _) \<Rightarrow>
                                      Some (SERVER_QUEUE_SUCC,
                                        s\<lparr>cells := h(l \<mapsto> (dl, Some a)), count := count s + 1\<rparr>))))))))"

text \<open>\<^verbatim>\<open>close\<close>, \<^verbatim>\<open>pthread_detach\<close>, \<^verbatim>\<open>free\<close> and the count.\<close>

definition heap_release :: "addr \<Rightarrow> client_data_t \<Rightarrow> heap_queue \<Rightarrow> heap_queue" where
  "heap_release a d s = s\<lparr>cells := (cells s)(a := None), count := count s - 1,
     h_closed := h_closed s @ [cl_fd d], h_detached := h_detached s @ [cl_thread_id d],
     h_freed := h_freed s @ [a]\<rparr>"

definition heap_remove :: "c_int \<Rightarrow> heap_queue \<Rightarrow> (srv_queue_err_type_t \<times> heap_queue) option" where
  "heap_remove f s =
     (case head s of
        None \<Rightarrow> Some (ERR_LIST_EMPTY, s)
      | Some p \<Rightarrow>
          if INVALID_FD = f then Some (ERR_NODE_NOT_FOUND, s)
          else
            (case cells s p of
               None \<Rightarrow> None
             | Some (d, nxt) \<Rightarrow>
                 if cl_fd d = f then Some (SERVER_QUEUE_SUCC, heap_release p d (s\<lparr>head := nxt\<rparr>))
                 else
                   (case unlink_loop f (cells s) nxt p of
                      None \<Rightarrow> None
                    | Some None \<Rightarrow> Some (ERR_NODE_NOT_FOUND, s)
                    | Some (Some (prev, c)) \<Rightarrow>
                        (case cells s prev of
                           None \<Rightarrow> None
                         | Some (dp, _) \<Rightarrow>
                             (case cells s c of
                                None \<Rightarrow> None
                              | Some (dc, nxt') \<Rightarrow>
                                  Some (SERVER_QUEUE_SUCC,
                                    heap_release c dc (s\<lparr>cells := (cells s)(prev \<mapsto> (dp, nxt'))\<rparr>)))))))"

text \<open>A write to the data of the node a loop over descriptors has found, and a read of it.\<close>

definition heap_write :: "addr \<Rightarrow> (client_data_t \<Rightarrow> client_data_t) \<Rightarrow> heap_queue \<Rightarrow> heap_queue option" where
  "heap_write a g s =
     (case cells s a of None \<Rightarrow> None | Some (d, nxt) \<Rightarrow> Some (s\<lparr>cells := (cells s)(a \<mapsto> (g d, nxt))\<rparr>))"

definition heap_set_name ::
  "c_int \<Rightarrow> char list option \<Rightarrow> heap_queue \<Rightarrow> (srv_queue_err_type_t \<times> heap_queue) option" where
  "heap_set_name f namep s =
     (if head s = None then Some (ERR_LIST_EMPTY, s)
      else
        (case namep of
           None \<Rightarrow> Some (ERR_NULL_PTR, s)
         | Some nm \<Rightarrow>
             if INVALID_FD = f then Some (ERR_NAME_NOT_SET, s)
             else
               (case find_fd f (cells s) (head s) of
                  None \<Rightarrow> None
                | Some None \<Rightarrow> Some (ERR_NAME_NOT_SET, s)
                | Some (Some a) \<Rightarrow>
                    (case cells s a of
                       None \<Rightarrow> None
                     | Some (d, nxt) \<Rightarrow>
                         (case strncpy (cl_name d) nm (MAX_CLIENT_NAME_LEN - 1) of
                            None \<Rightarrow> None
                          | Some b \<Rightarrow>
                              (case store_byte b (MAX_CLIENT_NAME_LEN - 1) NUL of
                                 None \<Rightarrow> None
                               | Some b' \<Rightarrow>
                                   map_option (Pair SERVER_QUEUE_SUCC) (heap_write a (\<lambda>d. d\<lparr>cl_name := b'\<rparr>) s)))))))"

definition heap_set_status ::
  "c_int \<Rightarrow> client_chat_status_t \<Rightarrow> heap_queue \<Rightarrow> (chat_err_t \<times> heap_queue) option" where
  "heap_set_status f c s =
     (if CHAT_STATUS_MAX \<le> c then Some (ERR_CHAT_INVALID_CHAT_STATUS, s)
      else if INVALID_FD = f then Some (ERR_CHAT_CLIENT_NOT_FOUND, s)
      else
        (case find_fd f (cells s) (head s) of
           None \<Rightarrow> None
         | Some None \<Rightarrow> Some (ERR_CHAT_CLIENT_NOT_FOUND, s)
         | Some (Some a) \<Rightarrow>
             map_option (Pair CHAT_SUCCESS) (heap_write a (\<lambda>d. d\<lparr>cl_chat_status := c\<rparr>) s)))"

definition heap_set_to_fd :: "c_int \<Rightarrow> c_int \<Rightarrow> heap_queue \<Rightarrow> (chat_err_t \<times> heap_queue) option" where
  "heap_set_to_fd my_fd to_f s =
     (if INVALID_FD = my_fd then Some (ERR_CHAT_CLIENT_NOT_FOUND, s)
      else
        (case find_fd my_fd (cells s) (head s) of
           None \<Rightarrow> None
         | Some None \<Rightarrow> Some (ERR_CHAT_CLIENT_NOT_FOUND, s)
         | Some (Some a) \<Rightarrow>
             map_option (Pair CHAT_SUCCESS) (heap_write a (\<lambda>d. d\<lparr>cl_to_fd := to_f\<rparr>) s)))"

text \<open>What the getters read: the field of the node found, or the default.\<close>

definition heap_read :: "'b \<Rightarrow> (client_data_t \<Rightarrow> 'b) \<Rightarrow> heap_queue \<Rightarrow> addr option option \<Rightarrow> 'b option" where
  "heap_read dflt g s r =
     (case r of
        None \<Rightarrow> None
      | Some None \<Rightarrow> Some dflt
      | Some (Some a) \<Rightarrow> map_option (g \<circ> fst) (cells s a))"

definition heap_get_status :: "c_int \<Rightarrow> heap_queue \<Rightarrow> client_chat_status_t option" where
  "heap_get_status f s =
     (if INVALID_FD = f then Some CHAT_STATUS_CLIENT_NOT_FOUND
      else heap_read CHAT_STATUS_CLIENT_NOT_FOUND cl_chat_status s (find_fd f (cells s) (head s)))"

definition heap_get_conn_fd :: "c_int \<Rightarrow> heap_queue \<Rightarrow> c_int option" where
  "heap_get_conn_fd my_fd s =
     (if INVALID_FD = my_fd then Some INVALID_FD
      else heap_read INVALID_FD cl_to_fd s (find_fd my_fd (cells s) (head s)))"

text \<open>The address of the array inside a node is the node's.\<close>

definition heap_get_name :: "c_int \<Rightarrow> heap_queue \<Rightarrow> name_ptr option" where
  "heap_get_name sock s =
     (if head s = None then Some Undef_Literal
      else if INVALID_FD = sock then Some Undef_Literal
      else
        (case find_fd sock (cells s) (head s) of
           None \<Rightarrow> None
         | Some None \<Rightarrow> Some Undef_Literal
         | Some (Some a) \<Rightarrow> Some (Node_Name a)))"

definition heap_fd_by_name :: "char list option \<Rightarrow> heap_queue \<Rightarrow> c_int option" where
  "heap_fd_by_name namep s =
     (if head s = None then Some INVALID_FD
      else
        (case namep of
           None \<Rightarrow> Some INVALID_FD
         | Some nm \<Rightarrow> heap_read INVALID_FD cl_fd s (find_name nm (cells s) (head s))))"

definition heap_status_by_name :: "char list option \<Rightarrow> heap_queue \<Rightarrow> client_chat_status_t option" where
  "heap_status_by_name namep s =
     (case namep of
        None \<Rightarrow> Some CHAT_STATUS_CLIENT_NOT_FOUND
      | Some nm \<Rightarrow> heap_read CHAT_STATUS_CLIENT_NOT_FOUND cl_chat_status s (find_name nm (cells s) (head s)))"

definition heap_check_name :: "char list option \<Rightarrow> heap_queue \<Rightarrow> name_find_type_t option" where
  "heap_check_name namep s =
     (case namep of
        None \<Rightarrow> Some NAME_FIND_ERR
      | Some nm \<Rightarrow>
          if head s = None then Some NAME_FIND_ERR
          else
            map_option (\<lambda>r. if r = None then NAME_NOT_EXIST else NAME_EXISTS)
              (find_name nm (cells s) (head s)))"

text \<open>The loops that visit every node: freeing, joining, and the list of names.\<close>

partial_function (option) free_loop :: "heap \<Rightarrow> addr option \<Rightarrow> addr list \<Rightarrow> (heap \<times> addr list) option" where
  "free_loop h p freed =
     (case p of
        None \<Rightarrow> Some (h, freed)
      | Some a \<Rightarrow>
          (case h a of
             None \<Rightarrow> None
           | Some (d, nxt) \<Rightarrow> free_loop (h(a := None)) nxt (freed @ [a])))"

definition heap_free_all :: "heap_queue \<Rightarrow> heap_queue option" where
  "heap_free_all s =
     (case free_loop (cells s) (head s) (h_freed s) of
        None \<Rightarrow> None
      | Some (h, freed) \<Rightarrow> Some (s\<lparr>cells := h, head := None, h_freed := freed\<rparr>))"

partial_function (option) join_loop :: "heap \<Rightarrow> addr option \<Rightarrow> tid list \<Rightarrow> tid list option" where
  "join_loop h p joined =
     (case p of
        None \<Rightarrow> Some joined
      | Some a \<Rightarrow>
          (case h a of
             None \<Rightarrow> None
           | Some (d, nxt) \<Rightarrow> join_loop h nxt (joined @ [cl_thread_id d])))"

definition heap_join_all :: "heap_queue \<Rightarrow> tid list option" where
  "heap_join_all s = join_loop (cells s) (head s) []"

partial_function (option) names_loop :: "heap \<Rightarrow> addr option \<Rightarrow> char list \<Rightarrow> nat \<Rightarrow> char list option" where
  "names_loop h p l list_len =
     (case p of
        None \<Rightarrow> Some l
      | Some a \<Rightarrow>
          (case h a of
             None \<Rightarrow> None
           | Some (d, nxt) \<Rightarrow>
               (case strlen (cl_name d) of
                  None \<Rightarrow> None
                | Some name_len \<Rightarrow>
                    if MAX_MSG_LEN \<le> list_len + name_len + 1 then Some l
                    else
                      (case strncat l (cl_name d) (MAX_MSG_LEN - list_len - 1) of
                         None \<Rightarrow> None
                       | Some l1 \<Rightarrow>
                           (case strlen l1 of
                              None \<Rightarrow> None
                            | Some len1 \<Rightarrow>
                                if len1 + 1 < MAX_MSG_LEN then
                                  (case strncat l1 (lit '' '') (MAX_MSG_LEN - len1 - 1) of
                                     None \<Rightarrow> None
                                   | Some l2 \<Rightarrow> names_loop h nxt l2 (len1 + 1))
                                else names_loop h nxt l1 len1)))))"

definition heap_get_list :: "char list option \<Rightarrow> heap_queue \<Rightarrow> (srv_queue_err_type_t \<times> char list option) option" where
  "heap_get_list listp s =
     (if head s = None then Some (ERR_LIST_EMPTY, listp)
      else
        (case listp of
           None \<Rightarrow> Some (ERR_NULL_PTR, None)
         | Some l \<Rightarrow> map_option (\<lambda>l'. (SERVER_QUEUE_SUCC, Some l')) (names_loop (cells s) (head s) l 0)))"

text \<open>Reading through a pointer that \<^verbatim>\<open>get_client_name_by_fd\<close> has returned.\<close>

definition heap_read_name :: "heap_queue \<Rightarrow> name_ptr \<Rightarrow> char list option" where
  "heap_read_name s p =
     (case p of
        Undef_Literal \<Rightarrow> Some (lit UNDEF_NAME)
      | Node_Name a \<Rightarrow> map_option (cl_name \<circ> fst) (cells s a))"

definition init_heap_queue :: heap_queue where
  "init_heap_queue = \<lparr>cells = Map.empty, head = None, count = 0,
                      h_closed = [], h_detached = [], h_freed = []\<rparr>"

section \<open>Chains\<close>

text \<open>From \<open>p\<close> on the cells are those of the nodes \<open>ns\<close>, in their order.\<close>

primrec chain :: "heap \<Rightarrow> addr option \<Rightarrow> client_node_t list \<Rightarrow> bool" where
  "chain h p [] \<longleftrightarrow> p = None"
| "chain h p (n # ns) \<longleftrightarrow> p = Some (node_addr n) \<and>
     (\<exists>nxt. h (node_addr n) = Some (client_data_t.truncate n, nxt) \<and> chain h nxt ns)"

lemma truncate_simps [simp]:
  "cl_fd (client_data_t.truncate n) = cl_fd n" "cl_name (client_data_t.truncate n) = cl_name n"
  "cl_chat_status (client_data_t.truncate n) = cl_chat_status n"
  "cl_to_fd (client_data_t.truncate n) = cl_to_fd n"
  "cl_thread_id (client_data_t.truncate n) = cl_thread_id n"
  by (simp_all add: client_data_t.truncate_def)

lemma chain_Nil_iff: "chain h p ns \<Longrightarrow> p = None \<longleftrightarrow> ns = []"
  by (cases ns) auto

lemma chain_cell: "chain h p ns \<Longrightarrow> n \<in> set ns \<Longrightarrow> \<exists>nxt. h (node_addr n) = Some (client_data_t.truncate n, nxt)"
  by (induction ns arbitrary: p) auto

lemma chain_other: "a \<notin> node_addr ` set ns \<Longrightarrow> chain (h(a := x)) p ns = chain h p ns"
  by (induction ns arbitrary: p) auto

lemma chain_find_fd: "chain h p ns \<Longrightarrow> find_fd f h p = Some (map_option node_addr (node_by_fd f ns))"
proof (induction ns arbitrary: p)
  case Nil
  then show ?case by (simp add: find_fd.simps node_by_fd_def)
next
  case (Cons n ns)
  then show ?case by (subst find_fd.simps) (auto simp: node_by_fd_def)
qed

lemma chain_find_name:
  "chain h p ns \<Longrightarrow> find_name nm h p = map_option (map_option node_addr) (node_by_name nm ns)"
proof (induction ns arbitrary: p)
  case Nil
  then show ?case by (simp add: find_name.simps)
next
  case (Cons n ns)
  then show ?case by (subst find_name.simps) (auto split: option.splits)
qed

lemma chain_last: "chain h (Some a) ns \<Longrightarrow> last_node h a = Some (node_addr (last ns))"
proof (induction ns arbitrary: a)
  case (Cons n ns)
  then obtain nxt where n: "a = node_addr n" "h a = Some (client_data_t.truncate n, nxt)" "chain h nxt ns"
    by auto
  then show ?case
    using Cons.IH chain_Nil_iff [OF n(3)] by (subst last_node.simps) (cases nxt; auto)
qed simp

text \<open>Appending a cell behind the last; writing to a cell; taking a cell out.\<close>

lemma chain_append:
  assumes "chain h p ns" and "ns \<noteq> []" and "distinct (map node_addr ns)" and "node_addr n \<notin> node_addr ` set ns"
    and "h (node_addr n) = Some (client_data_t.truncate n, None)"
    and "h (node_addr (last ns)) = Some (d, nxt)"
  shows "chain (h(node_addr (last ns) \<mapsto> (d, Some (node_addr n)))) p (ns @ [n])"
  using assms
proof (induction ns arbitrary: p)
  case (Cons m ns)
  show ?case
  proof (cases "ns = []")
    case True
    with Cons.prems show ?thesis by auto
  next
    case False
    then have "last ns \<in> set ns" by simp
    then have "node_addr (last ns) \<in> node_addr ` set ns" by (rule imageI)
    with Cons.prems(3) have ne: "node_addr (last ns) \<noteq> node_addr m" by auto
    from Cons.prems obtain nxt' where m: "p = Some (node_addr m)"
      "h (node_addr m) = Some (client_data_t.truncate m, nxt')" "chain h nxt' ns" by auto
    have "chain (h(node_addr (last ns) \<mapsto> (d, Some (node_addr n)))) nxt' (ns @ [n])"
      by (rule Cons.IH [OF m(3) False]) (use Cons.prems False in auto)
    with m(1,2) False ne show ?thesis by (simp add: fun_upd_def)
  qed
qed simp

lemma chain_write:
  assumes "chain h p ns" and "distinct (map node_addr ns)" and "node_by_fd f ns = Some n"
    and "h (node_addr n) = Some (d, nxt)"
    and "\<And>n. node_addr (u n) = node_addr n" and "client_data_t.truncate (u n) = d'"
  shows "chain (h(node_addr n \<mapsto> (d', nxt))) p (upd_first (\<lambda>n. cl_fd n = f) u ns)"
  using assms(1-4)
proof (induction ns arbitrary: p)
  case (Cons m ns)
  show ?case
  proof (cases "cl_fd m = f")
    case True
    with Cons.prems have m: "m = n" by (simp add: node_by_fd_def)
    with Cons.prems have a: "node_addr n \<notin> node_addr ` set ns" and c: "p = Some (node_addr n)" "chain h nxt ns"
      by auto
    have "chain (h(node_addr n \<mapsto> (d', nxt))) nxt ns" using c(2) by (simp only: chain_other [OF a])
    with m True c(1) show ?thesis by (simp add: assms(5,6) fun_upd_def)
  next
    case False
    with Cons.prems have n: "node_by_fd f ns = Some n" by (simp add: node_by_fd_def)
    then have "node_addr n \<in> node_addr ` set ns" using node_by_fd_Some by blast
    with Cons.prems(2) have ne: "node_addr n \<noteq> node_addr m" by auto
    from Cons.prems obtain nx where c: "p = Some (node_addr m)"
      "h (node_addr m) = Some (client_data_t.truncate m, nx)" "chain h nx ns" by auto
    have "chain (h(node_addr n \<mapsto> (d', nxt))) nx (upd_first (\<lambda>n. cl_fd n = f) u ns)"
      by (rule Cons.IH [OF c(3) _ n Cons.prems(4)]) (use Cons.prems(2) in simp)
    with c ne False show ?thesis by (simp add: fun_upd_def)
  qed
qed (simp add: node_by_fd_def)

lemma chain_unlink:
  assumes "chain h (Some (node_addr m)) (m # ns)" and "distinct (map node_addr (m # ns))" and "cl_fd m \<noteq> f"
    and "h (node_addr m) = Some (d, nxt)"
  shows "(case unlink_after m f ns of
      None \<Rightarrow> unlink_loop f h nxt (node_addr m) = Some None
    | Some (n, rest) \<Rightarrow> \<exists>prev dp np nx. unlink_loop f h nxt (node_addr m) = Some (Some (prev, node_addr n)) \<and>
        h prev = Some (dp, np) \<and> h (node_addr n) = Some (client_data_t.truncate n, nx) \<and>
        prev \<noteq> node_addr n \<and> n \<in> set ns \<and> rest = remove1_by (\<lambda>n. cl_fd n = f) (m # ns) \<and>
        (\<exists>a. prev = node_addr a \<and> a \<in> set (m # ns)) \<and>
        chain ((h(prev \<mapsto> (dp, nx)))(node_addr n := None)) (Some (node_addr m)) rest)"
  using assms
proof (induction ns arbitrary: m d nxt)
  case Nil
  then show ?case by (simp add: unlink_loop.simps)
next
  case (Cons k ns)
  from Cons.prems have k: "nxt = Some (node_addr k)" "chain h (Some (node_addr k)) (k # ns)"
    and d: "d = client_data_t.truncate m" by auto
  then obtain nx where nx: "h (node_addr k) = Some (client_data_t.truncate k, nx)" "chain h nx ns" by auto
  have dist: "distinct (map node_addr (k # ns))" "node_addr m \<notin> node_addr ` set (k # ns)"
    using Cons.prems(2) by auto
  show ?case
  proof (cases "cl_fd k = f")
    case True
    have "unlink_loop f h nxt (node_addr m) = Some (Some (node_addr m, node_addr k))"
      using k(1) nx(1) True by (simp add: unlink_loop.simps)
    moreover have "chain ((h(node_addr m \<mapsto> (d, nx)))(node_addr k := None)) (Some (node_addr m)) (m # ns)"
      using nx(2) dist d by (auto simp: chain_other)
    ultimately show ?thesis
      using True Cons.prems(3,4) nx(1) dist(2) by auto
  next
    case False
    have step: "unlink_loop f h nxt (node_addr m) = unlink_loop f h nx (node_addr k)"
      using k(1) nx(1) False by (subst unlink_loop.simps) simp
    note IH = Cons.IH [OF k(2) dist(1) False nx(1)]
    show ?thesis
    proof (cases "unlink_after k f ns")
      case None
      with IH step False show ?thesis by simp
    next
      case (Some nr)
      obtain n rest where nr: "nr = (n, rest)" by fastforce
      from IH [unfolded Some nr option.case prod.case] obtain prev dp np ny where p: "unlink_loop f h nx (node_addr k) = Some (Some (prev, node_addr n))"
        "h prev = Some (dp, np)" "h (node_addr n) = Some (client_data_t.truncate n, ny)"
        "prev \<noteq> node_addr n" "n \<in> set ns" "rest = remove1_by (\<lambda>n. cl_fd n = f) (k # ns)"
        "\<exists>a. prev = node_addr a \<and> a \<in> set (k # ns)"
        "chain ((h(prev \<mapsto> (dp, ny)))(node_addr n := None)) (Some (node_addr k)) rest"
        by blast
      have "prev \<in> node_addr ` set (k # ns)" using p(7) by blast
      moreover have "node_addr n \<in> node_addr ` set (k # ns)" using p(5) by (intro imageI) simp
      ultimately have "prev \<noteq> node_addr m" "node_addr n \<noteq> node_addr m" using dist(2) by metis+
      then have "chain ((h(prev \<mapsto> (dp, ny)))(node_addr n := None)) (Some (node_addr m)) (m # rest)"
        using p(8) Cons.prems(4) d k(1) by auto
      with p step False Some nr Cons.prems(3) show ?thesis by auto
    qed
  qed
qed

section \<open>The heap of a list of clients\<close>

text \<open>
  The cells are exactly those of the nodes in the list: none is lost, and none that has been freed
  can be reached.
\<close>

definition represents :: "heap_queue \<Rightarrow> client_queue \<Rightarrow> bool" where
  "represents s q \<longleftrightarrow>
     chain (cells s) (head s) (client_list q) \<and> distinct (map node_addr (client_list q)) \<and>
     dom (cells s) = node_addr ` set (client_list q) \<and> count s = total_available_clients q \<and>
     h_closed s = closed_fds q \<and> h_detached s = detached_threads q \<and> h_freed s = freed_nodes q"

abbreviation implements ::
  "('r \<times> heap_queue) option \<Rightarrow> ('r \<times> client_queue) option \<Rightarrow> bool" where
  "implements \<equiv> rel_option (rel_prod (=) represents)"

lemma represents_head: "represents s q \<Longrightarrow> head s = None \<longleftrightarrow> client_list q = []"
  by (auto simp: represents_def dest: chain_Nil_iff)

lemma represents_find_fd:
  "represents s q \<Longrightarrow>
     find_fd f (cells s) (head s) = Some (map_option node_addr (node_by_fd f (client_list q)))"
  by (simp add: represents_def chain_find_fd)

lemma represents_find_name:
  "represents s q \<Longrightarrow>
     find_name nm (cells s) (head s) = map_option (map_option node_addr) (node_by_name nm (client_list q))"
  by (simp add: represents_def chain_find_name)

lemma represents_cell:
  "represents s q \<Longrightarrow> node_by_fd f (client_list q) = Some n \<Longrightarrow>
     \<exists>nxt. cells s (node_addr n) = Some (client_data_t.truncate n, nxt)"
  by (auto simp: represents_def dest: node_by_fd_Some chain_cell)

lemmas represents_simps = represents_head represents_find_fd represents_find_name

lemma node_by_name_mem: "node_by_name nm ns = Some (Some n) \<Longrightarrow> n \<in> set ns"
  by (induction ns) (auto split: option.splits if_splits)

text \<open>A write to the node found.\<close>

lemma heap_write_implements:
  assumes "represents s q" and "node_by_fd f (client_list q) = Some n"
    and "\<And>n. node_addr (u n) = node_addr n" and "client_data_t.truncate (u n) = g (client_data_t.truncate n)"
  shows "\<exists>s'. heap_write (node_addr n) g s = Some s' \<and> represents s' (write_node f u q)"
proof -
  obtain nxt where c: "cells s (node_addr n) = Some (client_data_t.truncate n, nxt)"
    using represents_cell [OF assms(1,2)] by blast
  have "map node_addr (upd_first (\<lambda>n. cl_fd n = f) u ns) = map node_addr ns" for ns
    by (induction ns) (simp_all add: assms(3))
  then have a: "map node_addr (client_list (write_node f u q)) = map node_addr (client_list q)"
    by (simp add: write_node_def)
  then have d: "node_addr ` set (client_list (write_node f u q)) = node_addr ` set (client_list q)"
    by (metis list.set_map)
  have "chain ((cells s)(node_addr n \<mapsto> (g (client_data_t.truncate n), nxt))) (head s)
      (client_list (write_node f u q))"
    unfolding write_node_def using assms c
    by (simp add: chain_write [of _ _ _ _ n "client_data_t.truncate n"] represents_def)
  moreover have "node_addr n \<in> node_addr ` set (client_list q)"
    using assms(2) node_by_fd_Some by blast
  ultimately show ?thesis
    using assms(1) c a d by (simp add: heap_write_def represents_def insert_absorb) (simp add: write_node_def)
qed

text \<open>Reading fields of the node found.\<close>

lemma heap_read_fd:
  assumes "represents s q" and "\<And>n. g (client_data_t.truncate n) = g' n"
  shows "heap_read d g s (find_fd f (cells s) (head s)) =
     Some (case node_by_fd f (client_list q) of None \<Rightarrow> d | Some n \<Rightarrow> g' n)"
  using represents_cell [OF assms(1), of f]
  by (auto simp: heap_read_def represents_find_fd [OF assms(1)] assms(2) split: option.splits)

lemma heap_read_name_loop:
  assumes "represents s q" and "\<And>n. g (client_data_t.truncate n) = g' n"
  shows "heap_read d g s (find_name nm (cells s) (head s)) =
     (case node_by_name nm (client_list q) of
        None \<Rightarrow> None | Some None \<Rightarrow> Some d | Some (Some n) \<Rightarrow> Some (g' n))"
proof (cases "node_by_name nm (client_list q)")
  case (Some r)
  then show ?thesis
  proof (cases r)
    case (Some n)
    with \<open>node_by_name nm (client_list q) = Some r\<close> have n: "node_by_name nm (client_list q) = Some (Some n)"
      by simp
    then obtain nxt where "cells s (node_addr n) = Some (client_data_t.truncate n, nxt)"
      using assms(1) node_by_name_mem chain_cell unfolding represents_def by blast
    with n show ?thesis by (simp add: heap_read_def represents_find_name [OF assms(1)] assms(2))
  qed (simp add: heap_read_def represents_find_name [OF assms(1)])
qed (simp add: heap_read_def represents_find_name [OF assms(1)])

section \<open>Every operation, with its pointers\<close>

lemma heap_add_implements:
  assumes r: "represents s q" and m: "\<And>a. m = Some a \<Longrightarrow> cells s a = None"
  shows "implements (heap_add m self fdp s) (add_client_node_to_queue m self fdp q)"
proof (cases "\<exists>f a. fdp = Some f \<and> m = Some a \<and> \<not> MAX_CLIENT \<le> total_available_clients q")
  case False
  then show ?thesis
    using r by (auto simp: heap_add_def add_client_node_to_queue_def represents_def
        split: option.splits)
next
  case True
  then obtain f a where fa: "fdp = Some f" "m = Some a" "\<not> MAX_CLIENT \<le> total_available_clients q"
    by blast
  define n where "n = new_node f self a"
  let ?h = "(cells s)(a \<mapsto> (client_data_t.truncate n, None))"
  have a: "a \<notin> node_addr ` set (client_list q)" "node_addr n = a"
    using r m fa(2) by (auto simp: represents_def n_def)
  have cnt: "count s = total_available_clients q" using r by (simp add: represents_def)
  have d: "\<lparr>cl_chat_status = CHAT_STATUS_FREE, cl_fd = f, cl_to_fd = INVALID_FD, cl_thread_id = self,
      cl_name = mk_buf MAX_CLIENT_NAME_LEN (default_name f)\<rparr> = client_data_t.truncate n"
    by (simp add: n_def new_node_def client_data_t.truncate_def)
  have q': "add_client_node_to_queue m self fdp q = Some (SERVER_QUEUE_SUCC,
      q\<lparr>client_list := client_list q @ [n], total_available_clients := total_available_clients q + 1\<rparr>)"
    using fa by (simp add: add_client_eq n_def)
  show ?thesis
  proof (cases "client_list q = []")
    case True
    then have "head s = None" using represents_head [OF r] by simp
    then have "heap_add m self fdp s = Some (SERVER_QUEUE_SUCC, s\<lparr>cells := ?h, head := Some a, count := count s + 1\<rparr>)"
      using fa cnt by (simp add: heap_add_def sprintf_default_name d Let_def)
    then show ?thesis using True r a q' by (auto simp: represents_def)
  next
    case False
    then obtain p where p: "head s = Some p" using represents_head [OF r] by auto
    have h: "chain ?h (Some p) (client_list q)"
      using r p by (simp only: represents_def chain_other [OF a(1)])
    have l: "last (client_list q) \<in> set (client_list q)" using False by simp
    obtain dl nxt where dl: "?h (node_addr (last (client_list q))) = Some (dl, nxt)"
      using chain_cell [OF h l] by blast
    have "heap_add m self fdp s = Some (SERVER_QUEUE_SUCC,
        s\<lparr>cells := ?h(node_addr (last (client_list q)) \<mapsto> (dl, Some a)), count := count s + 1\<rparr>)"
      using fa cnt dl p chain_last [OF h]
      by (simp del: fun_upd_apply add: heap_add_def sprintf_default_name d Let_def)
    moreover have "chain (?h(node_addr (last (client_list q)) \<mapsto> (dl, Some (node_addr n)))) (Some p) (client_list q @ [n])"
      using h False r a dl by (intro chain_append) (simp_all add: represents_def)
    moreover have "dom (?h(node_addr (last (client_list q)) \<mapsto> (dl, Some (node_addr n)))) =
        node_addr ` set (client_list q @ [n])"
      using r a l by (simp add: represents_def insert_absorb insert_commute)
    ultimately show ?thesis
      using r a p q' by (simp add: represents_def del: fun_upd_apply dom_fun_upd)
  qed
qed

lemma heap_release_implements:
  assumes "represents s q" and "n \<in> set (client_list q)"
    and "chain (h(node_addr n := None)) p rest"
    and "rest = remove1_by (\<lambda>n. cl_fd n = f) (client_list q)" and "node_by_fd f (client_list q) = Some n"
    and "dom h = dom (cells s)"
  shows "represents (heap_release (node_addr n) (client_data_t.truncate n) (s\<lparr>cells := h, head := p\<rparr>))
     (release_node n (q\<lparr>client_list := rest\<rparr>))"
proof -
  have "node_addr ` set (remove1_by (\<lambda>n. cl_fd n = f) ns) = node_addr ` set ns - {node_addr n}"
    if "distinct (map node_addr ns)" "node_by_fd f ns = Some n" for ns
    using that by (induction ns) (auto simp: node_by_fd_def dest: find_Some_mem split: if_splits)
  then show ?thesis
    using assms by (simp add: represents_def heap_release_def release_node_def distinct_map_remove1_by)
qed

lemma heap_remove_implements:
  assumes r: "represents s q"
  shows "implements (heap_remove f s) (Some (remove_client_node_from_queue_by_fd f q))"
proof (cases "client_list q = [] \<or> INVALID_FD = f")
  case True
  have "heap_remove f s = Some (if client_list q = [] then ERR_LIST_EMPTY else ERR_NODE_NOT_FOUND, s)"
    using True represents_head [OF r] by (cases "head s") (auto simp: heap_remove_def)
  moreover have "remove_client_node_from_queue_by_fd f q =
      (if client_list q = [] then ERR_LIST_EMPTY else ERR_NODE_NOT_FOUND, q)"
    using True by (cases "client_list q") (auto simp: remove_client_node_from_queue_by_fd_def)
  ultimately show ?thesis using r by simp
next
  case False
  then obtain m ns where ms: "client_list q = m # ns" by (cases "client_list q") auto
  then have c: "chain (cells s) (head s) (m # ns)" and dist: "distinct (map node_addr (m # ns))"
    using r by (simp_all add: represents_def)
  then obtain nxt where m: "head s = Some (node_addr m)"
    "cells s (node_addr m) = Some (client_data_t.truncate m, nxt)" "chain (cells s) nxt ns" by auto
  show ?thesis
  proof (cases "cl_fd m = f")
    case True
    have "chain ((cells s)(node_addr m := None)) nxt ns" using m(3) dist by (simp add: chain_other)
    then have "represents (heap_release (node_addr m) (client_data_t.truncate m) (s\<lparr>cells := cells s, head := nxt\<rparr>))
        (release_node m (q\<lparr>client_list := ns\<rparr>))"
      using ms True by (intro heap_release_implements [where f = f, OF r]) (auto simp: node_by_fd_def)
    then show ?thesis
      using False ms m True by (simp add: heap_remove_def remove_client_node_from_queue_by_fd_def)
  next
    case neq: False
    note u = chain_unlink [OF c [unfolded m(1)] dist neq m(2)]
    show ?thesis
    proof (cases "unlink_after m f ns")
      case None
      with u False ms m neq r show ?thesis
        by (simp add: heap_remove_def remove_client_node_from_queue_by_fd_def)
    next
      case (Some nr)
      obtain n rest where nr: "nr = (n, rest)" by fastforce
      from u [unfolded Some nr option.case prod.case] obtain prev dp np nx where
        p: "unlink_loop f (cells s) nxt (node_addr m) = Some (Some (prev, node_addr n))"
        "cells s prev = Some (dp, np)" "cells s (node_addr n) = Some (client_data_t.truncate n, nx)"
        "n \<in> set ns" "rest = remove1_by (\<lambda>n. cl_fd n = f) (m # ns)"
        "chain ((cells s)(prev \<mapsto> (dp, nx), node_addr n := None)) (Some (node_addr m)) rest" by blast
      have n: "node_by_fd f ns = Some n"
        using Some nr by (simp add: unlink_after_eq split: option.splits)
      have "represents (heap_release (node_addr n) (client_data_t.truncate n)
          (s\<lparr>cells := (cells s)(prev \<mapsto> (dp, nx)), head := head s\<rparr>))
        (release_node n (q\<lparr>client_list := rest\<rparr>))"
        using p ms neq n m(1)
        by (intro heap_release_implements [where f = f, OF r]) (auto simp: node_by_fd_def)
      moreover have "s\<lparr>cells := h, head := Some (node_addr m)\<rparr> = s\<lparr>cells := h\<rparr>" for h
        using m(1) by simp
      ultimately show ?thesis
        using False ms m neq Some nr p
        by (simp add: heap_remove_def remove_client_node_from_queue_by_fd_def)
    qed
  qed
qed

lemma heap_set_name_implements:
  assumes r: "represents s q"
  shows "implements (heap_set_name f namep s) (set_name_of_client_by_client_fd f namep q)"
proof (cases "client_list q = [] \<or> namep = None \<or> INVALID_FD = f \<or> node_by_fd f (client_list q) = None")
  case True
  with r show ?thesis
    by (auto simp: heap_set_name_def set_name_of_client_by_client_fd_def represents_simps [OF r]
        split: option.splits)
next
  case False
  then obtain nm n where n: "namep = Some nm" "node_by_fd f (client_list q) = Some n" by auto
  obtain nxt where c: "cells s (node_addr n) = Some (client_data_t.truncate n, nxt)"
    using represents_cell [OF r n(2)] by blast
  have w: "\<exists>s'. heap_write (node_addr n) (\<lambda>d. d\<lparr>cl_name := b\<rparr>) s = Some s' \<and>
      represents s' (write_node f (\<lambda>n. n\<lparr>cl_name := b\<rparr>) q)" for b
    using r n(2) by (rule heap_write_implements) (simp_all add: client_data_t.truncate_def)
  define res where "res = (case strncpy (cl_name n) nm (MAX_CLIENT_NAME_LEN - 1) of
      None \<Rightarrow> None | Some b \<Rightarrow> store_byte b (MAX_CLIENT_NAME_LEN - 1) NUL)"
  have h: "heap_set_name f namep s = (case res of None \<Rightarrow> None
      | Some b \<Rightarrow> map_option (Pair SERVER_QUEUE_SUCC) (heap_write (node_addr n) (\<lambda>d. d\<lparr>cl_name := b\<rparr>) s))"
    using False n c by (simp add: heap_set_name_def represents_simps [OF r] res_def split: option.split)
  have q: "set_name_of_client_by_client_fd f namep q = (case res of None \<Rightarrow> None
      | Some b \<Rightarrow> Some (SERVER_QUEUE_SUCC, write_node f (\<lambda>n. n\<lparr>cl_name := b\<rparr>) q))"
    using False n by (simp add: set_name_of_client_by_client_fd_def res_def split: option.split)
  show ?thesis
  proof (cases res)
    case (Some b)
    with w [of b] h q show ?thesis by auto
  qed (simp add: h q)
qed

lemma heap_set_status_implements:
  assumes r: "represents s q"
  shows "implements (heap_set_status f c s) (Some (set_client_chatting_status_by_fd f c q))"
proof -
  have "\<exists>s'. heap_write (node_addr n) (\<lambda>d. d\<lparr>cl_chat_status := c\<rparr>) s = Some s' \<and>
      represents s' (write_node f (\<lambda>n. n\<lparr>cl_chat_status := c\<rparr>) q)"
    if "node_by_fd f (client_list q) = Some n" for n
    using r that by (rule heap_write_implements) (simp_all add: client_data_t.truncate_def)
  with r show ?thesis
    by (fastforce simp: heap_set_status_def set_client_chatting_status_by_fd_def represents_simps [OF r]
        split: option.splits)
qed

lemma heap_set_to_fd_implements:
  assumes r: "represents s q"
  shows "implements (heap_set_to_fd f t s) (Some (set_to_fd_by_fd f t q))"
proof -
  have "\<exists>s'. heap_write (node_addr n) (\<lambda>d. d\<lparr>cl_to_fd := t\<rparr>) s = Some s' \<and>
      represents s' (write_node f (\<lambda>n. n\<lparr>cl_to_fd := t\<rparr>) q)"
    if "node_by_fd f (client_list q) = Some n" for n
    using r that by (rule heap_write_implements) (simp_all add: client_data_t.truncate_def)
  with r show ?thesis
    by (fastforce simp: heap_set_to_fd_def set_to_fd_by_fd_def represents_simps [OF r]
        split: option.splits)
qed

lemma heap_getters:
  assumes r: "represents s q"
  shows "heap_get_status f s = Some (get_client_chatting_status_by_fd f q)"
    and "heap_get_conn_fd f s = Some (get_conn_fd_by_fd f q)"
    and "heap_get_name f s = Some (get_client_name_by_fd f q)"
    and "heap_fd_by_name namep s = get_client_fd_by_name namep q"
    and "heap_status_by_name namep s = get_client_chatting_status_by_name namep q"
    and "heap_check_name namep s = check_client_with_same_name_exist_or_not namep q"
proof -
  show "heap_get_status f s = Some (get_client_chatting_status_by_fd f q)"
    by (simp add: heap_get_status_def get_client_chatting_status_by_fd_def
        heap_read_fd [OF r, of cl_chat_status cl_chat_status])
  show "heap_get_conn_fd f s = Some (get_conn_fd_by_fd f q)"
    by (simp add: heap_get_conn_fd_def get_conn_fd_by_fd_def heap_read_fd [OF r, of cl_to_fd cl_to_fd])
  show "heap_get_name f s = Some (get_client_name_by_fd f q)"
    by (simp add: heap_get_name_def get_client_name_by_fd_def represents_simps [OF r] split: option.split)
  show "heap_fd_by_name namep s = get_client_fd_by_name namep q"
    by (simp add: heap_fd_by_name_def get_client_fd_by_name_def represents_head [OF r]
        heap_read_name_loop [OF r, of cl_fd cl_fd] split: option.split)
  show "heap_status_by_name namep s = get_client_chatting_status_by_name namep q"
    by (simp add: heap_status_by_name_def get_client_chatting_status_by_name_def
        heap_read_name_loop [OF r, of cl_chat_status cl_chat_status] split: option.split)
  show "heap_check_name namep s = check_client_with_same_name_exist_or_not namep q"
    by (simp add: heap_check_name_def check_client_with_same_name_exist_or_not_def
        represents_simps [OF r] split: option.split)
qed

lemma chain_free:
  "chain h p ns \<Longrightarrow> distinct (map node_addr ns) \<Longrightarrow> dom h = node_addr ` set ns \<Longrightarrow>
     free_loop h p freed = Some (Map.empty, freed @ map node_addr ns)"
proof (induction ns arbitrary: h p freed)
  case (Cons n ns)
  then obtain nxt where n: "p = Some (node_addr n)" "h (node_addr n) = Some (client_data_t.truncate n, nxt)"
    "chain h nxt ns" and a: "node_addr n \<notin> node_addr ` set ns" by auto
  have "free_loop (h(node_addr n := None)) nxt (freed @ [node_addr n]) =
      Some (Map.empty, (freed @ [node_addr n]) @ map node_addr ns)"
  proof (rule Cons.IH)
    show "chain (h(node_addr n := None)) nxt ns" using n(3) by (simp only: chain_other [OF a])
    show "distinct (map node_addr ns)" using Cons.prems(2) by simp
    show "dom (h(node_addr n := None)) = node_addr ` set ns" using Cons.prems(3) a by simp
  qed
  with n show ?case by (subst free_loop.simps) simp
qed (simp add: free_loop.simps)

lemma heap_free_all_implements:
  assumes r: "represents s q"
  shows "\<exists>s'. heap_free_all s = Some s' \<and> represents s' (free_all_client_nodes q) \<and> cells s' = Map.empty"
proof -
  have "free_loop (cells s) (head s) (h_freed s) = Some (Map.empty, freed_nodes q @ map node_addr (client_list q))"
    using r by (simp add: represents_def chain_free)
  with r show ?thesis by (simp add: heap_free_all_def represents_def free_all_client_nodes_def)
qed

lemma chain_join: "chain h p ns \<Longrightarrow> join_loop h p joined = Some (joined @ map cl_thread_id ns)"
proof (induction ns arbitrary: p joined)
  case (Cons n ns)
  then show ?case by (subst join_loop.simps) auto
qed (simp add: join_loop.simps)

lemma heap_join_all_eq: "represents s q \<Longrightarrow> heap_join_all s = Some (join_all_client_threads q)"
  using chain_join [of "cells s" "head s" "client_list q" "[]"]
  by (simp add: heap_join_all_def join_all_client_threads_def represents_def)

lemma chain_names: "chain h p ns \<Longrightarrow> names_loop h p l k = append_names l k ns"
proof (induction ns arbitrary: p l k)
  case (Cons n ns)
  then show ?case by (subst names_loop.simps) (auto split: option.split)
qed (simp add: names_loop.simps)

lemma heap_get_list_eq: "represents s q \<Longrightarrow> heap_get_list listp s = get_client_list listp q"
proof -
  assume r: "represents s q"
  then have "names_loop (cells s) (head s) l k = append_names l k (client_list q)" for l k
    by (simp add: represents_def chain_names)
  with r show ?thesis
    by (simp add: heap_get_list_def get_client_list_def represents_head split: option.split)
qed

lemma heap_read_name_eq:
  assumes r: "represents s q"
  shows "heap_read_name s p = read_name q p"
proof (cases p)
  case (Node_Name a)
  have "map_option (cl_name \<circ> fst) (cells s a) = map_option cl_name (find (\<lambda>n. node_addr n = a) (client_list q))"
  proof (cases "find (\<lambda>n. node_addr n = a) (client_list q)")
    case None
    have "\<And>n. n \<in> set (client_list q) \<Longrightarrow> node_addr n \<noteq> a" using None by (simp add: find_None_iff)
    then have "a \<notin> dom (cells s)" using r by (auto simp: represents_def simp del: domIff)
    then have "cells s a = None" by (rule contrapos_np) (cases "cells s a"; auto)
    with None show ?thesis by simp
  next
    case (Some n)
    then have "n \<in> set (client_list q)" "node_addr n = a" using find_Some_mem by fastforce+
    with r Some chain_cell show ?thesis by (fastforce simp: represents_def)
  qed
  with Node_Name show ?thesis by (simp add: heap_read_name_def read_name_def)
qed (simp add: heap_read_name_def read_name_def)

lemma represents_init: "represents init_heap_queue init_queue"
  by (simp add: represents_def init_heap_queue_def init_queue_def)

section \<open>The list of clients as a linked list\<close>

text \<open>
  C40: The functions of \<^verbatim>\<open>server_queue.c\<close> with their pointers do what those on the list of
  nodes do: the empty list is represented, and on a heap that represents a list every operation has
  the same result and leaves a heap that represents the list the operation leaves, given that
  \<^verbatim>\<open>malloc\<close> returns an address not in use. So every loop over \<^verbatim>\<open>next\<close> ends, no
  function reads a node that has been freed, no node is lost or freed twice, and at the end every
  cell is freed. The exceptions are those of the list: strings without end.
\<close>

theorem pointers_implement_list:
  assumes "represents s q" and "\<forall>a. m = Some a \<longrightarrow> cells s a = None"
  shows "represents init_heap_queue init_queue \<and>
    implements (heap_add m self fdp s) (add_client_node_to_queue m self fdp q) \<and>
    implements (heap_remove f s) (Some (remove_client_node_from_queue_by_fd f q)) \<and>
    implements (heap_set_name f namep s) (set_name_of_client_by_client_fd f namep q) \<and>
    implements (heap_set_status f c s) (Some (set_client_chatting_status_by_fd f c q)) \<and>
    implements (heap_set_to_fd f t s) (Some (set_to_fd_by_fd f t q)) \<and>
    heap_get_status f s = Some (get_client_chatting_status_by_fd f q) \<and>
    heap_get_conn_fd f s = Some (get_conn_fd_by_fd f q) \<and>
    heap_get_name f s = Some (get_client_name_by_fd f q) \<and>
    heap_read_name s (get_client_name_by_fd f q) = read_name q (get_client_name_by_fd f q) \<and>
    heap_fd_by_name namep s = get_client_fd_by_name namep q \<and>
    heap_status_by_name namep s = get_client_chatting_status_by_name namep q \<and>
    heap_check_name namep s = check_client_with_same_name_exist_or_not namep q \<and>
    heap_get_list listp s = get_client_list listp q \<and>
    heap_join_all s = Some (join_all_client_threads q) \<and>
    (\<exists>s'. heap_free_all s = Some s' \<and> represents s' (free_all_client_nodes q) \<and> cells s' = Map.empty)"
  using assms
  by (simp only: represents_init heap_add_implements heap_remove_implements heap_set_name_implements
      heap_set_status_implements heap_set_to_fd_implements heap_getters heap_read_name_eq
      heap_get_list_eq heap_join_all_eq heap_free_all_implements simp_thms)

text \<open>On two clients, at the addresses 1 and 2: the second is removed through the first.\<close>

definition two_cells :: heap_queue where
  "two_cells = \<lparr>cells = [1 \<mapsto> (client_data_t.truncate (new_node 4 9 1), Some 2),
                        2 \<mapsto> (client_data_t.truncate (new_node 5 9 2), None)],
                head = Some 1, count = 2, h_closed = [], h_detached = [], h_freed = []\<rparr>"

definition two_nodes :: client_queue where
  "two_nodes = init_queue\<lparr>client_list := [new_node 4 9 1, new_node 5 9 2], total_available_clients := 2\<rparr>"

theorem pointers_implement_list_witness:
  "implements (heap_remove 5 two_cells)
     (Some (SERVER_QUEUE_SUCC, \<lparr>client_list = [new_node 4 9 1], total_available_clients = 1,
        closed_fds = [5], detached_threads = [9], freed_nodes = [2]\<rparr>))"
proof -
  have "represents two_cells two_nodes"
    by (auto simp: represents_def two_cells_def two_nodes_def init_queue_def)
  moreover have "\<forall>a. Some 3 = Some a \<longrightarrow> cells two_cells a = None" by (simp add: two_cells_def)
  moreover have "remove_client_node_from_queue_by_fd 5 two_nodes =
      (SERVER_QUEUE_SUCC, \<lparr>client_list = [new_node 4 9 1], total_available_clients = 1,
        closed_fds = [5], detached_threads = [9], freed_nodes = [2]\<rparr>)"
    by (simp add: remove_client_node_from_queue_by_fd_def two_nodes_def release_node_def init_queue_def)
  ultimately show ?thesis
    using pointers_implement_list [of two_cells two_nodes "Some 3" 9 None 5] by simp
qed

end
