(* ===== verification/Spec2Isabelle.thy ===== *)
theory Spec2Isabelle
  imports Server_Concurrent Chat_Wire Queue_Heap
begin

text \<open>
  A chat server and its client over TCP, in C: clients register with the server under a name, ask for
  the list of names, ask another client for a chat, accept or decline, and exchange lines of text that
  the server relays. The development translates the code of both programs into functions and
  programs of HOL and proves what they promise, where they leave defined behaviour, and what they do
  together.

  \<^bold>\<open>The parts of the program and their models.\<close>

  \<^item> \<^verbatim>\<open>common_inc/chat_app_common.h\<close> (theory \<open>Protocol\<close>): the message types with their
    codes, the message struct of a type, a descriptor and 512 bytes of text, and its image of 520 bytes
    (\<open>encode_msg\<close>), of which a \<^verbatim>\<open>recv\<close> may deliver any front (\<open>recv_into\<close>).
  \<^item> \<^verbatim>\<open>server/lib_src/server_queue.c\<close> (theory \<open>Client_Queue\<close>): the list of connected clients.
    The record \<open>client_queue\<close> holds the globals \<^verbatim>\<open>client_list\<close> and
    \<^verbatim>\<open>total_available_clients\<close>, and logs the calls of \<^verbatim>\<open>close\<close>,
    \<^verbatim>\<open>pthread_detach\<close> and \<^verbatim>\<open>free\<close>; one function per function of the file, with its
    name. Theory \<open>Queue_Heap\<close> has the same functions over cells linked by \<^verbatim>\<open>next\<close>.
  \<^item> \<^verbatim>\<open>server/lib_src/server_mgmt.c\<close> (theories \<open>Server_Prog\<close>, \<open>Server_Handlers\<close>,
    \<open>Server_Threads\<close>): the handlers of the messages and the threads, as trees of their calls to the
    outside (mutex, list, memory behind name pointers, system calls). A tree is executed alone by
    \<open>run\<close>, in which each answer of the system comes from an environment numbered by a clock, and
    interleaved with those of other threads by the steps of \<open>Server_System\<close>. A \<^verbatim>\<open>while\<close> loop
    of a thread is one tree per round; \<^verbatim>\<open>main_server.c\<close> is \<open>main_server\<close>.
  \<^item> \<^verbatim>\<open>client/lib_src/client_lib.c\<close> (theories \<open>Client_Text\<close>, \<open>Client_Lib\<close>, \<open>Client_Main\<close>):
    the record \<open>client\<close> holds the globals of the library and of the application, what is printed, and
    what is sent; connecting, sending, the changes on a received message, and the loop
    \<^verbatim>\<open>io_thread\<close>, whose \<open>io_round\<close> holds what the system calls of one round answer.
  \<^item> \<^verbatim>\<open>client/lib_src/user_iterectaions.c\<close> (theory \<open>Client_Input\<close>): what a typed line is: a
    line of a chat, an answer to a request, or a command.
  \<^item> \<^verbatim>\<open>client/main_client.c\<close> (theory \<open>Client_Main\<close>): the callback that prints received
    messages, the parameters, and \<open>client_main\<close> with its exit status.

  The programs interact through messages only. In the server the main thread adds nothing to the list
  itself: it starts a thread per connection, which registers its client, exchanges the greeting, and
  then handles one message per round; the threads share the list, under one mutex. In the client the
  commands and the handling of received messages share \<^verbatim>\<open>busy_in_chat\<close>,
  \<^verbatim>\<open>conn_request_rx\<close> and the name of the partner.

  \<^bold>\<open>How C is rendered.\<close> Arrays are lists of bytes, and every access goes through the functions of
  \<open>CString\<close>: one outside the array, or a string without an end, is \<open>None\<close> (\<open>Fault\<close> in a tree), so
  undefined behaviour is a result of the model. Descriptors are 32-bit words and the count of clients
  an 8-bit word, with their wrap-around. \<^verbatim>\<open>connect_with_client\<close> copies bytes from behind an
  array; that is undefined in C, and the model goes on with the bytes that lie there, an argument called
  \<open>behind\<close>, so that the properties can say what is sent. Status codes are datatypes with the order of
  their enumerators.

  \<^bold>\<open>The library.\<close> \<open>Prelude\<close> holds the collections of rewrite rules and the locale \<open>string_table\<close>
  (a lookup of texts by code, interpreted on the four tables of the code). \<open>Queue_Facts\<close> has the
  invariant \<open>wf_queue\<close> of the list and the locales \<open>fd_field\<close> and \<open>two_fd_fields\<close> (getters and
  setters of a field by descriptor), interpreted on the functions for status and partner; \<open>Queue_Text\<close> the
  names and their list. \<open>Chat_Links\<close> extends them by the locale \<open>chat_links\<close>, which proves once
  what a request does to the pairing of chats; it is interpreted on the list of the code and on the
  registry of the specification. \<open>Server_Behaviour\<close> says what every branch of every handler does.
  \<open>Server_Spec\<close> is the specification of the server: a registry of names, statuses and partners, and
  for each request the next registry and the replies. \<open>Client_Spec\<close> is that of the client: a user's
  view (talking, asked, partner), changed by a line and by a message.

  \<^bold>\<open>The properties.\<close>

  \<^item> C1 to C4 (\<open>Server_Correct\<close>): handlers and the end of a connection implement the specification,
    requests that keep to the protocol keep busy clients paired, and one that does not breaks a chat.
  \<^item> C5 to C10 (\<open>Server_Safety\<close>): the messages that lead to undefined behaviour, the lock
    discipline and the one path that keeps the mutex, unique names and the names that escape it, and
    the text of the list of clients.
  \<^item> C11 to C15 (\<open>Server_Life\<close>): adding and removing, default names, the greeting, the limit of 20
    clients, shutdown.
  \<^item> C16 to C20 (\<open>Server_Concurrent\<close>): all interleavings: the invariant of the list, mutual
    exclusion, what the lost mutex does, and two races.
  \<^item> C21 to C25 (\<open>Client_Lines\<close>): the array of a line, recognition of commands, lines as changes of
    the user's view, and what is sent in which state.
  \<^item> C26 to C32 (\<open>Client_Loop\<close>, \<open>Client_Session\<close>, \<open>Client_Correct\<close>): received messages, connecting,
    the loop over many rounds, when it ends, and the exit status.
  \<^item> C33 to C35 (\<open>Chat_Correct\<close>): server and clients together agree on who talks and who has been
    asked, every line is served, and a line of a chat reaches the partner and nobody else.
  \<^item> C36 to C39 (\<open>Chat_Wire\<close>): the greeting on both sides, the types of the server's messages, an
    answer the two sides read differently, and the bytes on the wire.
  \<^item> C40 (\<open>Queue_Heap\<close>): the pointers of the list implement the list.

  \<^bold>\<open>Bounds and fuel.\<close> The loop of the client is a recursion over the list of its rounds and the main
  loop of the server one over a number of rounds; both are arbitrary, so nothing is lost with them. C29
  and C15 say when the loops end: the client's in exactly the rounds that hold an end of the
  connection, an error or an interrupt, the server's at the first round that finds the flag for its termination set; and C30 that
  the end of the input is not among them. The loops over \<^verbatim>\<open>next\<close> are partial functions in
  \<open>Queue_Heap\<close>, with no bound: that they end is part of C40. The loops over text recur on the array.

  \<^bold>\<open>Hypotheses on the outside.\<close> The answers of the system calls are arguments: \<^verbatim>\<open>malloc\<close>
  returns an address not in use, \<^verbatim>\<open>accept\<close> a descriptor not open, \<^verbatim>\<open>recv\<close> and
  \<^verbatim>\<open>read\<close> no more bytes than asked for. Where a property needs one, it names it. C33 to C35 are
  about \<open>chat_reach\<close>, in which what an event sends is received whole on the open connections before
  the next event; interleavings inside the server are those of C16 to C20, without that assumption.

  \<^bold>\<open>Not modelled.\<close> The text of the log (\<^verbatim>\<open>logger.h\<close>, \<^verbatim>\<open>get_current_time\<close>,
  \<^verbatim>\<open>print_bin_info\<close>), but for the log calls of the server that read a buffer of a client up
  to its NUL, which are actions of the handlers; \<^verbatim>\<open>sleep\<close>; what a terminal shows for the text
  written to it; the build files, the valgrind scripts and the README, which are no code of the programs. Messages
  in flight between the two programs (a client that acts before the server's last message has
  reached it) are outside C33 to C35.
\<close>

end
